(* ===== verification/Prelude.thy ===== *)
theory Prelude
  imports
    Main
    "HOL-Library.Word"
    "HOL-Library.Char_ord"
    "HOL-Library.List_Lexorder"
    "HOL-Library.Sublist"
begin

text \<open>
  Shared vocabulary of the development: the machine types of the program, results and their
  combinators, the operations on Rust's \<open>str\<close> that the crates use, and decimal printing.

  A Rust \<open>String\<close> is the list of its UTF-8 bytes (\<^typ>\<open>string\<close>, one \<^typ>\<open>char\<close> per byte), so
  \<^const>\<open>length\<close> is Rust's \<open>len()\<close>.  A test that every character is some ASCII character reads
  the same on bytes and on code points, because each byte of a non-ASCII character is above 127.
  A \<open>Result<T, E>\<close> is \<open>'e + 'a\<close> with the error on the left.
\<close>

section \<open>Machine types\<close>

type_synonym u8 = "8 word"
type_synonym u64 = "64 word"
type_synonym bytes = "u8 list"
type_synonym uuid = "128 word"

text \<open>
  Instants are whole microseconds since the epoch, the resolution of PostgreSQL's
  \<open>timestamptz\<close>; durations are microseconds too.
\<close>

type_synonym time = int
type_synonym duration = int

definition minutes :: "int \<Rightarrow> duration" where
  "minutes n = n * 60000000"

definition hours :: "int \<Rightarrow> duration" where
  "hours n = n * 3600000000"

named_theorems res_simps \<open>unfolding of the result combinators\<close>
named_theorems str_simps \<open>facts on the string operations\<close>

section \<open>Results\<close>

text \<open>Where the code can panic beside returning an error, the left side is a \<open>fault\<close>.\<close>

datatype 'e fault = Err 'e | Panic

definition ok_or :: "'e \<Rightarrow> 'a option \<Rightarrow> 'e + 'a" where
  "ok_or e x = (case x of None \<Rightarrow> Inl e | Some y \<Rightarrow> Inr y)"

definition map_err :: "('e \<Rightarrow> 'f) \<Rightarrow> 'e + 'a \<Rightarrow> 'f + 'a" where
  "map_err f r = (case r of Inl e \<Rightarrow> Inl (f e) | Inr x \<Rightarrow> Inr x)"

definition map_ok :: "('a \<Rightarrow> 'b) \<Rightarrow> 'e + 'a \<Rightarrow> 'e + 'b" where
  "map_ok f r = (case r of Inl e \<Rightarrow> Inl e | Inr x \<Rightarrow> Inr (f x))"

definition and_then :: "'e + 'a \<Rightarrow> ('a \<Rightarrow> 'e + 'b) \<Rightarrow> 'e + 'b" where
  "and_then r f = (case r of Inl e \<Rightarrow> Inl e | Inr x \<Rightarrow> f x)"

definition transpose_res :: "('e + 'a) option \<Rightarrow> 'e + 'a option" where
  "transpose_res x =
     (case x of None \<Rightarrow> Inr None | Some (Inl e) \<Rightarrow> Inl e | Some (Inr y) \<Rightarrow> Inr (Some y))"

text \<open>\<open>collect::<Result<Vec<_>, _>>()\<close>: the first error, or all the values in order.\<close>

fun collect_res :: "('e + 'a) list \<Rightarrow> 'e + 'a list" where
  "collect_res [] = Inr []"
| "collect_res (Inl e # rs) = Inl e"
| "collect_res (Inr x # rs) = (case collect_res rs of Inl e \<Rightarrow> Inl e | Inr xs \<Rightarrow> Inr (x # xs))"

definition is_ok :: "'e + 'a \<Rightarrow> bool" where
  "is_ok r = (case r of Inl _ \<Rightarrow> False | Inr _ \<Rightarrow> True)"

lemma ok_or_simps [simp]:
  "ok_or e None = Inl e"
  "ok_or e (Some x) = Inr x"
  by (simp_all add: ok_or_def)

lemma map_err_simps [simp]:
  "map_err f (Inl e) = Inl (f e)"
  "map_err f (Inr x) = Inr x"
  by (simp_all add: map_err_def)

lemma map_ok_simps [simp]:
  "map_ok g (Inl e) = Inl e"
  "map_ok g (Inr x) = Inr (g x)"
  by (simp_all add: map_ok_def)

lemma and_then_simps [simp]:
  "and_then (Inl e) f = Inl e"
  "and_then (Inr x) f = f x"
  by (simp_all add: and_then_def)

lemma transpose_res_simps [simp]:
  "transpose_res None = Inr None"
  "transpose_res (Some (Inl e)) = Inl e"
  "transpose_res (Some (Inr x)) = Inr (Some x)"
  by (simp_all add: transpose_res_def)

lemma is_ok_simps [simp]:
  "\<not> is_ok (Inl e)"
  "is_ok (Inr x)"
  by (simp_all add: is_ok_def)

lemma ok_or_eq_iff [res_simps]:
  "ok_or e x = Inr y \<longleftrightarrow> x = Some y"
  "ok_or e x = Inl e' \<longleftrightarrow> x = None \<and> e' = e"
  by (cases x; auto)+

lemma and_then_eq_Inr [res_simps]:
  "and_then r f = Inr y \<longleftrightarrow> (\<exists>x. r = Inr x \<and> f x = Inr y)"
  by (cases r) auto

lemma collect_res_map_Inr: "collect_res (map (\<lambda>x. Inr (f x)) xs) = Inr (map f xs)"
  by (induction xs) auto

lemma collect_res_all_ok:
  assumes "\<And>x. x \<in> set xs \<Longrightarrow> g x = Inr (f x)"
  shows "collect_res (map g xs) = Inr (map f xs)"
  using assms by (induction xs) auto

section \<open>Characters and strings\<close>

definition is_ascii_digit :: "char \<Rightarrow> bool" where
  "is_ascii_digit c \<longleftrightarrow> 48 \<le> (of_char c :: nat) \<and> of_char c \<le> (57 :: nat)"

definition is_ascii_alphabetic :: "char \<Rightarrow> bool" where
  "is_ascii_alphabetic c \<longleftrightarrow>
     65 \<le> (of_char c :: nat) \<and> of_char c \<le> (90 :: nat) \<or>
     97 \<le> (of_char c :: nat) \<and> of_char c \<le> (122 :: nat)"

definition is_ascii_alphanumeric :: "char \<Rightarrow> bool" where
  "is_ascii_alphanumeric c \<longleftrightarrow> is_ascii_alphabetic c \<or> is_ascii_digit c"

definition strip_prefix :: "string \<Rightarrow> string \<Rightarrow> string option" where
  "strip_prefix p s = (if take (length p) s = p then Some (drop (length p) s) else None)"

definition strip_suffix :: "string \<Rightarrow> string \<Rightarrow> string option" where
  "strip_suffix p s = map_option rev (strip_prefix (rev p) (rev s))"

definition ends_with :: "char \<Rightarrow> string \<Rightarrow> bool" where
  "ends_with c s \<longleftrightarrow> s \<noteq> [] \<and> last s = c"

text \<open>\<open>str::split\<close> on one character: always at least one piece.\<close>

fun split_on :: "char \<Rightarrow> string \<Rightarrow> string list" where
  "split_on c [] = [[]]"
| "split_on c (x # xs) =
     (if x = c then [] # split_on c xs
      else (case split_on c xs of [] \<Rightarrow> [[x]] | p # ps \<Rightarrow> (x # p) # ps))"

text \<open>
  \<open>str::trim\<close> removes characters with the Unicode property \<open>White_Space\<close>: here their UTF-8
  encodings, U+0009 to U+000D, U+0020, U+0085, U+00A0, U+1680, U+2000 to U+200A, U+2028, U+2029,
  U+202F, U+205F and U+3000.
\<close>

definition utf8 :: "nat list \<Rightarrow> string" where
  "utf8 bs = map char_of bs"

definition white_space :: "string list" where
  "white_space =
     map (\<lambda>b. utf8 [b]) [9, 10, 11, 12, 13, 32]
     @ [utf8 [194, 133], utf8 [194, 160], utf8 [225, 154, 128]]
     @ map (\<lambda>b. utf8 [226, 128, b]) [128, 129, 130, 131, 132, 133, 134, 135, 136, 137, 138, 168, 169, 175]
     @ [utf8 [226, 129, 159], utf8 [227, 128, 128]]"

fun find_prefix :: "string list \<Rightarrow> string \<Rightarrow> string option" where
  "find_prefix [] s = None"
| "find_prefix (w # ws) s =
     (if w \<noteq> [] \<and> take (length w) s = w then Some (drop (length w) s) else find_prefix ws s)"

lemma find_prefix_shorter: "find_prefix ws s = Some t \<Longrightarrow> length t < length s"
proof (induction ws)
  case (Cons w ws)
  show ?case
  proof (cases "w \<noteq> [] \<and> take (length w) s = w")
    case True
    then have "s \<noteq> []" and "0 < length w" by auto
    with True Cons.prems show ?thesis by auto
  next
    case False
    with Cons show ?thesis by auto
  qed
qed simp

function strip_all :: "string list \<Rightarrow> string \<Rightarrow> string" where
  "strip_all ws s = (case find_prefix ws s of None \<Rightarrow> s | Some t \<Rightarrow> strip_all ws t)"
  by pat_completeness auto
termination
  by (relation "measure (\<lambda>(ws, s). length s)") (auto intro: find_prefix_shorter)

declare strip_all.simps [simp del]

definition trim_start :: "string \<Rightarrow> string" where
  "trim_start s = strip_all white_space s"

definition trim_end :: "string \<Rightarrow> string" where
  "trim_end s = rev (strip_all (map rev white_space) (rev s))"

definition trim :: "string \<Rightarrow> string" where
  "trim s = trim_end (trim_start s)"

lemma strip_prefix_append [str_simps]: "strip_prefix p (p @ s) = Some s"
  by (simp add: strip_prefix_def)

lemma strip_prefix_eq_Some [str_simps]: "strip_prefix p s = Some t \<longleftrightarrow> s = p @ t"
  by (auto simp: strip_prefix_def) (metis append_take_drop_id)

lemma strip_suffix_eq_Some [str_simps]: "strip_suffix p s = Some t \<longleftrightarrow> s = t @ p"
proof
  assume "strip_suffix p s = Some t"
  then have "rev s = rev p @ rev t"
    by (auto simp: strip_suffix_def strip_prefix_eq_Some)
  then show "s = t @ p"
    by (metis rev_append rev_rev_ident)
next
  assume "s = t @ p"
  then show "strip_suffix p s = Some t"
    by (simp add: strip_suffix_def strip_prefix_append)
qed

lemma strip_all_suffix: "suffix (strip_all ws s) s"
proof (induction ws s rule: strip_all.induct)
  case (1 ws s)
  have suf: "find_prefix us s = Some t \<Longrightarrow> suffix t s" for us t
    by (induction us) (auto split: if_splits simp: suffix_drop)
  show ?case
  proof (cases "find_prefix ws s")
    case None
    then show ?thesis by (simp add: strip_all.simps [of ws s])
  next
    case (Some t)
    with "1.IH" have "suffix (strip_all ws t) t" by simp
    with suf [OF Some] Some show ?thesis
      by (auto simp: strip_all.simps [of ws s] intro: suffix_order.trans)
  qed
qed

lemma length_trim_le: "length (trim s) \<le> length s"
proof -
  have "length (trim_end u) \<le> length u" for u
    using suffix_length_le [OF strip_all_suffix] by (simp add: trim_end_def) (metis length_rev)
  moreover have "length (trim_start s) \<le> length s"
    using suffix_length_le [OF strip_all_suffix] by (simp add: trim_start_def)
  ultimately show ?thesis
    unfolding trim_def by (meson le_trans)
qed

lemma trim_empty [simp]: "trim [] = []"
  using length_trim_le [of "[]"] by simp

lemma split_on_nonempty [simp]: "split_on c s \<noteq> []"
  by (induction s) (auto split: list.splits)

lemma split_on_no_sep: "c \<notin> set s \<Longrightarrow> split_on c s = [s]"
  by (induction s) auto

lemma split_on_append_sep:
  "c \<notin> set s \<Longrightarrow> split_on c (s @ c # t) = s # split_on c t"
  by (induction s) auto

text \<open>\<open>slice.get(i)\<close> and \<open>&s[a..b]\<close> with \<open>a \<le> b \<le> len\<close>.\<close>

definition byte_at :: "string \<Rightarrow> nat \<Rightarrow> char option" where
  "byte_at s i = (if i < length s then Some (s ! i) else None)"

definition byte_slice :: "nat \<Rightarrow> nat \<Rightarrow> string \<Rightarrow> string" where
  "byte_slice a b s = take (b - a) (drop a s)"

lemma byte_slice_split:
  assumes "a \<le> b" and "b \<le> c"
  shows "byte_slice a c s = byte_slice a b s @ byte_slice b c s"
proof -
  from assms have len: "c - a = (b - a) + (c - b)" by simp
  from assms(1) have rest: "drop (b - a) (drop a s) = drop b s" by simp
  show ?thesis unfolding byte_slice_def len take_add rest ..
qed

lemma byte_slice_nth: "i < length s \<Longrightarrow> byte_slice i (Suc i) s = [s ! i]"
  by (simp add: byte_slice_def take_Suc hd_drop_conv_nth)

lemma length_byte_slice: "b \<le> length s \<Longrightarrow> length (byte_slice a b s) = b - a"
  by (simp add: byte_slice_def)

section \<open>Decimal numbers\<close>

definition digit_char :: "nat \<Rightarrow> char" where
  "digit_char d = char_of (48 + d)"

definition digit_val :: "char \<Rightarrow> nat" where
  "digit_val c = of_char c - 48"

text \<open>\<open>Display\<close> of the unsigned integer types.\<close>

fun nat_str :: "nat \<Rightarrow> string" where
  "nat_str n = (if n < 10 then [digit_char n] else nat_str (n div 10) @ [digit_char (n mod 10)])"

declare nat_str.simps [simp del]

definition dec_value :: "string \<Rightarrow> nat" where
  "dec_value s = foldl (\<lambda>v c. v * 10 + digit_val c) 0 s"

lemma digit_char_props [simp]:
  assumes "d < 10"
  shows "is_ascii_digit (digit_char d)" and "digit_val (digit_char d) = d"
  using assms by (simp_all add: digit_char_def is_ascii_digit_def digit_val_def)

lemma digit_char_inverse: "is_ascii_digit c \<Longrightarrow> digit_char (digit_val c) = c"
  by (simp add: is_ascii_digit_def digit_char_def digit_val_def)

lemma digit_val_less: "is_ascii_digit c \<Longrightarrow> digit_val c < 10"
  by (auto simp: is_ascii_digit_def digit_val_def)

lemma dec_value_snoc [simp]: "dec_value (s @ [c]) = dec_value s * 10 + digit_val c"
  by (simp add: dec_value_def)

lemma dec_value_Nil [simp]: "dec_value [] = 0"
  by (simp add: dec_value_def)

lemma dec_value_single [simp]: "dec_value [c] = digit_val c"
  by (simp add: dec_value_def)

lemma nat_str_digits: "list_all is_ascii_digit (nat_str n)"
proof (induction n rule: nat_str.induct)
  case (1 n)
  then show ?case
    by (cases "n < 10") (simp_all add: nat_str.simps [of n])
qed

lemma nat_str_nonempty [simp]: "nat_str n \<noteq> []"
  by (subst nat_str.simps) simp

lemma dec_value_nat_str [simp]: "dec_value (nat_str n) = n"
proof (induction n rule: nat_str.induct)
  case (1 n)
  then show ?case
    by (cases "n < 10") (simp_all add: nat_str.simps [of n])
qed

lemma nat_str_0: "nat_str 0 = ''0''"
  by code_simp

lemma nat_str_inject [simp]: "nat_str m = nat_str n \<longleftrightarrow> m = n"
  using dec_value_nat_str by metis

lemma nat_str_no_sep:
  "\<not> is_ascii_digit c \<Longrightarrow> c \<notin> set (nat_str n)"
  using nat_str_digits [of n] by (auto simp: list_all_iff)

text \<open>A decimal without a leading zero is the only one with its value.\<close>

lemma nat_str_dec_value:
  assumes "list_all is_ascii_digit s" and "s \<noteq> []" and "length s = 1 \<or> hd s \<noteq> CHR ''0''"
  shows "nat_str (dec_value s) = s"
  using assms
proof (induction s rule: rev_induct)
  case (snoc c s)
  then have c: "is_ascii_digit c" and s: "list_all is_ascii_digit s"
    by simp_all
  show ?case
  proof (cases "s = []")
    case True
    with c show ?thesis
      by (simp add: nat_str.simps digit_val_less digit_char_inverse)
  next
    case False
    with snoc.prems have h: "hd s \<noteq> CHR ''0''" by simp
    with False snoc.IH s have IH: "nat_str (dec_value s) = s" by simp
    have "dec_value s \<noteq> 0"
    proof
      assume "dec_value s = 0"
      with IH have "s = nat_str 0" by simp
      then have "s = ''0''" by (simp add: nat_str_0)
      with h show False by simp
    qed
    moreover from c have "digit_val c < 10" by (rule digit_val_less)
    ultimately have "\<not> dec_value s * 10 + digit_val c < 10"
      and "(dec_value s * 10 + digit_val c) div 10 = dec_value s"
      and "(dec_value s * 10 + digit_val c) mod 10 = digit_val c"
      by simp_all
    with IH c show ?thesis
      by (simp add: nat_str.simps [of "dec_value s * 10 + digit_val c"] digit_char_inverse)
  qed
qed simp

lemma dec_value_append:
  "dec_value (s @ t) = dec_value s * 10 ^ length t + dec_value t"
  by (induction t rule: rev_induct) (simp_all flip: append_assoc add: algebra_simps)

lemma dec_value_bound: "list_all is_ascii_digit s \<Longrightarrow> dec_value s < 10 ^ length s"
proof (induction s rule: rev_induct)
  case (snoc c s)
  then have "dec_value s < 10 ^ length s" and "digit_val c < 10"
    by (simp_all add: digit_val_less)
  then show ?case by simp
qed simp

lemma hd_nat_str: "0 < n \<Longrightarrow> hd (nat_str n) \<noteq> CHR ''0''"
proof (induction n rule: nat_str.induct)
  case (1 n)
  show ?case
  proof (cases "n < 10")
    case True
    then have "nat_str n = [digit_char n]" by (simp add: nat_str.simps [of n])
    moreover have "digit_char n \<noteq> CHR ''0''"
    proof
      assume "digit_char n = CHR ''0''"
      then have "digit_val (digit_char n) = 0" by (simp add: digit_val_def)
      with True "1.prems" show False by simp
    qed
    ultimately show ?thesis by simp
  next
    case False
    with "1.IH" show ?thesis by (simp add: nat_str.simps [of n])
  qed
qed

lemma length_nat_str_1: "n < 10 \<Longrightarrow> length (nat_str n) = 1"
  by (simp add: nat_str.simps [of n])

lemma length_nat_str_le: "n < 10 ^ k \<Longrightarrow> 0 < k \<Longrightarrow> length (nat_str n) \<le> k"
proof (induction n arbitrary: k rule: nat_str.induct)
  case (1 n)
  show ?case
  proof (cases "n < 10")
    case True
    with "1.prems" show ?thesis by (simp add: length_nat_str_1)
  next
    case False
    with "1.prems" obtain j where k: "k = Suc j" and "0 < j"
      by (cases k; cases "k - 1") auto
    with "1.prems" have "n div 10 < 10 ^ j" by (simp add: less_mult_imp_div_less)
    with "1.IH" False \<open>0 < j\<close> have "length (nat_str (n div 10)) \<le> j" by simp
    with False show ?thesis by (simp add: nat_str.simps [of n] k)
  qed
qed

end
