(* ===== verification/Ordered_Map.thy ===== *)
theory Ordered_Map
  imports Prelude
begin

text \<open>
  \<open>std::collections::BTreeMap\<close> as the policy crate uses it: the entries in strictly ascending
  key order, which is the order \<open>values()\<close> iterates in.  The locale \<open>ordered_map\<close> is what the
  policy relies on; its lemmas on \<open>injective_on\<close> (no two entries agree on a projection) carry the
  uniqueness of public keys and addresses.
\<close>

section \<open>Definitions\<close>

type_synonym ('k, 'v) btree_map = "('k \<times> 'v) list"

definition bt_empty :: "('k, 'v) btree_map" where
  "bt_empty = []"

fun bt_get :: "('k, 'v) btree_map \<Rightarrow> 'k \<Rightarrow> 'v option" where
  "bt_get [] k = None"
| "bt_get ((a, v) # m) k = (if a = k then Some v else bt_get m k)"

fun bt_insert :: "'k::linorder \<Rightarrow> 'v \<Rightarrow> ('k, 'v) btree_map \<Rightarrow> ('k, 'v) btree_map" where
  "bt_insert k v [] = [(k, v)]"
| "bt_insert k v ((a, w) # m) =
     (if k < a then (k, v) # (a, w) # m
      else if a = k then (k, v) # m
      else (a, w) # bt_insert k v m)"

fun bt_remove :: "'k::linorder \<Rightarrow> ('k, 'v) btree_map \<Rightarrow> ('k, 'v) btree_map" where
  "bt_remove k [] = []"
| "bt_remove k ((a, w) # m) = (if a = k then m else (a, w) # bt_remove k m)"

definition bt_contains_key :: "('k, 'v) btree_map \<Rightarrow> 'k \<Rightarrow> bool" where
  "bt_contains_key m k \<longleftrightarrow> bt_get m k \<noteq> None"

definition bt_values :: "('k, 'v) btree_map \<Rightarrow> 'v list" where
  "bt_values m = map snd m"

definition bt_invar :: "('k::linorder, 'v) btree_map \<Rightarrow> bool" where
  "bt_invar m \<longleftrightarrow> sorted_wrt (<) (map fst m)"

section \<open>The interface\<close>

locale ordered_map =
  fixes empty :: "'m"
    and get :: "'m \<Rightarrow> 'k::linorder \<Rightarrow> 'v option"
    and ins :: "'k \<Rightarrow> 'v \<Rightarrow> 'm \<Rightarrow> 'm"
    and del :: "'k \<Rightarrow> 'm \<Rightarrow> 'm"
    and entries :: "'m \<Rightarrow> ('k \<times> 'v) list"
    and invar :: "'m \<Rightarrow> bool"
  assumes get_empty: "get empty k = None"
    and get_ins: "invar m \<Longrightarrow> get (ins k v m) = (get m)(k \<mapsto> v)"
    and get_del: "invar m \<Longrightarrow> get (del k m) = (get m)(k := None)"
    and entries_get: "invar m \<Longrightarrow> (k, v) \<in> set (entries m) \<longleftrightarrow> get m k = Some v"
    and entries_sorted: "invar m \<Longrightarrow> sorted_wrt (<) (map fst (entries m))"
    and invar_empty: "invar empty"
    and invar_ins: "invar m \<Longrightarrow> invar (ins k v m)"
    and invar_del: "invar m \<Longrightarrow> invar (del k m)"
begin

definition injective_on :: "('v \<Rightarrow> 'a) \<Rightarrow> 'm \<Rightarrow> bool" where
  "injective_on f m \<longleftrightarrow>
     (\<forall>k k' v v'. get m k = Some v \<longrightarrow> get m k' = Some v' \<longrightarrow> f v = f v' \<longrightarrow> k = k')"

lemma entries_distinct: "invar m \<Longrightarrow> distinct (map fst (entries m))"
  using entries_sorted strict_sorted_iff by blast

lemma values_iff: "invar m \<Longrightarrow> v \<in> set (map snd (entries m)) \<longleftrightarrow> (\<exists>k. get m k = Some v)"
  by (force simp flip: entries_get)

lemma injective_on_empty: "injective_on f empty"
  by (simp add: injective_on_def get_empty)

lemma injective_on_ins:
  assumes "invar m" and "injective_on f m"
    and "\<And>k' v'. get m k' = Some v' \<Longrightarrow> k' \<noteq> k \<Longrightarrow> f v' \<noteq> f v"
  shows "injective_on f (ins k v m)"
  using assms unfolding injective_on_def
  by (auto simp: get_ins split: if_splits) metis+

lemma injective_on_del:
  assumes "invar m" and "injective_on f m"
  shows "injective_on f (del k m)"
  using assms unfolding injective_on_def by (auto simp: get_del split: if_splits)

lemma injective_on_entries:
  assumes "invar m"
  shows "injective_on f m \<longleftrightarrow> distinct (map (f \<circ> snd) (entries m))"
proof -
  have "injective_on f m \<longleftrightarrow> inj_on (f \<circ> snd) (set (entries m))"
  proof
    assume "injective_on f m"
    then show "inj_on (f \<circ> snd) (set (entries m))"
      using assms by (fastforce simp: injective_on_def inj_on_def entries_get)
  next
    assume "inj_on (f \<circ> snd) (set (entries m))"
    then show "injective_on f m"
      unfolding injective_on_def using assms by (force simp: inj_on_def simp flip: entries_get)
  qed
  moreover have "distinct (entries m)"
    using entries_distinct [OF assms] by (simp add: distinct_map)
  ultimately show ?thesis by (simp add: distinct_map)
qed

lemma invar_get_ext:
  assumes "invar m" and "invar m'" and "get m = get m'"
  shows "entries m = entries m'"
proof -
  have "set (entries m) = set (entries m')"
    using assms by (auto simp: entries_get)
  moreover have "inj_on fst (set (entries m))"
    using entries_distinct [OF assms(1)] by (simp add: distinct_map)
  ultimately show ?thesis
    using entries_sorted [OF assms(1)] entries_sorted [OF assms(2)]
      entries_distinct [OF assms(1)] entries_distinct [OF assms(2)]
    by (intro map_sorted_distinct_set_unique [where f = fst])
      (simp_all add: strict_sorted_iff)
qed

end

section \<open>The sorted association list is an ordered map\<close>

lemma bt_get_None: "(\<forall>x\<in>fst ` set m. (k::'k::linorder) < x) \<Longrightarrow> bt_get m k = None"
  by (induction m k rule: bt_get.induct) auto

lemma bt_get_mem: "bt_invar m \<Longrightarrow> (k, v) \<in> set m \<longleftrightarrow> bt_get m k = Some v"
proof (induction m k rule: bt_get.induct)
  case (2 a w m k)
  then have "bt_invar m" and "\<forall>x\<in>fst ` set m. a < x"
    by (simp_all add: bt_invar_def)
  with "2.IH" bt_get_None [of m k] show ?case by force
qed simp

lemma bt_get_insert: "bt_get (bt_insert k v m) = (bt_get m)(k \<mapsto> v)"
proof
  fix x show "bt_get (bt_insert k v m) x = ((bt_get m)(k \<mapsto> v)) x"
    by (induction k v m rule: bt_insert.induct) auto
qed

lemma bt_get_remove: "bt_invar m \<Longrightarrow> bt_get (bt_remove k m) = (bt_get m)(k := None)"
proof
  fix x show "bt_invar m \<Longrightarrow> bt_get (bt_remove k m) x = ((bt_get m)(k := None)) x"
    by (induction k m rule: bt_remove.induct) (auto simp: bt_invar_def intro: bt_get_None)
qed

lemma fst_bt_insert: "fst ` set (bt_insert k v m) = insert k (fst ` set m)"
  by (induction k v m rule: bt_insert.induct) auto

lemma fst_bt_remove: "set (bt_remove k m) \<subseteq> set m"
  by (induction k m rule: bt_remove.induct) auto

lemma bt_invar_insert: "bt_invar m \<Longrightarrow> bt_invar (bt_insert k v m)"
proof (induction k v m rule: bt_insert.induct)
  case (2 k v a w m)
  then show ?case
    using fst_bt_insert [of k v m] by (auto simp: bt_invar_def)
qed (simp add: bt_invar_def)

lemma bt_invar_remove: "bt_invar m \<Longrightarrow> bt_invar (bt_remove k m)"
proof (induction k m rule: bt_remove.induct)
  case (2 k a w m)
  then show ?case
    using fst_bt_remove [of k m] by (auto simp: bt_invar_def)
qed (simp add: bt_invar_def)

interpretation bt: ordered_map bt_empty bt_get bt_insert bt_remove "\<lambda>m. m" bt_invar
  by unfold_locales
    (auto simp: bt_empty_def bt_get_insert bt_get_remove bt_get_mem
      bt_invar_insert bt_invar_remove, simp_all add: bt_invar_def)

lemma bt_values_iff: "bt_invar m \<Longrightarrow> v \<in> set (bt_values m) \<longleftrightarrow> (\<exists>k. bt_get m k = Some v)"
  using bt.values_iff by (simp add: bt_values_def)

lemma length_bt_insert_fresh: "bt_get m k = None \<Longrightarrow> length (bt_insert k v m) = Suc (length m)"
  by (induction k v m rule: bt_insert.induct) (auto split: if_splits)

lemma bt_insert_changes: "bt_get m k \<noteq> Some v \<Longrightarrow> bt_insert k v m \<noteq> m"
  using bt_get_insert [of k v m] by (metis fun_upd_same)

end
