(* ===== verification/Vpn.thy ===== *)
theory Vpn
  imports Ordered_Map
begin

text \<open>
  The policy domain, \<open>policy/src/vpn.rs\<close> and \<open>policy/src/error.rs\<close>: opaque identifiers,
  WireGuard public keys, overlay addresses and their text form, generations, peers and the
  operations of \<open>VpnPolicy\<close>.

  Base64 decoding belongs to the \<open>base64\<close> crate and is the parameter \<open>b64_decode\<close> of
  \<open>WireGuardPublicKey_new\<close>.  \<open>Generation::next\<close> panics when the 64-bit counter is exhausted, so the
  mutating operations return a \<open>fault\<close>, an error value or a panic, beside the state the call
  leaves behind.
\<close>

section \<open>Errors\<close>

datatype policy_error =
    InvalidIdentifier
  | InvalidPublicKey
  | InvalidAddress
  | InvalidGeneration
  | InvalidGeneratedAt
  | TooManyPeers
  | DuplicatePeerIdentity
  | PeerAlreadyExists
  | PeerNotFound
  | AddressPoolExhausted
  | Serialization

section \<open>Identifiers\<close>

datatype user_id = UserId (user_str: string)

datatype peer_id = PeerId (peer_str: string)

instantiation peer_id :: linorder
begin

definition less_eq_peer_id :: "peer_id \<Rightarrow> peer_id \<Rightarrow> bool" where
  "less_eq_peer_id a b \<longleftrightarrow> peer_str a \<le> peer_str b"

definition less_peer_id :: "peer_id \<Rightarrow> peer_id \<Rightarrow> bool" where
  "less_peer_id a b \<longleftrightarrow> peer_str a < peer_str b"

instance
  by standard (auto simp: less_eq_peer_id_def less_peer_id_def intro: peer_id.expand)

end

definition id_char :: "char \<Rightarrow> bool" where
  "id_char c \<longleftrightarrow> is_ascii_alphanumeric c \<or> c \<in> set ''_.:-''"

fun valid_opaque_id :: "string \<Rightarrow> bool" where
  "valid_opaque_id [] = False"
| "valid_opaque_id (first # characters) =
     (length (first # characters) \<le> 128 \<and> is_ascii_alphanumeric first \<and> list_all id_char characters)"

definition UserId_new :: "string \<Rightarrow> policy_error + user_id" where
  "UserId_new value = (if valid_opaque_id value then Inr (UserId value) else Inl InvalidIdentifier)"

definition PeerId_new :: "string \<Rightarrow> policy_error + peer_id" where
  "PeerId_new value = (if valid_opaque_id value then Inr (PeerId value) else Inl InvalidIdentifier)"

section \<open>Public keys\<close>

datatype wg_public_key = WireGuardPublicKey (key_str: string)

definition WireGuardPublicKey_new ::
    "(string \<Rightarrow> bytes option) \<Rightarrow> string \<Rightarrow> policy_error + wg_public_key" where
  "WireGuardPublicKey_new b64_decode value =
     (case b64_decode value of
        None \<Rightarrow> Inl InvalidPublicKey
      | Some decoded \<Rightarrow>
          if length value = 44 \<and> ends_with (CHR ''='') value \<and> length decoded = 32
          then Inr (WireGuardPublicKey value)
          else Inl InvalidPublicKey)"

section \<open>Overlay addresses\<close>

type_synonym ipv4 = "u8 \<times> u8 \<times> u8 \<times> u8"

datatype overlay_address = OverlayAddress (ipv4_of: ipv4)

definition usable_host :: "u8 \<Rightarrow> bool" where
  "usable_host host \<longleftrightarrow> 2 \<le> host \<and> host \<le> 254"

definition OverlayAddress_new :: "u8 \<Rightarrow> policy_error + overlay_address" where
  "OverlayAddress_new host =
     (if usable_host host then Inr (OverlayAddress (10, 100, 0, host)) else Inl InvalidAddress)"

fun addr_host :: "overlay_address \<Rightarrow> u8" where
  "addr_host (OverlayAddress (a, b, c, d)) = d"

text \<open>\<open>Display for Ipv4Addr\<close>, and \<open>FromStr\<close>: four octets of at most three digits, without leading
  zeros, separated by dots.\<close>

fun ipv4_str :: "ipv4 \<Rightarrow> string" where
  "ipv4_str (a, b, c, d) =
     nat_str (unat a) @ ''.'' @ nat_str (unat b) @ ''.'' @ nat_str (unat c) @ ''.'' @ nat_str (unat d)"

definition parse_octet :: "string \<Rightarrow> u8 option" where
  "parse_octet s =
     (if s \<noteq> [] \<and> length s \<le> 3 \<and> list_all is_ascii_digit s
         \<and> (length s = 1 \<or> hd s \<noteq> CHR ''0'') \<and> dec_value s \<le> 255
      then Some (of_nat (dec_value s)) else None)"

definition parse_ipv4 :: "string \<Rightarrow> ipv4 option" where
  "parse_ipv4 s =
     (case map parse_octet (split_on (CHR ''.'') s) of
        [Some a, Some b, Some c, Some d] \<Rightarrow> Some (a, b, c, d)
      | _ \<Rightarrow> None)"

definition overlay_address_str :: "overlay_address \<Rightarrow> string" where
  "overlay_address_str a = ipv4_str (ipv4_of a) @ ''/32''"

definition overlay_address_from_str :: "string \<Rightarrow> policy_error + overlay_address" where
  "overlay_address_from_str value =
     and_then (ok_or InvalidAddress (strip_suffix ''/32'' value)) (\<lambda>prefix.
     and_then (ok_or InvalidAddress (parse_ipv4 prefix)) (\<lambda>(a, b, c, d).
       if (a, b, c) = (10, 100, 0) \<and> usable_host d
       then Inr (OverlayAddress (a, b, c, d))
       else Inl InvalidAddress))"

section \<open>Health policy, permissions, generations\<close>

datatype health_policy = Required | OnDemand

datatype permission = Egress | Games

datatype generation = Generation (generation_get: u64)

instantiation generation :: linorder
begin

definition less_eq_generation :: "generation \<Rightarrow> generation \<Rightarrow> bool" where
  "less_eq_generation a b \<longleftrightarrow> generation_get a \<le> generation_get b"

definition less_generation :: "generation \<Rightarrow> generation \<Rightarrow> bool" where
  "less_generation a b \<longleftrightarrow> generation_get a < generation_get b"

instance
  by standard (auto simp: less_eq_generation_def less_generation_def intro: generation.expand)

end

definition Generation_new :: "u64 \<Rightarrow> policy_error + generation" where
  "Generation_new value = (if value = 0 then Inl InvalidGeneration else Inr (Generation value))"

text \<open>\<open>checked_add(1).expect(..)\<close>: \<^const>\<open>None\<close> is the panic.\<close>

definition generation_next :: "generation \<Rightarrow> generation option" where
  "generation_next g =
     (if unat (generation_get g) + 1 < 2 ^ 64 then Some (Generation (generation_get g + 1)) else None)"

section \<open>Peers and the policy\<close>

record vpn_peer =
  vp_user_id :: user_id
  vp_peer_id :: peer_id
  vp_public_key :: wg_public_key
  vp_address :: overlay_address
  vp_health_policy :: health_policy
  vp_games :: bool

definition permissions :: "vpn_peer \<Rightarrow> permission list" where
  "permissions peer = [Egress] @ (if vp_games peer then [Games] else [])"

record vpn_policy =
  pol_generation :: generation
  pol_peers :: "(peer_id, vpn_peer) btree_map"

definition policy_default :: vpn_policy where
  "policy_default = \<lparr>pol_generation = Generation 1, pol_peers = bt_empty\<rparr>"

definition policy_peers :: "vpn_policy \<Rightarrow> vpn_peer list" where
  "policy_peers p = bt_values (pol_peers p)"

definition host_range :: "u8 list" where
  "host_range = map of_nat [2..<255]"

definition allocate_address :: "vpn_policy \<Rightarrow> policy_error + overlay_address" where
  "allocate_address p =
     (let used = set (map (addr_host \<circ> vp_address) (policy_peers p))
      in and_then
           (transpose_res (map_option OverlayAddress_new (List.find (\<lambda>host. host \<notin> used) host_range)))
           (ok_or AddressPoolExhausted))"

text \<open>The last statement of every mutation: \<open>self.generation = self.generation.next()\<close>.\<close>

definition bump_generation :: "'a \<Rightarrow> vpn_policy \<Rightarrow> (policy_error fault + 'a) \<times> vpn_policy" where
  "bump_generation result p =
     (case generation_next (pol_generation p) of
        None \<Rightarrow> (Inl Panic, p)
      | Some g \<Rightarrow> (Inr result, p\<lparr>pol_generation := g\<rparr>))"

definition enroll ::
    "user_id \<Rightarrow> peer_id \<Rightarrow> wg_public_key \<Rightarrow> bool \<Rightarrow> vpn_policy \<Rightarrow> (policy_error fault + vpn_peer) \<times> vpn_policy" where
  "enroll user_id peer_id public_key games p =
     (if bt_contains_key (pol_peers p) peer_id
         \<or> list_ex (\<lambda>peer. vp_public_key peer = public_key) (policy_peers p)
      then (Inl (Err PeerAlreadyExists), p)
      else (case allocate_address p of
              Inl e \<Rightarrow> (Inl (Err e), p)
            | Inr address \<Rightarrow>
                let peer = \<lparr>vp_user_id = user_id, vp_peer_id = peer_id, vp_public_key = public_key,
                            vp_address = address, vp_health_policy = OnDemand, vp_games = games\<rparr>
                in bump_generation peer
                     (p\<lparr>pol_peers := bt_insert peer_id peer (pol_peers p)\<rparr>)))"

definition set_games :: "peer_id \<Rightarrow> bool \<Rightarrow> vpn_policy \<Rightarrow> (policy_error fault + bool) \<times> vpn_policy" where
  "set_games peer_id enabled p =
     (case bt_get (pol_peers p) peer_id of
        None \<Rightarrow> (Inl (Err PeerNotFound), p)
      | Some peer \<Rightarrow>
          if vp_games peer = enabled then (Inr False, p)
          else bump_generation True
                 (p\<lparr>pol_peers := bt_insert peer_id (peer\<lparr>vp_games := enabled\<rparr>) (pol_peers p)\<rparr>))"

definition rotate_key ::
    "peer_id \<Rightarrow> wg_public_key \<Rightarrow> vpn_policy \<Rightarrow> (policy_error fault + bool) \<times> vpn_policy" where
  "rotate_key peer_id public_key p =
     (if list_ex (\<lambda>(existing_id, peer). existing_id \<noteq> peer_id \<and> vp_public_key peer = public_key)
           (pol_peers p)
      then (Inl (Err DuplicatePeerIdentity), p)
      else (case bt_get (pol_peers p) peer_id of
              None \<Rightarrow> (Inl (Err PeerNotFound), p)
            | Some peer \<Rightarrow>
                if vp_public_key peer = public_key then (Inr False, p)
                else bump_generation True
                       (p\<lparr>pol_peers :=
                          bt_insert peer_id (peer\<lparr>vp_public_key := public_key\<rparr>) (pol_peers p)\<rparr>)))"

definition revoke :: "peer_id \<Rightarrow> vpn_policy \<Rightarrow> (policy_error fault + vpn_peer) \<times> vpn_policy" where
  "revoke peer_id p =
     (case bt_get (pol_peers p) peer_id of
        None \<Rightarrow> (Inl (Err PeerNotFound), p)
      | Some peer \<Rightarrow> bump_generation peer (p\<lparr>pol_peers := bt_remove peer_id (pol_peers p)\<rparr>))"

section \<open>The invariant and the runs of a policy\<close>

text \<open>
  The invariant of every policy a program can hold: entries filed under their own identifier,
  every address a usable host of 10.100.0.0/24, public keys and addresses unique, a positive
  generation.
\<close>

fun overlay_ok :: "overlay_address \<Rightarrow> bool" where
  "overlay_ok (OverlayAddress (a, b, c, d)) \<longleftrightarrow> (a, b, c) = (10, 100, 0) \<and> usable_host d"

definition policy_inv :: "vpn_policy \<Rightarrow> bool" where
  "policy_inv p \<longleftrightarrow>
     bt_invar (pol_peers p)
     \<and> list_all (\<lambda>(k, peer). vp_peer_id peer = k \<and> overlay_ok (vp_address peer)) (pol_peers p)
     \<and> distinct (map vp_public_key (policy_peers p))
     \<and> distinct (map vp_address (policy_peers p))
     \<and> generation_get (pol_generation p) \<noteq> 0"

text \<open>
  One completed call on a policy, whatever it returns.  A call that panics is no step: the
  thread that owns the policy unwinds.
\<close>

inductive policy_step :: "vpn_policy \<Rightarrow> vpn_policy \<Rightarrow> bool" where
  step_enroll: "enroll u i k g p = (r, p') \<Longrightarrow> r \<noteq> Inl Panic \<Longrightarrow> policy_step p p'"
| step_set_games: "set_games i b p = (r', p') \<Longrightarrow> r' \<noteq> Inl Panic \<Longrightarrow> policy_step p p'"
| step_rotate_key: "rotate_key i k p = (r', p') \<Longrightarrow> r' \<noteq> Inl Panic \<Longrightarrow> policy_step p p'"
| step_revoke: "revoke i p = (r, p') \<Longrightarrow> r \<noteq> Inl Panic \<Longrightarrow> policy_step p p'"

definition reachable_policy :: "vpn_policy \<Rightarrow> bool" where
  "reachable_policy p \<longleftrightarrow> policy_step\<^sup>*\<^sup>* policy_default p"

section \<open>Hosts and allocation\<close>

lemma set_host_range_image: "set host_range = of_nat ` {2..<255}"
  by (simp only: host_range_def set_map set_upt)

lemma set_host_range: "set host_range = {h. usable_host h}"
proof (intro set_eqI iffI)
  fix h :: u8 assume "h \<in> {h. usable_host h}"
  then have "unat h \<in> {2..<255}"
    by (simp add: usable_host_def word_le_nat_alt)
  then have "of_nat (unat h) \<in> set host_range"
    unfolding set_host_range_image by blast
  then show "h \<in> set host_range" by simp
next
  fix h :: u8 assume "h \<in> set host_range"
  then obtain n where "h = of_nat n" "n \<in> {2..<255}"
    unfolding set_host_range_image by blast
  then show "h \<in> {h. usable_host h}"
    by (simp add: usable_host_def word_le_nat_alt unat_of_nat)
qed

lemma sorted_wrt_less_of_nat:
  "n \<le> 256 \<Longrightarrow> sorted_wrt (<) (map (of_nat :: nat \<Rightarrow> u8) [m..<n])"
  by (auto simp: sorted_wrt_map sorted_wrt_iff_nth_less word_less_nat_alt unat_of_nat
      simp flip: of_nat_add)

lemma sorted_host_range: "sorted_wrt (<) host_range"
  unfolding host_range_def by (rule sorted_wrt_less_of_nat) simp

lemma distinct_host_range: "distinct host_range"
  using sorted_host_range strict_sorted_iff by blast

lemma length_host_range: "length host_range = 253"
  by (simp add: host_range_def del: upt_rec_numeral)

lemma find_first_sorted:
  assumes "sorted_wrt (<) xs" and "List.find P xs = Some x"
  shows "x \<in> set xs \<and> P x \<and> (\<forall>y\<in>set xs. y < x \<longrightarrow> \<not> P (y :: 'a :: linorder))"
  using assms by (induction xs) (auto split: if_splits dest: less_asym)

lemma OverlayAddress_new_usable:
  "usable_host h \<Longrightarrow> OverlayAddress_new h = Inr (OverlayAddress (10, 100, 0, h))"
  by (simp add: OverlayAddress_new_def)

text \<open>The allocator gives the least usable host no peer has, and fails only when there is none.\<close>

lemma allocate_address_cases:
  obtains h where "usable_host h" and "h \<notin> (addr_host \<circ> vp_address) ` set (policy_peers p)"
      and "\<And>h'. usable_host h' \<Longrightarrow> h' < h \<Longrightarrow> h' \<in> (addr_host \<circ> vp_address) ` set (policy_peers p)"
      and "allocate_address p = Inr (OverlayAddress (10, 100, 0, h))"
    | "\<And>h. usable_host h \<Longrightarrow> h \<in> (addr_host \<circ> vp_address) ` set (policy_peers p)"
      and "allocate_address p = Inl AddressPoolExhausted"
proof (cases "List.find (\<lambda>h. h \<notin> set (map (addr_host \<circ> vp_address) (policy_peers p))) host_range")
  case None
  have "h \<in> (addr_host \<circ> vp_address) ` set (policy_peers p)" if "usable_host h" for h
    using None that by (simp add: find_None_iff set_host_range)
  moreover from None have "allocate_address p = Inl AddressPoolExhausted"
    by (simp add: allocate_address_def)
  ultimately show ?thesis using that(2) by blast
next
  case (Some h)
  from find_first_sorted [OF sorted_host_range Some]
  have h: "usable_host h" "h \<notin> (addr_host \<circ> vp_address) ` set (policy_peers p)"
    and least: "\<And>h'. usable_host h' \<Longrightarrow> h' < h \<Longrightarrow>
      h' \<in> (addr_host \<circ> vp_address) ` set (policy_peers p)"
    by (auto simp: set_host_range)
  moreover from Some h(1) have "allocate_address p = Inr (OverlayAddress (10, 100, 0, h))"
    by (simp add: allocate_address_def OverlayAddress_new_usable)
  ultimately show ?thesis using that(1) by blast
qed

section \<open>Preservation of the invariant\<close>

lemma policy_peers_iff:
  "policy_inv p \<Longrightarrow> peer \<in> set (policy_peers p) \<longleftrightarrow> (\<exists>k. bt_get (pol_peers p) k = Some peer)"
  by (simp add: policy_peers_def policy_inv_def bt_values_iff)

lemma policy_inv_get:
  assumes "policy_inv p" and "bt_get (pol_peers p) k = Some peer"
  shows "vp_peer_id peer = k" and "overlay_ok (vp_address peer)"
  using assms bt_get_mem [of "pol_peers p" k peer] by (auto simp: policy_inv_def list_all_iff)

text \<open>The invariant in terms of the map interface.\<close>

lemma policy_inv_iff:
  "policy_inv p \<longleftrightarrow>
     bt_invar (pol_peers p)
     \<and> (\<forall>k peer. bt_get (pol_peers p) k = Some peer \<longrightarrow>
          vp_peer_id peer = k \<and> overlay_ok (vp_address peer))
     \<and> bt.injective_on vp_public_key (pol_peers p)
     \<and> bt.injective_on vp_address (pol_peers p)
     \<and> generation_get (pol_generation p) \<noteq> 0"
proof (cases "bt_invar (pol_peers p)")
  case True
  have "list_all (\<lambda>(k, peer). vp_peer_id peer = k \<and> overlay_ok (vp_address peer)) (pol_peers p)
      \<longleftrightarrow> (\<forall>k peer. bt_get (pol_peers p) k = Some peer \<longrightarrow>
          vp_peer_id peer = k \<and> overlay_ok (vp_address peer))"
    unfolding list_all_iff using bt_get_mem [OF True] by fast
  with True show ?thesis
    using bt.injective_on_entries [OF True, of vp_public_key]
      bt.injective_on_entries [OF True, of vp_address]
    by (simp add: policy_inv_def policy_peers_def bt_values_def)
next
  case False
  then show ?thesis by (simp add: policy_inv_def)
qed

lemma generation_next_Some:
  assumes "generation_next g = Some g'"
  shows "generation_get g' = generation_get g + 1" and "g < g'" and "generation_get g' \<noteq> 0"
proof -
  from assms have nat: "unat (generation_get g) + 1 < 2 ^ 64"
    and g': "generation_get g' = generation_get g + 1"
    by (auto simp: generation_next_def split: if_splits)
  from nat have u: "unat (generation_get g + 1) = unat (generation_get g) + 1"
    by (simp add: unat_word_ariths)
  show "generation_get g' = generation_get g + 1" by (fact g')
  show "g < g'" using u by (simp add: less_generation_def g' word_less_nat_alt)
  show "generation_get g' \<noteq> 0"
  proof
    assume "generation_get g' = 0"
    with g' u show False by simp
  qed
qed

lemma bump_generation_cases:
  assumes "bump_generation x p = (r, p')" and "r \<noteq> Inl Panic"
  shows "r = Inr x \<and> pol_peers p' = pol_peers p \<and> generation_next (pol_generation p) = Some (pol_generation p')"
  using assms by (auto simp: bump_generation_def split: option.splits)

text \<open>Writing an entry under its own identifier with an unused key and address keeps the invariant.\<close>

lemma policy_inv_write:
  assumes "policy_inv p" and "vp_peer_id peer = i" and "overlay_ok (vp_address peer)"
    and "\<And>k other. bt_get (pol_peers p) k = Some other \<Longrightarrow> k \<noteq> i \<Longrightarrow>
           vp_public_key other \<noteq> vp_public_key peer \<and> vp_address other \<noteq> vp_address peer"
    and "pol_peers p' = bt_insert i peer (pol_peers p)"
    and "generation_get (pol_generation p') \<noteq> 0"
  shows "policy_inv p'"
proof -
  from assms(1) have inv: "bt_invar (pol_peers p)" by (simp add: policy_inv_def)
  have "bt.injective_on vp_public_key (pol_peers p')" and "bt.injective_on vp_address (pol_peers p')"
    unfolding assms(5)
    by (rule bt.injective_on_ins [OF inv]; use assms(1,4) in \<open>simp add: policy_inv_iff\<close>)+
  moreover have "vp_peer_id v = k \<and> overlay_ok (vp_address v)"
    if "bt_get (pol_peers p') k = Some v" for k v
    using that assms(2,3) policy_inv_get [OF assms(1)]
    by (auto simp: assms(5) bt_get_insert split: if_splits)
  ultimately show ?thesis
    using assms(6) bt_invar_insert [OF inv] by (simp add: policy_inv_iff assms(5))
qed

lemma addr_host_overlay_ok:
  "overlay_ok a \<Longrightarrow> a = OverlayAddress (10, 100, 0, addr_host a) \<and> usable_host (addr_host a)"
  by (cases a rule: overlay_ok.cases) simp

text \<open>What each successful operation does to the entries, and that it keeps the invariant.\<close>

lemma enroll_step:
  assumes inv: "policy_inv p" and run: "enroll u i k g p = (r, p')" and ok: "r \<noteq> Inl Panic"
  shows "(p' = p \<and> (\<exists>e. r = Inl (Err e)))
    \<or> (\<exists>peer. r = Inr peer \<and> bt_get (pol_peers p) i = None
         \<and> k \<notin> vp_public_key ` set (policy_peers p)
         \<and> vp_address peer \<notin> vp_address ` set (policy_peers p)
         \<and> pol_peers p' = bt_insert i peer (pol_peers p)
         \<and> generation_next (pol_generation p) = Some (pol_generation p')
         \<and> policy_inv p')"
proof (cases "bt_contains_key (pol_peers p) i \<or> list_ex (\<lambda>peer. vp_public_key peer = k) (policy_peers p)")
  case True
  with run show ?thesis by (auto simp: enroll_def)
next
  case False
  then have fresh: "bt_get (pol_peers p) i = None" and key: "k \<notin> vp_public_key ` set (policy_peers p)"
    by (auto simp: bt_contains_key_def list_ex_iff)
  show ?thesis
  proof (cases rule: allocate_address_cases [of p])
    case 2
    with run False show ?thesis by (auto simp: enroll_def)
  next
    case (1 h)
    let ?peer = "\<lparr>vp_user_id = u, vp_peer_id = i, vp_public_key = k,
      vp_address = OverlayAddress (10, 100, 0, h), vp_health_policy = OnDemand, vp_games = g\<rparr>"
    let ?q = "p\<lparr>pol_peers := bt_insert i ?peer (pol_peers p)\<rparr>"
    from run False 1 have "bump_generation ?peer ?q = (r, p')"
      by (simp add: enroll_def Let_def)
    from bump_generation_cases [OF this ok]
    have r: "r = Inr ?peer" and peers: "pol_peers p' = bt_insert i ?peer (pol_peers p)"
      and gen: "generation_next (pol_generation p) = Some (pol_generation p')"
      by simp_all
    have addr: "vp_address ?peer \<notin> vp_address ` set (policy_peers p)"
      using 1(2) by (auto simp: image_iff) (metis addr_host.simps)
    have "policy_inv p'"
    proof (rule policy_inv_write [OF inv _ _ _ peers])
      show "generation_get (pol_generation p') \<noteq> 0"
        using generation_next_Some(3) [OF gen] .
      show "vp_public_key other \<noteq> vp_public_key ?peer \<and> vp_address other \<noteq> vp_address ?peer"
        if "bt_get (pol_peers p) j = Some other" for j other
      proof -
        from that policy_peers_iff [OF inv] have "other \<in> set (policy_peers p)" by blast
        with key addr show ?thesis by (auto simp: image_iff)
      qed
    qed (simp_all add: 1(1))
    with r peers gen fresh key addr show ?thesis by blast
  qed
qed

lemma set_games_step:
  assumes inv: "policy_inv p" and run: "set_games i b p = (r, p')" and ok: "r \<noteq> Inl Panic"
  shows "(p' = p \<and> r \<noteq> Inr True)
    \<or> (\<exists>peer. r = Inr True \<and> bt_get (pol_peers p) i = Some peer \<and> vp_games peer \<noteq> b
         \<and> pol_peers p' = bt_insert i (peer\<lparr>vp_games := b\<rparr>) (pol_peers p)
         \<and> generation_next (pol_generation p) = Some (pol_generation p')
         \<and> policy_inv p')"
proof (cases "\<exists>peer. bt_get (pol_peers p) i = Some peer \<and> vp_games peer \<noteq> b")
  case False
  with run show ?thesis by (auto simp: set_games_def split: option.splits)
next
  case True
  then obtain peer where peer: "bt_get (pol_peers p) i = Some peer" "vp_games peer \<noteq> b" by blast
  with run have "bump_generation True
      (p\<lparr>pol_peers := bt_insert i (peer\<lparr>vp_games := b\<rparr>) (pol_peers p)\<rparr>) = (r, p')"
    by (simp add: set_games_def)
  from bump_generation_cases [OF this ok]
  have r: "r = Inr True" and peers: "pol_peers p' = bt_insert i (peer\<lparr>vp_games := b\<rparr>) (pol_peers p)"
    and gen: "generation_next (pol_generation p) = Some (pol_generation p')"
    by simp_all
  have "policy_inv p'"
    by (rule policy_inv_write [OF inv _ _ _ peers])
      (use inv peer policy_inv_get [OF inv peer(1)] generation_next_Some(3) [OF gen] in
        \<open>auto simp: policy_inv_iff bt.injective_on_def\<close>)
  with r peer peers gen show ?thesis by blast
qed

lemma rotate_key_step:
  assumes inv: "policy_inv p" and run: "rotate_key i k p = (r, p')" and ok: "r \<noteq> Inl Panic"
  shows "(p' = p \<and> r \<noteq> Inr True)
    \<or> (\<exists>peer. r = Inr True \<and> bt_get (pol_peers p) i = Some peer \<and> vp_public_key peer \<noteq> k
         \<and> pol_peers p' = bt_insert i (peer\<lparr>vp_public_key := k\<rparr>) (pol_peers p)
         \<and> generation_next (pol_generation p) = Some (pol_generation p')
         \<and> policy_inv p')"
proof (cases "list_ex (\<lambda>(j, peer). j \<noteq> i \<and> vp_public_key peer = k) (pol_peers p)
    \<or> \<not> (\<exists>peer. bt_get (pol_peers p) i = Some peer \<and> vp_public_key peer \<noteq> k)")
  case True
  with run show ?thesis by (auto simp: rotate_key_def split: option.splits if_splits)
next
  case False
  then obtain peer where peer: "bt_get (pol_peers p) i = Some peer" "vp_public_key peer \<noteq> k"
    and unused: "\<not> list_ex (\<lambda>(j, peer). j \<noteq> i \<and> vp_public_key peer = k) (pol_peers p)"
    by blast
  with run have "bump_generation True
      (p\<lparr>pol_peers := bt_insert i (peer\<lparr>vp_public_key := k\<rparr>) (pol_peers p)\<rparr>) = (r, p')"
    by (simp add: rotate_key_def)
  from bump_generation_cases [OF this ok]
  have r: "r = Inr True"
    and peers: "pol_peers p' = bt_insert i (peer\<lparr>vp_public_key := k\<rparr>) (pol_peers p)"
    and gen: "generation_next (pol_generation p) = Some (pol_generation p')"
    by simp_all
  have other: "vp_public_key v \<noteq> k" if "bt_get (pol_peers p) j = Some v" "j \<noteq> i" for j v
    using unused that inv bt_get_mem [of "pol_peers p" j v] by (auto simp: list_ex_iff policy_inv_def)
  have "policy_inv p'"
    by (rule policy_inv_write [OF inv _ _ _ peers])
      (use inv other peer policy_inv_get [OF inv peer(1)] generation_next_Some(3) [OF gen] in
        \<open>auto simp: policy_inv_iff bt.injective_on_def\<close>)
  with r peer peers gen show ?thesis by blast
qed

lemma revoke_step:
  assumes inv: "policy_inv p" and run: "revoke i p = (r, p')" and ok: "r \<noteq> Inl Panic"
  shows "(p' = p \<and> r = Inl (Err PeerNotFound))
    \<or> (\<exists>peer. r = Inr peer \<and> bt_get (pol_peers p) i = Some peer
         \<and> pol_peers p' = bt_remove i (pol_peers p)
         \<and> generation_next (pol_generation p) = Some (pol_generation p')
         \<and> policy_inv p')"
proof (cases "bt_get (pol_peers p) i")
  case None
  with run show ?thesis by (auto simp: revoke_def)
next
  case (Some peer)
  with run have "bump_generation peer (p\<lparr>pol_peers := bt_remove i (pol_peers p)\<rparr>) = (r, p')"
    by (simp add: revoke_def)
  from bump_generation_cases [OF this ok]
  have r: "r = Inr peer" and peers: "pol_peers p' = bt_remove i (pol_peers p)"
    and gen: "generation_next (pol_generation p) = Some (pol_generation p')"
    by simp_all
  from inv have bt: "bt_invar (pol_peers p)" by (simp add: policy_inv_def)
  have "policy_inv p'"
    using inv bt_invar_remove [OF bt] bt.injective_on_del [OF bt, of vp_public_key]
      bt.injective_on_del [OF bt, of vp_address] generation_next_Some(3) [OF gen]
    by (auto simp: policy_inv_iff peers bt_get_remove [OF bt] split: if_splits)
  with r Some peers gen show ?thesis by blast
qed

lemma policy_inv_default: "policy_inv policy_default"
  by (simp add: policy_inv_def policy_default_def policy_peers_def bt_values_def bt_empty_def
      bt_invar_def)

text \<open>A step changes nothing, or it changes the entries and takes the next generation.\<close>

lemma policy_step_cases:
  assumes "policy_step p p'" and "policy_inv p"
  shows "policy_inv p' \<and>
    (p' = p \<or> pol_peers p' \<noteq> pol_peers p
        \<and> generation_next (pol_generation p) = Some (pol_generation p'))"
  using assms(1)
proof cases
  case (step_enroll u i k g r)
  from enroll_step [OF assms(2) this] assms(2) show ?thesis
    by (metis bt_insert_changes option.distinct(1))
next
  case (step_set_games i b r')
  have "peer\<lparr>vp_games := b\<rparr> \<noteq> peer" if "vp_games peer \<noteq> b" for peer :: vpn_peer
    using that by (metis vpn_peer.select_convs(6) vpn_peer.surjective vpn_peer.update_convs(6))
  with set_games_step [OF assms(2) step_set_games] assms(2) show ?thesis
    by (metis bt_insert_changes option.inject)
next
  case (step_rotate_key i k r')
  have "peer\<lparr>vp_public_key := k\<rparr> \<noteq> peer" if "vp_public_key peer \<noteq> k" for peer :: vpn_peer
    using that by (metis vpn_peer.select_convs(3) vpn_peer.surjective vpn_peer.update_convs(3))
  with rotate_key_step [OF assms(2) step_rotate_key] assms(2) show ?thesis
    by (metis bt_insert_changes option.inject)
next
  case (step_revoke i r)
  from revoke_step [OF assms(2) this] assms(2) show ?thesis
    by (metis bt_get_remove fun_upd_same option.distinct(1) policy_inv_def)
qed

lemma policy_steps_inv: "policy_step\<^sup>*\<^sup>* p p' \<Longrightarrow> policy_inv p \<Longrightarrow> policy_inv p'"
  by (induction rule: rtranclp_induct) (auto dest: policy_step_cases)

text \<open>Along a run the generation never falls, and it stands still only while nothing changes.\<close>

lemma policy_steps_generation:
  assumes "policy_step\<^sup>*\<^sup>* p p'" and "policy_inv p"
  shows "p' = p \<or> pol_generation p < pol_generation p'"
  using assms
proof (induction rule: rtranclp_induct)
  case (step y z)
  then have "policy_inv y" by (auto intro: policy_steps_inv)
  with step policy_step_cases have "z = y \<or> pol_generation y < pol_generation z"
    by (metis generation_next_Some(2))
  with step show ?case by auto
qed simp

text \<open>A step keeps the address and the owner of every peer it does not remove.\<close>

lemma policy_step_stable:
  assumes step: "policy_step p p'" and inv: "policy_inv p"
    and old: "bt_get (pol_peers p) i = Some v" and new: "bt_get (pol_peers p') i = Some v'"
  shows "vp_address v' = vp_address v \<and> vp_user_id v' = vp_user_id v"
  using step
proof cases
  case (step_enroll u j k g r)
  from enroll_step [OF inv this] old new show ?thesis
    by (auto simp: bt_get_insert split: if_splits)
next
  case (step_set_games j b r')
  from set_games_step [OF inv this] old new show ?thesis
    by (auto simp: bt_get_insert split: if_splits)
next
  case (step_rotate_key j k r')
  from rotate_key_step [OF inv this] old new show ?thesis
    by (auto simp: bt_get_insert split: if_splits)
next
  case (step_revoke j r)
  from inv have "bt_invar (pol_peers p)" by (simp add: policy_inv_def)
  with revoke_step [OF inv step_revoke] old new show ?thesis
    by (auto simp: bt_get_remove split: if_splits)
qed

section \<open>Pool size\<close>

text \<open>The pool is exhausted exactly when 253 peers are enrolled.\<close>

lemma hosts_of_peers:
  assumes "policy_inv p"
  shows "card ((addr_host \<circ> vp_address) ` set (policy_peers p)) = length (policy_peers p)"
    and "(addr_host \<circ> vp_address) ` set (policy_peers p) \<subseteq> set host_range"
proof -
  have ok: "overlay_ok (vp_address v)" if "v \<in> set (policy_peers p)" for v
    using that assms policy_peers_iff policy_inv_get(2) by blast
  then show "(addr_host \<circ> vp_address) ` set (policy_peers p) \<subseteq> set host_range"
    by (auto simp: set_host_range dest: addr_host_overlay_ok)
  have "inj_on addr_host (vp_address ` set (policy_peers p))"
    using ok addr_host_overlay_ok by (intro inj_onI) (metis imageE)
  then have "card (addr_host ` vp_address ` set (policy_peers p)) = card (vp_address ` set (policy_peers p))"
    by (rule card_image)
  also have "\<dots> = length (policy_peers p)"
    using assms distinct_card [of "map vp_address (policy_peers p)"] by (simp add: policy_inv_def)
  finally show "card ((addr_host \<circ> vp_address) ` set (policy_peers p)) = length (policy_peers p)"
    by (simp add: image_comp)
qed

lemma pool_exhausted_iff:
  assumes "policy_inv p"
  shows "allocate_address p = Inl AddressPoolExhausted \<longleftrightarrow> length (policy_peers p) = 253"
proof -
  let ?H = "(addr_host \<circ> vp_address) ` set (policy_peers p)"
  have card: "card (set host_range) = 253"
    using distinct_card [OF distinct_host_range] by (simp add: length_host_range)
  have "allocate_address p = Inl AddressPoolExhausted \<longleftrightarrow> set host_range \<subseteq> ?H"
    by (cases rule: allocate_address_cases [of p]) (auto simp: set_host_range)
  also have "\<dots> \<longleftrightarrow> ?H = set host_range"
    using hosts_of_peers(2) [OF assms] by blast
  also have "\<dots> \<longleftrightarrow> card ?H = 253"
    using hosts_of_peers(2) [OF assms] card by (metis card_subset_eq List.finite_set)
  finally show ?thesis by (simp only: hosts_of_peers(1) [OF assms])
qed

lemma policy_peers_le:
  assumes "policy_inv p"
  shows "length (policy_peers p) \<le> 253"
  using card_mono [OF _ hosts_of_peers(2) [OF assms]] distinct_card [OF distinct_host_range]
  by (simp only: hosts_of_peers(1) [OF assms] length_host_range List.finite_set)

section \<open>The text form of addresses\<close>

lemma unat_u8_less: "unat (w :: u8) < 256"
proof -
  have "unat w < 2 ^ LENGTH(8)" by (rule unsigned_less)
  then show ?thesis by simp
qed

lemma parse_octet_nat_str: "parse_octet (nat_str (unat w)) = Some w"
proof -
  have "length (nat_str (unat w)) \<le> 3"
    using length_nat_str_le [of "unat w" 3] unat_u8_less [of w] by simp
  moreover have "length (nat_str (unat w)) = 1 \<or> hd (nat_str (unat w)) \<noteq> CHR ''0''"
    using hd_nat_str [of "unat w"] length_nat_str_1 [of "unat w"] by (cases "unat w = 0") auto
  ultimately show ?thesis
    using unat_u8_less [of w] by (simp add: parse_octet_def nat_str_digits)
qed

lemma parse_octet_Some: "parse_octet s = Some w \<longleftrightarrow> s = nat_str (unat w)"
proof
  assume a: "parse_octet s = Some w"
  then have "nat_str (dec_value s) = s"
    by (intro nat_str_dec_value) (auto simp: parse_octet_def split: if_splits)
  moreover from a have "unat w = dec_value s"
    by (auto simp: parse_octet_def unat_of_nat split: if_splits)
  ultimately show "s = nat_str (unat w)" by simp
qed (simp add: parse_octet_nat_str)

lemma split_ipv4_str:
  "split_on (CHR ''.'') (ipv4_str (a, b, c, d)) = map (nat_str \<circ> unat) [a, b, c, d]"
proof -
  have "CHR ''.'' \<notin> set (nat_str n)" for n
    by (rule nat_str_no_sep) (simp add: is_ascii_digit_def)
  then show ?thesis
    by (simp add: split_on_append_sep split_on_no_sep)
qed

text \<open>Joining the pieces of a split gives the text back, so a split determines its input.\<close>

fun join_dots :: "string list \<Rightarrow> string" where
  "join_dots [] = []"
| "join_dots [p] = p"
| "join_dots (p # q # ps) = p @ ''.'' @ join_dots (q # ps)"

lemma join_dots_split: "join_dots (split_on (CHR ''.'') s) = s"
proof (induction s)
  case (Cons x xs)
  then show ?case
    by (cases "split_on (CHR ''.'') xs" rule: join_dots.cases) auto
qed simp

lemma parse_ipv4_Some: "parse_ipv4 s = Some ip \<longleftrightarrow> s = ipv4_str ip"
proof
  assume "parse_ipv4 s = Some ip"
  then obtain a b c d where ip: "ip = (a, b, c, d)"
    and "map parse_octet (split_on (CHR ''.'') s) = [Some a, Some b, Some c, Some d]"
    by (auto simp: parse_ipv4_def split: list.splits option.splits)
  then have "split_on (CHR ''.'') s = [nat_str (unat a), nat_str (unat b), nat_str (unat c), nat_str (unat d)]"
    by (auto simp: map_eq_Cons_conv parse_octet_Some)
  then have "s = join_dots [nat_str (unat a), nat_str (unat b), nat_str (unat c), nat_str (unat d)]"
    using join_dots_split by metis
  then show "s = ipv4_str ip" by (simp add: ip)
next
  assume "s = ipv4_str ip"
  then show "parse_ipv4 s = Some ip"
    by (cases ip) (simp add: parse_ipv4_def split_ipv4_str parse_octet_nat_str del: ipv4_str.simps)
qed

lemma contains_key_iff:
  "policy_inv p \<Longrightarrow> bt_contains_key (pol_peers p) i \<longleftrightarrow> i \<in> vp_peer_id ` set (policy_peers p)"
  using policy_peers_iff [of p] policy_inv_get(1) [of p]
  by (auto simp: bt_contains_key_def image_iff)

lemma generation_next_None:
  "generation_next g = None \<longleftrightarrow> unat (generation_get g) = 2 ^ 64 - 1"
  using unsigned_less [of "generation_get g", where ?'a = nat] by (auto simp: generation_next_def)

section \<open>Properties\<close>

text \<open>A small policy for the witnesses: one peer enrolled on the default policy.\<close>

definition demo_peer :: vpn_peer where
  "demo_peer = \<lparr>vp_user_id = UserId ''user-1'', vp_peer_id = PeerId ''peer-1'',
     vp_public_key = WireGuardPublicKey ''key-1'', vp_address = OverlayAddress (10, 100, 0, 2),
     vp_health_policy = OnDemand, vp_games = False\<rparr>"

definition demo_policy :: vpn_policy where
  "demo_policy = \<lparr>pol_generation = Generation 2, pol_peers = [(PeerId ''peer-1'', demo_peer)]\<rparr>"

lemma demo_enroll:
  "enroll (UserId ''user-1'') (PeerId ''peer-1'') (WireGuardPublicKey ''key-1'') False policy_default
     = (Inr demo_peer, demo_policy)"
proof -
  have "[2..<255] = 2 # [3..<255]" by (subst upt_conv_Cons) simp_all
  then have range: "host_range = 2 # map of_nat [3..<255]"
    by (simp only: host_range_def list.map) simp
  have "List.find (\<lambda>host. True) host_range = Some 2"
    unfolding range by (simp del: upt_rec_numeral)
  then have "allocate_address policy_default = Inr (OverlayAddress (10, 100, 0, 2))"
    by (simp add: allocate_address_def policy_default_def policy_peers_def bt_values_def bt_empty_def
        OverlayAddress_new_def usable_host_def del: upt_rec_numeral)
  then show ?thesis
    by (simp add: enroll_def policy_default_def policy_peers_def bt_values_def bt_empty_def
        bt_contains_key_def bump_generation_def generation_next_def demo_peer_def demo_policy_def
        Let_def)
qed

lemma demo_reachable: "reachable_policy demo_policy"
  unfolding reachable_policy_def
  by (rule r_into_rtranclp, rule step_enroll [OF demo_enroll]) simp

lemma demo_inv: "policy_inv demo_policy"
  by (simp add: policy_inv_def demo_policy_def demo_peer_def policy_peers_def bt_values_def
      bt_invar_def usable_host_def)

text \<open>
  C1: In every policy a program can reach from \<open>VpnPolicy::default()\<close> through \<open>enroll\<close>,
  \<open>set_games\<close>, \<open>rotate_key\<close> and \<open>revoke\<close>, whatever these calls return, peers are filed under
  their own identifiers in ascending order, every address is a usable host of 10.100.0.0/24, no
  two peers share a public key or an address, and the generation is positive.
\<close>

theorem reachable_policy_inv: "reachable_policy p \<Longrightarrow> policy_inv p"
  unfolding reachable_policy_def by (rule policy_steps_inv [OF _ policy_inv_default])

theorem reachable_policy_inv_witness: "reachable_policy demo_policy \<and> policy_inv demo_policy"
  using reachable_policy_inv [OF demo_reachable] demo_reachable by simp

text \<open>
  C2: The complete result of \<open>enroll\<close>.  It refuses with \<open>PeerAlreadyExists\<close> exactly when the
  identifier or the public key is taken, with \<open>AddressPoolExhausted\<close> exactly when it is not and
  253 peers hold all hosts, and panics exactly when otherwise the 64-bit generation is at its
  maximum; in every other case it returns a peer with the given identity, on-demand health
  policy and the least free host, files it, leaves every other entry alone and takes the next
  generation.
\<close>

theorem enroll_result:
  fixes p u i k g
  defines "taken \<equiv> i \<in> vp_peer_id ` set (policy_peers p) \<or> k \<in> vp_public_key ` set (policy_peers p)"
    and "full \<equiv> length (policy_peers p) = 253"
    and "spent \<equiv> unat (generation_get (pol_generation p)) = 2 ^ 64 - 1"
  assumes inv: "policy_inv p"
  shows "case enroll u i k g p of
      (Inl (Err PeerAlreadyExists), p') \<Rightarrow> taken \<and> p' = p
    | (Inl (Err AddressPoolExhausted), p') \<Rightarrow> \<not> taken \<and> full \<and> p' = p
    | (Inl (Err e), p') \<Rightarrow> False
    | (Inl Panic, p') \<Rightarrow> \<not> taken \<and> \<not> full \<and> spent
    | (Inr peer, p') \<Rightarrow> \<not> taken \<and> \<not> full \<and> \<not> spent
        \<and> (\<exists>h. peer = \<lparr>vp_user_id = u, vp_peer_id = i, vp_public_key = k,
               vp_address = OverlayAddress (10, 100, 0, h), vp_health_policy = OnDemand, vp_games = g\<rparr>
             \<and> usable_host h
             \<and> (\<forall>other\<in>set (policy_peers p). addr_host (vp_address other) \<noteq> h)
             \<and> (\<forall>h'. usable_host h' \<and> h' < h \<longrightarrow>
                   (\<exists>other\<in>set (policy_peers p). addr_host (vp_address other) = h')))
        \<and> bt_get (pol_peers p') = (bt_get (pol_peers p))(i \<mapsto> peer)
        \<and> generation_get (pol_generation p') = generation_get (pol_generation p) + 1"
proof -
  have taken: "(bt_contains_key (pol_peers p) i
      \<or> list_ex (\<lambda>peer. vp_public_key peer = k) (policy_peers p)) \<longleftrightarrow> taken"
    using contains_key_iff [OF inv] by (auto simp: taken_def list_ex_iff image_iff)
  have spent: "generation_next (pol_generation p) = None \<longleftrightarrow> spent"
    by (simp add: generation_next_None spent_def)
  have full: "allocate_address p = Inl AddressPoolExhausted \<longleftrightarrow> full"
    using pool_exhausted_iff [OF inv] by (simp add: full_def)
  show ?thesis
  proof (cases "taken \<or> full")
    case True
    with taken full show ?thesis by (auto simp: enroll_def)
  next
    case False
    then obtain h where h: "usable_host h"
        "h \<notin> (addr_host \<circ> vp_address) ` set (policy_peers p)"
        "\<And>h'. usable_host h' \<Longrightarrow> h' < h \<Longrightarrow> h' \<in> (addr_host \<circ> vp_address) ` set (policy_peers p)"
        "allocate_address p = Inr (OverlayAddress (10, 100, 0, h))"
      using full allocate_address_cases [of p] by blast
    let ?peer = "\<lparr>vp_user_id = u, vp_peer_id = i, vp_public_key = k,
      vp_address = OverlayAddress (10, 100, 0, h), vp_health_policy = OnDemand, vp_games = g\<rparr>"
    have run: "enroll u i k g p = bump_generation ?peer
        (p\<lparr>pol_peers := bt_insert i ?peer (pol_peers p)\<rparr>)"
      using False taken h(4) by (simp add: enroll_def Let_def)
    show ?thesis
    proof (cases "generation_next (pol_generation p)")
      case None
      with False spent show ?thesis by (simp add: run bump_generation_def)
    next
      case (Some n)
      moreover have "\<forall>other\<in>set (policy_peers p). addr_host (vp_address other) \<noteq> h"
        using h(2) by (auto simp: image_iff)
      moreover have "\<forall>h'. usable_host h' \<and> h' < h \<longrightarrow>
          (\<exists>other\<in>set (policy_peers p). addr_host (vp_address other) = h')"
        using h(3) by (force simp: image_iff)
      ultimately show ?thesis
        using False spent h(1) generation_next_Some(1) [OF Some]
        by (simp add: run bump_generation_def bt_get_insert)
    qed
  qed
qed

theorem enroll_result_witness:
  "policy_inv demo_policy
   \<and> enroll (UserId ''user-2'') (PeerId ''peer-2'') (WireGuardPublicKey ''key-1'') True demo_policy
       = (Inl (Err PeerAlreadyExists), demo_policy)
   \<and> (PeerId ''peer-2'' \<in> vp_peer_id ` set (policy_peers demo_policy)
      \<or> WireGuardPublicKey ''key-1'' \<in> vp_public_key ` set (policy_peers demo_policy))"
proof -
  have run: "enroll (UserId ''user-2'') (PeerId ''peer-2'') (WireGuardPublicKey ''key-1'') True demo_policy
       = (Inl (Err PeerAlreadyExists), demo_policy)"
    by (simp add: enroll_def demo_policy_def demo_peer_def policy_peers_def bt_values_def)
  from enroll_result [OF demo_inv, where u = "UserId ''user-2''" and i = "PeerId ''peer-2''"
      and k = "WireGuardPublicKey ''key-1''" and g = True]
  show ?thesis by (simp only: run prod.case sum.case fault.case policy_error.case demo_inv simp_thms)
qed

text \<open>
  C3: A generation number names one complete state.  Along any run of a policy, two moments with
  the same generation have the same peers, and a later moment never has a smaller generation.
\<close>

theorem generation_names_state:
  assumes "reachable_policy p" and "policy_step\<^sup>*\<^sup>* p q"
  shows "pol_generation p \<le> pol_generation q
    \<and> (pol_generation p = pol_generation q \<longrightarrow> pol_peers p = pol_peers q)"
proof -
  from assms(1) have "policy_inv p"
    unfolding reachable_policy_def by (rule policy_steps_inv [OF _ policy_inv_default])
  with assms(2) have "q = p \<or> pol_generation p < pol_generation q"
    by (rule policy_steps_generation)
  then show ?thesis by auto
qed

theorem generation_names_state_witness:
  "reachable_policy policy_default \<and> policy_step\<^sup>*\<^sup>* policy_default demo_policy
   \<and> pol_generation policy_default \<le> pol_generation demo_policy"
proof -
  have start: "reachable_policy policy_default" by (simp add: reachable_policy_def)
  moreover have run: "policy_step\<^sup>*\<^sup>* policy_default demo_policy"
    using demo_reachable by (simp add: reachable_policy_def)
  ultimately show ?thesis using generation_names_state [OF start run] by blast
qed

text \<open>
  Addresses are stable.  As long as a peer stays enrolled, however the policy changes around
  it, its overlay address and its owner stay what they were.
\<close>

theorem address_stable:
  assumes "policy_inv p" and "(\<lambda>a b. policy_step a b \<and> bt_get (pol_peers b) i \<noteq> None)\<^sup>*\<^sup>* p q"
    and "bt_get (pol_peers p) i = Some v"
  shows "\<exists>w. bt_get (pol_peers q) i = Some w
    \<and> vp_address w = vp_address v \<and> vp_user_id w = vp_user_id v"
  using assms(2)
proof (induction rule: rtranclp_induct)
  case base
  with assms(3) show ?case by simp
next
  case (step y z)
  from step.hyps(1) have "policy_step\<^sup>*\<^sup>* p y"
    by (rule rtranclp_mono [THEN predicate2D, rotated]) blast
  with assms(1) have inv: "policy_inv y" by (auto intro: policy_steps_inv)
  from step.IH obtain w where w: "bt_get (pol_peers y) i = Some w"
      "vp_address w = vp_address v" "vp_user_id w = vp_user_id v" by blast
  from step.hyps(2) obtain w' where "policy_step y z" and w': "bt_get (pol_peers z) i = Some w'" by blast
  from policy_step_stable [OF this(1) inv w(1) w'] w w' show ?case by simp
qed

theorem address_stable_witness:
  "\<exists>w. bt_get (pol_peers (snd (set_games (PeerId ''peer-1'') True demo_policy))) (PeerId ''peer-1'') = Some w
     \<and> vp_address w = OverlayAddress (10, 100, 0, 2) \<and> vp_user_id w = UserId ''user-1''"
proof -
  let ?i = "PeerId ''peer-1''" and ?q = "snd (set_games (PeerId ''peer-1'') True demo_policy)"
  note eval = set_games_def demo_policy_def demo_peer_def bump_generation_def generation_next_def
  have r: "set_games ?i True demo_policy = (Inr True, ?q)" by (simp add: eval)
  have "policy_step demo_policy ?q" by (rule step_set_games [OF r]) simp
  moreover have "bt_get (pol_peers ?q) ?i \<noteq> None" by (simp add: eval)
  ultimately have run: "(\<lambda>a b. policy_step a b \<and> bt_get (pol_peers b) ?i \<noteq> None)\<^sup>*\<^sup>* demo_policy ?q"
    by blast
  have get: "bt_get (pol_peers demo_policy) ?i = Some demo_peer" by (simp add: demo_policy_def)
  have "vp_address demo_peer = OverlayAddress (10, 100, 0, 2)" and "vp_user_id demo_peer = UserId ''user-1''"
    by (simp_all add: demo_peer_def)
  with address_stable [OF demo_inv run get] show ?thesis by (simp only:)
qed

lemma overlay_address_from_str_Inr:
  "overlay_address_from_str s = Inr a \<longleftrightarrow> overlay_ok a \<and> s = overlay_address_str a"
proof -
  obtain w x y z where a: "a = OverlayAddress (w, x, y, z)"
    by (metis overlay_address.exhaust prod_cases4)
  show ?thesis
    by (auto simp: overlay_address_from_str_def overlay_address_str_def a and_then_eq_Inr
        ok_or_eq_iff strip_suffix_eq_Some parse_ipv4_Some simp del: ipv4_str.simps split: if_splits)
qed

text \<open>
  C4: The text form of addresses is exact.  A text parses to an address exactly when the address
  is a usable host of 10.100.0.0/24 and the text is what \<open>Display\<close> prints for it, so parsing and
  printing invert each other and no other spelling (leading zeros, missing or other prefix
  length, blanks) is accepted.
\<close>

theorem overlay_address_text:
  "overlay_address_from_str s = Inr a \<longleftrightarrow> overlay_ok a \<and> s = overlay_address_str a"
  by (rule overlay_address_from_str_Inr)

end
