(* ===== verification/Canonical_Json.thy ===== *)
theory Canonical_Json
  imports Vpn "HOL-Library.Multiset"
begin

text \<open>
  \<open>serde_json::Value\<close> and \<open>write_canonical_json\<close> of \<open>policy/src/contract.rs\<close>: compact JSON with
  the members of every object in ascending key order.

  Numbers are integers, the only numbers of the values this program canonicalises.  An object is
  the list of its members.  Quoting one string, \<open>serde_json::to_string(&str)\<close>, belongs to
  serde_json and is the parameter \<open>quote\<close>; \<^const>\<open>None\<close> is its error.  \<open>quote_ok\<close> names what the
  injectivity of the text rests on: JSON string literals start with a quotation mark and are
  self-delimiting.
\<close>

section \<open>Definitions\<close>

datatype json =
    JNull
  | JBool bool
  | JNumber int
  | JString string
  | JArray "json list"
  | JObject "(string \<times> json) list"

definition int_str :: "int \<Rightarrow> string" where
  "int_str n = (if n < 0 then CHR ''-'' # nat_str (nat (- n)) else nat_str (nat n))"

fun json_weight :: "json \<Rightarrow> nat" where
  "json_weight (JArray vs) = Suc (sum_list (map (\<lambda>v. Suc (json_weight v)) vs))"
| "json_weight (JObject kvs) = Suc (sum_list (map (\<lambda>(k, v). Suc (json_weight v)) kvs))"
| "json_weight _ = 1"

lemma sum_list_sort_key: "sum_list (map f (sort_key g xs)) = (sum_list (map f xs) :: nat)"
  by (metis mset_map mset_sort sum_mset_sum_list)

function (sequential) write_canonical_json ::
    "(string \<Rightarrow> string option) \<Rightarrow> json \<Rightarrow> string \<Rightarrow> policy_error + string"
  and write_values :: "(string \<Rightarrow> string option) \<Rightarrow> nat \<Rightarrow> json list \<Rightarrow> string \<Rightarrow> policy_error + string"
  and write_members ::
    "(string \<Rightarrow> string option) \<Rightarrow> nat \<Rightarrow> (string \<times> json) list \<Rightarrow> string \<Rightarrow> policy_error + string"
where
  "write_canonical_json quote JNull output = Inr (output @ ''null'')"
| "write_canonical_json quote (JBool b) output = Inr (output @ (if b then ''true'' else ''false''))"
| "write_canonical_json quote (JNumber n) output = Inr (output @ int_str n)"
| "write_canonical_json quote (JString s) output =
     (case quote s of None \<Rightarrow> Inl Serialization | Some t \<Rightarrow> Inr (output @ t))"
| "write_canonical_json quote (JArray values) output =
     (case write_values quote 0 values (output @ ''['') of
        Inl e \<Rightarrow> Inl e
      | Inr output \<Rightarrow> Inr (output @ '']''))"
| "write_canonical_json quote (JObject values) output =
     (case write_members quote 0 (sort_key fst values) (output @ ''{'') of
        Inl e \<Rightarrow> Inl e
      | Inr output \<Rightarrow> Inr (output @ ''}''))"
| "write_values quote index [] output = Inr output"
| "write_values quote index (v # vs) output =
     (case write_canonical_json quote v (if index > 0 then output @ '','' else output) of
        Inl e \<Rightarrow> Inl e
      | Inr output \<Rightarrow> write_values quote (Suc index) vs output)"
| "write_members quote index [] output = Inr output"
| "write_members quote index ((key, v) # kvs) output =
     (case quote key of
        None \<Rightarrow> Inl Serialization
      | Some t \<Rightarrow>
          (case write_canonical_json quote v
                  ((if index > 0 then output @ '','' else output) @ t @ '':'') of
             Inl e \<Rightarrow> Inl e
           | Inr output \<Rightarrow> write_members quote (Suc index) kvs output))"
  by pat_completeness auto
termination
  by (relation "measure (case_sum (\<lambda>(q, v, out). json_weight v)
        (case_sum (\<lambda>(q, i, vs, out). sum_list (map (\<lambda>v. Suc (json_weight v)) vs))
           (\<lambda>(q, i, kvs, out). sum_list (map (\<lambda>(k, v). Suc (json_weight v)) kvs))))")
    (auto simp: sum_list_sort_key)

section \<open>The canonical text as a function\<close>

text \<open>\<open>canon\<close> puts the members of every object in key order; \<open>json_text\<close> writes a value as it stands.\<close>

fun canon :: "json \<Rightarrow> json" where
  "canon (JArray vs) = JArray (map canon vs)"
| "canon (JObject kvs) = JObject (sort_key fst (map (\<lambda>(k, v). (k, canon v)) kvs))"
| "canon v = v"

definition sep_text :: "('a \<Rightarrow> string) \<Rightarrow> 'a list \<Rightarrow> string" where
  "sep_text f xs = concat (map (\<lambda>x. CHR '','' # f x) xs)"

fun join_text :: "('a \<Rightarrow> string) \<Rightarrow> 'a list \<Rightarrow> string" where
  "join_text f [] = []"
| "join_text f (x # xs) = f x @ sep_text f xs"

lemma sep_text_cong [fundef_cong]:
  "xs = ys \<Longrightarrow> (\<And>x. x \<in> set ys \<Longrightarrow> f x = g x) \<Longrightarrow> sep_text f xs = sep_text g ys"
  unfolding sep_text_def by (metis (mono_tags, lifting) map_cong)

lemma join_text_cong [fundef_cong]:
  "xs = ys \<Longrightarrow> (\<And>x. x \<in> set ys \<Longrightarrow> f x = g x) \<Longrightarrow> join_text f xs = join_text g ys"
  by (cases ys) (auto cong: sep_text_cong)

fun json_text :: "(string \<Rightarrow> string) \<Rightarrow> json \<Rightarrow> string" where
  "json_text q JNull = ''null''"
| "json_text q (JBool b) = (if b then ''true'' else ''false'')"
| "json_text q (JNumber n) = int_str n"
| "json_text q (JString s) = q s"
| "json_text q (JArray vs) = ''['' @ join_text (json_text q) vs @ '']''"
| "json_text q (JObject kvs) = ''{'' @ join_text (\<lambda>(k, v). q k @ '':'' @ json_text q v) kvs @ ''}''"

abbreviation member_text :: "(string \<Rightarrow> string) \<Rightarrow> string \<times> json \<Rightarrow> string" where
  "member_text q \<equiv> \<lambda>(k, v). q k @ '':'' @ json_text q v"

definition canon_member :: "string \<times> json \<Rightarrow> string \<times> json" where
  "canon_member = (\<lambda>(k, v). (k, canon v))"

lemma map_insort_key_fst:
  assumes "\<And>x. fst (f x) = fst x"
  shows "map f (insort_key fst x xs) = insort_key fst (f x) (map f xs)"
  by (induction xs) (simp_all add: assms)

lemma map_sort_key_fst:
  assumes "\<And>x. fst (f x) = fst x"
  shows "map f (sort_key fst xs) = sort_key fst (map f xs)"
  by (induction xs) (simp_all add: map_insort_key_fst [OF assms])

lemma canon_JObject: "canon (JObject kvs) = JObject (map canon_member (sort_key fst kvs))"
proof -
  have "fst (canon_member x) = fst x" for x :: "string \<times> json"
    by (cases x) (simp add: canon_member_def)
  then show ?thesis by (simp add: map_sort_key_fst canon_member_def)
qed

text \<open>Where quoting never fails, the writer appends the text of the canonical form.\<close>

lemma write_eq_text:
  "(\<And>s. quote s = Some (q s)) \<Longrightarrow>
     write_canonical_json quote v out = Inr (out @ json_text q (canon v))"
  "(\<And>s. quote s = Some (q s)) \<Longrightarrow>
     write_values quote i vs out =
       Inr (out @ (if i > 0 then sep_text else join_text) (json_text q) (map canon vs))"
  "(\<And>s. quote s = Some (q s)) \<Longrightarrow>
     write_members quote i kvs out =
       Inr (out @ (if i > 0 then sep_text else join_text) (member_text q) (map canon_member kvs))"
  by (induction quote v out and quote i vs out and quote i kvs out
      rule: write_canonical_json_write_values_write_members.induct)
    (simp_all add: canon_JObject sep_text_def canon_member_def del: canon.simps(2))

section \<open>The text determines the value\<close>

definition quote_ok :: "(string \<Rightarrow> string option) \<Rightarrow> bool" where
  "quote_ok quote \<longleftrightarrow>
     (\<forall>s. \<exists>t. quote s = Some (CHR 0x22 # t))
     \<and> (\<forall>s s' t t' r r'. quote s = Some t \<longrightarrow> quote s' = Some t' \<longrightarrow> t @ r = t' @ r' \<longrightarrow> s = s' \<and> r = r')"

lemma quote_okE:
  assumes "quote_ok quote"
  obtains q where "\<And>s. quote s = Some (q s)" and "\<And>s. \<exists>t. q s = CHR 0x22 # t"
    and "\<And>s s' r r'. q s @ r = q s' @ r' \<Longrightarrow> s = s' \<and> r = r'"
proof -
  define q where "q = (\<lambda>s. the (quote s))"
  have q: "quote s = Some (q s)" and start: "\<exists>t. q s = CHR 0x22 # t" for s
    using assms [unfolded quote_ok_def, THEN conjunct1, rule_format, of s] by (auto simp: q_def)
  show ?thesis
  proof (rule that [OF q start])
    fix s s' r r' assume "q s @ r = q s' @ r'"
    then show "s = s' \<and> r = r'"
      by (rule assms [unfolded quote_ok_def, THEN conjunct2, rule_format, OF q q])
  qed
qed

text \<open>What may follow a value inside a text: nothing, a comma or a closing bracket.\<close>

definition delimited :: "string \<Rightarrow> bool" where
  "delimited r \<longleftrightarrow> r = [] \<or> hd r \<in> set '',]}''"

definition decodable :: "('a \<Rightarrow> string) \<Rightarrow> 'a \<Rightarrow> bool" where
  "decodable f x \<longleftrightarrow>
     (\<forall>y r r'. f x @ r = f y @ r' \<longrightarrow> delimited r \<longrightarrow> delimited r' \<longrightarrow> x = y \<and> r = r')"

lemma decodableD:
  "decodable f x \<Longrightarrow> f x @ r = f y @ r' \<Longrightarrow> delimited r \<Longrightarrow> delimited r' \<Longrightarrow> x = y \<and> r = r'"
  unfolding decodable_def by blast

lemma delimited_simps [simp]:
  "delimited []"
  "delimited (CHR '','' # r)" "delimited (CHR '']'' # r)" "delimited (CHR ''}'' # r)"
  by (simp_all add: delimited_def)

lemma delimited_sep_text: "delimited (c # r) \<Longrightarrow> delimited (sep_text f xs @ c # r)"
  by (cases xs) (simp_all add: sep_text_def)

lemma sep_text_decodable:
  assumes "\<And>x. x \<in> set xs \<Longrightarrow> decodable f x" and "c \<in> set '']}''"
    and "sep_text f xs @ c # r = sep_text f ys @ c # r'"
  shows "xs = ys \<and> r = r'"
  using assms
proof (induction xs arbitrary: ys)
  case Nil
  then show ?case by (cases ys) (auto simp: sep_text_def)
next
  case (Cons x xs)
  from Cons.prems(2,3) obtain y ys' where ys: "ys = y # ys'"
    by (cases ys) (auto simp: sep_text_def)
  have del: "delimited (c # r)" for r using Cons.prems(2) by (auto simp: delimited_def)
  from Cons.prems(3) have "f x @ (sep_text f xs @ c # r) = f y @ (sep_text f ys' @ c # r')"
    by (simp add: ys sep_text_def)
  from decodableD [OF Cons.prems(1) this delimited_sep_text [OF del] delimited_sep_text [OF del]]
  have "x = y" and "sep_text f xs @ c # r = sep_text f ys' @ c # r'" by simp_all
  with Cons.IH [of ys'] Cons.prems(1,2) show ?case by (simp add: ys)
qed

lemma join_text_decodable:
  assumes "\<And>x. x \<in> set xs \<Longrightarrow> decodable f x" and "c \<in> set '']}''"
    and "\<And>x. f x \<noteq> [] \<and> hd (f x) \<noteq> c"
    and "join_text f xs @ c # r = join_text f ys @ c # r'"
  shows "xs = ys \<and> r = r'"
proof (cases "xs = [] \<or> ys = []")
  case True
  have "c # u \<noteq> f x @ w" and "f x @ w \<noteq> c # u" for u x w
    using assms(3) [of x] by (cases "f x"; auto)+
  with True assms(4) show ?thesis by (cases xs; cases ys) auto
next
  case False
  then obtain x xs' y ys' where xs: "xs = x # xs'" and ys: "ys = y # ys'"
    by (meson list.exhaust)
  have del: "delimited (c # r)" for r using assms(2) by (auto simp: delimited_def)
  from assms(4) have "f x @ (sep_text f xs' @ c # r) = f y @ (sep_text f ys' @ c # r')"
    by (simp add: xs ys)
  from decodableD [OF assms(1) this delimited_sep_text [OF del] delimited_sep_text [OF del]]
  have "x = y" and "sep_text f xs' @ c # r = sep_text f ys' @ c # r'" by (simp_all add: xs)
  with sep_text_decodable [OF assms(1,2)] show ?thesis by (auto simp: xs ys)
qed

lemma nat_str_append_delimited:
  assumes "nat_str m @ r = nat_str n @ r'" and "delimited r" and "delimited r'"
  shows "m = n \<and> r = r'"
proof -
  have tw: "takeWhile is_ascii_digit (nat_str k @ u) = nat_str k" if "delimited u" for k u
  proof -
    have "takeWhile is_ascii_digit u = []"
      using that by (cases u) (auto simp: delimited_def is_ascii_digit_def)
    then show ?thesis
      using nat_str_digits [of k] by (simp add: takeWhile_append2 list_all_iff takeWhile_append)
  qed
  from assms have "nat_str m = nat_str n" by (metis tw)
  with assms(1) show ?thesis by simp
qed

lemma hd_nat_str_digit: "is_ascii_digit (hd (nat_str n))"
  using nat_str_digits [of n] by (cases "nat_str n") auto

lemma int_str_append_delimited:
  assumes "int_str m @ r = int_str n @ r'" and "delimited r" and "delimited r'"
  shows "m = n \<and> r = r'"
proof -
  have minus: "CHR ''-'' # u \<noteq> nat_str k @ w" for u k w
    using nat_str_digits [of k] by (cases "nat_str k") (auto simp: is_ascii_digit_def)
  consider "m < 0" "n < 0" | "\<not> m < 0" "\<not> n < 0" | "m < 0" "\<not> n < 0" | "\<not> m < 0" "n < 0" by blast
  then show ?thesis
  proof cases
    case 1
    with assms nat_str_append_delimited [of "nat (- m)" r "nat (- n)" r'] show ?thesis
      by (auto simp: int_str_def nat_eq_iff)
  next
    case 2
    with assms nat_str_append_delimited [of "nat m" r "nat n" r'] show ?thesis
      by (auto simp: int_str_def nat_eq_iff)
  next
    case 3
    with assms(1) minus [of _ "nat n" r'] show ?thesis by (simp add: int_str_def)
  next
    case 4
    with assms(1) minus [of _ "nat m" r, symmetric] show ?thesis by (simp add: int_str_def)
  qed
qed

lemma hd_int_str: "int_str n \<noteq> [] \<and> (hd (int_str n) = CHR ''-'' \<or> is_ascii_digit (hd (int_str n)))"
  by (simp add: int_str_def hd_nat_str_digit)

text \<open>
  The first character tells the kind of a value, and a value is decoded by its text when its
  parts are.
\<close>

lemma hd_json_text:
  assumes "\<And>s. \<exists>t. q s = CHR 0x22 # t"
  shows "json_text q v \<noteq> [] \<and> hd (json_text q v) \<notin> set '',:]}''"
proof (cases v)
  case (JNumber n)
  then show ?thesis using hd_int_str [of n] by (auto simp: is_ascii_digit_def)
next
  case (JString s)
  then show ?thesis using assms [of s] by auto
qed auto

fun json_kind :: "json \<Rightarrow> nat" where
  "json_kind JNull = 0"
| "json_kind (JBool b) = (if b then 1 else 2)"
| "json_kind (JNumber n) = 3"
| "json_kind (JString s) = 4"
| "json_kind (JArray vs) = 5"
| "json_kind (JObject kvs) = 6"

definition char_kind :: "char \<Rightarrow> nat" where
  "char_kind c =
     (if c = CHR ''n'' then 0 else if c = CHR ''t'' then 1 else if c = CHR ''f'' then 2
      else if c = CHR 0x22 then 4 else if c = CHR ''['' then 5 else if c = CHR ''{'' then 6 else 3)"

lemma char_kind_text:
  assumes "\<And>s. \<exists>t. q s = CHR 0x22 # t"
  shows "char_kind (hd (json_text q v)) = json_kind v"
proof (cases v)
  case (JNumber n)
  then show ?thesis using hd_int_str [of n] by (auto simp: is_ascii_digit_def char_kind_def)
next
  case (JString s)
  then show ?thesis using assms [of s] by (auto simp: char_kind_def)
qed (auto simp: char_kind_def)

lemma same_kind:
  assumes "\<And>s. \<exists>t. q s = CHR 0x22 # t" and "json_text q v @ r = json_text q w @ r'"
  shows "json_kind v = json_kind w"
proof -
  have "hd (json_text q v) = hd (json_text q w)"
    using arg_cong [OF assms(2), of hd] hd_json_text [OF assms(1)] by (simp add: hd_append)
  then have "char_kind (hd (json_text q v)) = char_kind (hd (json_text q w))" by simp
  then show ?thesis unfolding char_kind_text [OF assms(1)] .
qed

lemma json_decodable:
  assumes start: "\<And>s. \<exists>t. q s = CHR 0x22 # t"
    and free: "\<And>s s' r r'. q s @ r = q s' @ r' \<Longrightarrow> s = s' \<and> r = r'"
  shows "decodable (json_text q) v"
proof (induction v)
  case JNull
  show ?case unfolding decodable_def
  proof (intro allI impI)
    fix w r r' assume eq: "json_text q JNull @ r = json_text q w @ r'"
    with same_kind [OF start eq] show "JNull = w \<and> r = r'" by (cases w) (auto split: if_splits)
  qed
next
  case (JBool b)
  show ?case unfolding decodable_def
  proof (intro allI impI)
    fix w r r' assume eq: "json_text q (JBool b) @ r = json_text q w @ r'"
    with same_kind [OF start eq] show "JBool b = w \<and> r = r'" by (cases w) (auto split: if_splits)
  qed
next
  case (JNumber n)
  show ?case unfolding decodable_def
  proof (intro allI impI)
    fix w r r' assume eq: "json_text q (JNumber n) @ r = json_text q w @ r'"
      and del: "delimited r" "delimited r'"
    with same_kind [OF start eq] show "JNumber n = w \<and> r = r'"
      by (cases w) (auto split: if_splits dest: int_str_append_delimited)
  qed
next
  case (JString s)
  show ?case unfolding decodable_def
  proof (intro allI impI)
    fix w r r' assume eq: "json_text q (JString s) @ r = json_text q w @ r'"
    with same_kind [OF start eq] show "JString s = w \<and> r = r'"
      by (cases w) (auto split: if_splits dest: free)
  qed
next
  case (JArray vs)
  show ?case unfolding decodable_def
  proof (intro allI impI)
    fix w r r' assume eq: "json_text q (JArray vs) @ r = json_text q w @ r'"
    with same_kind [OF start eq] obtain ws where w: "w = JArray ws"
      by (cases w) (auto split: if_splits)
    with eq have "join_text (json_text q) vs @ CHR '']'' # r = join_text (json_text q) ws @ CHR '']'' # r'"
      by simp
    from join_text_decodable [OF _ _ _ this] JArray hd_json_text [OF start]
    show "JArray vs = w \<and> r = r'" by (auto simp: w)
  qed
next
  case (JObject kvs)
  have member: "decodable (member_text q) kv" if "kv \<in> set kvs" for kv
    unfolding decodable_def
  proof (intro allI impI)
    fix kv' r r' assume eq: "member_text q kv @ r = member_text q kv' @ r'"
      and del: "delimited r" "delimited r'"
    obtain k v k' v' where kv: "kv = (k, v)" "kv' = (k', v')" by fastforce
    with free [of k "'':'' @ json_text q v @ r" k' "'':'' @ json_text q v' @ r'"] eq
    have key: "k = k'" and same: "json_text q v @ r = json_text q v' @ r'" by simp_all
    from JObject [of kv v] that kv have "decodable (json_text q) v" by simp
    from decodableD [OF this same del] key show "kv = kv' \<and> r = r'" by (simp add: kv)
  qed
  have hd: "member_text q kv \<noteq> [] \<and> hd (member_text q kv) \<noteq> CHR ''}''" for kv
  proof (cases kv)
    case (Pair k v)
    then show ?thesis using start [of k] by auto
  qed
  show ?case unfolding decodable_def
  proof (intro allI impI)
    fix w r r' assume eq: "json_text q (JObject kvs) @ r = json_text q w @ r'"
    with same_kind [OF start eq] obtain ws where w: "w = JObject ws"
      by (cases w) (auto split: if_splits)
    with eq have "join_text (member_text q) kvs @ CHR ''}'' # r = join_text (member_text q) ws @ CHR ''}'' # r'"
      by simp
    from join_text_decodable [OF member _ hd this] show "JObject kvs = w \<and> r = r'" by (simp add: w)
  qed
qed

section \<open>Canonical forms of objects\<close>

lemma mset_same_keys:
  assumes "mset xs = mset ys" and "map fst xs = map fst ys" and "distinct (map fst xs)"
  shows "xs = ys"
proof (rule nth_equalityI)
  show len: "length xs = length ys" using assms(2) by (rule map_eq_imp_length_eq)
  fix i assume i: "i < length xs"
  then have "ys ! i \<in> set xs" using len assms(1) by (metis mset_eq_setD nth_mem)
  moreover have "fst (xs ! i) = fst (ys ! i)" using assms(2) i len by (metis nth_map)
  moreover have "xs ! i \<in> set xs" using i by simp
  ultimately show "xs ! i = ys ! i"
    using assms(3) by (metis (no_types, lifting) distinct_map inj_onD)
qed

text \<open>Objects with the same distinct keys in the same order have the same canonical form only when
  their members have.\<close>

lemma canon_object_inject:
  assumes "canon (JObject kvs) = canon (JObject kws)" and "map fst kvs = map fst kws"
    and "distinct (map fst kvs)"
  shows "map (canon \<circ> snd) kvs = map (canon \<circ> snd) kws"
proof -
  let ?c = "\<lambda>(k, v). (k, canon v)"
  have fst: "map fst (map ?c xs) = map fst xs" for xs :: "(string \<times> json) list"
    by (simp add: case_prod_beta comp_def)
  from assms(1) have "sort_key fst (map ?c kvs) = sort_key fst (map ?c kws)" by simp
  then have "mset (map ?c kvs) = mset (map ?c kws)" by (metis mset_sort)
  then have "map ?c kvs = map ?c kws"
    using assms(2,3) by (intro mset_same_keys) (simp_all only: fst)
  then have "map snd (map ?c kvs) = map snd (map ?c kws)" by simp
  then show ?thesis by (simp add: comp_def case_prod_beta)
qed

lemma canon_perm:
  assumes "mset kvs = mset kws" and "distinct (map fst kvs)"
  shows "canon (JObject kvs) = canon (JObject kws)"
proof -
  let ?c = "\<lambda>(k, v). (k, canon v)"
  have "inj_on fst (set (map ?c kvs))"
    using assms(2) by (auto simp: distinct_map inj_on_def) (metis fst_conv snd_conv)
  moreover have "mset (map ?c kvs) = mset (map ?c kws)" using assms(1) by simp
  ultimately have "sort_key fst (map ?c kvs) = sort_key fst (map ?c kws)"
    by (intro sort_key_inj_key_eq) simp_all
  then show ?thesis by simp
qed

lemma write_canonical_text:
  assumes "quote_ok quote"
  shows "\<exists>s. write_canonical_json quote v [] = Inr s"
    and "write_canonical_json quote v [] = write_canonical_json quote w [] \<Longrightarrow> canon v = canon w"
proof -
  from quote_okE [OF assms] obtain q where q: "\<And>s. quote s = Some (q s)"
    and start: "\<And>s. \<exists>t. q s = CHR 0x22 # t"
    and free: "\<And>s s' r r'. q s @ r = q s' @ r' \<Longrightarrow> s = s' \<and> r = r'" by metis
  have written: "write_canonical_json quote u [] = Inr (json_text q (canon u))" for u
    using write_eq_text(1) [of quote q u "[]"] q by simp
  then show "\<exists>s. write_canonical_json quote v [] = Inr s" by simp
  show "canon v = canon w" if "write_canonical_json quote v [] = write_canonical_json quote w []"
    using decodableD [OF json_decodable [OF start free], where r = "[]" and r' = "[]"] that
    by (simp add: written)
qed

section \<open>Properties\<close>

text \<open>
  The quoting used in witnesses: a quotation mark, the characters with quotation marks and
  backslashes escaped by a backslash, and a quotation mark.
\<close>

fun escape :: "string \<Rightarrow> string" where
  "escape [] = [CHR 0x22]"
| "escape (c # s) = (if c = CHR 0x22 \<or> c = CHR 0x5C then [CHR 0x5C, c] else [c]) @ escape s"

definition demo_quote :: "string \<Rightarrow> string option" where
  "demo_quote s = Some (CHR 0x22 # escape s)"

lemma escape_prefix_free: "escape s @ r = escape s' @ r' \<Longrightarrow> s = s' \<and> r = r'"
proof (induction s arbitrary: s')
  case Nil
  then show ?case by (cases s') (auto split: if_splits)
next
  case (Cons c s)
  then show ?case by (cases s') (auto split: if_splits)
qed

lemma demo_quote_ok: "quote_ok demo_quote"
  unfolding quote_ok_def
proof (intro conjI allI impI)
  fix s s' t t' r r'
  assume "demo_quote s = Some t" and "demo_quote s' = Some t'" and "t @ r = t' @ r'"
  then have "escape s @ r = escape s' @ r'" by (auto simp: demo_quote_def)
  then show "s = s'" and "r = r'" by (auto dest: escape_prefix_free)
qed (simp add: demo_quote_def)

text \<open>
  The canonical text of a value determines the value up to the order of object members: when
  quoting strings behaves as JSON prescribes, writing always succeeds, and two values with the same
  canonical text are the same once the members of their objects are put in key order.
\<close>

theorem canonical_text_injective:
  assumes "quote_ok quote"
  shows "(\<exists>s. write_canonical_json quote v [] = Inr s)
    \<and> (write_canonical_json quote v [] = write_canonical_json quote w [] \<longrightarrow> canon v = canon w)"
  using write_canonical_text [OF assms] by blast

theorem canonical_text_injective_witness:
  "quote_ok demo_quote
   \<and> write_canonical_json demo_quote (JObject [(''b'', JNull), (''a'', JNumber 1)]) []
       = write_canonical_json demo_quote (JObject [(''a'', JNumber 1), (''b'', JNull)]) []
   \<and> canon (JObject [(''b'', JNull), (''a'', JNumber 1)]) = canon (JObject [(''a'', JNumber 1), (''b'', JNull)])"
proof -
  let ?v = "JObject [(''b'', JNull), (''a'', JNumber 1)]" and ?w = "JObject [(''a'', JNumber 1), (''b'', JNull)]"
  have "sort_key fst [(''b'', JNull), (''a'', JNumber 1)] = [(''a'', JNumber 1), (''b'', JNull)]"
    by (simp add: less_eq_char_def)
  moreover have "sort_key fst [(''a'', JNumber 1), (''b'', JNull)] = [(''a'', JNumber 1), (''b'', JNull)]"
    by (simp add: less_eq_char_def)
  ultimately have same: "write_canonical_json demo_quote ?v [] = write_canonical_json demo_quote ?w []"
    by (simp only: write_canonical_json.simps)
  with canonical_text_injective [OF demo_quote_ok, of ?v ?w] show ?thesis
    by (simp only: demo_quote_ok same simp_thms)
qed

end
