(* ===== verification/Serde.thy ===== *)
theory Serde
  imports Canonical_Json "HOL-Library.Monad_Syntax"
begin

text \<open>
  What \<open>serde\<close> derives for the wire types of the program, on the tree of a JSON text: the members of
  an object in the order of the text, repeated ones included.

  A derived \<open>Deserialize\<close> reads a struct from an object, member by member, or from an array, in the
  order of the fields; a unit variant from its name, or from an object with the name as its only
  member and \<open>null\<close> as its value.  Errors carry no information the program uses, so a decoder
  returns an option.  \<open>respects_canon\<close>: a decoder that does not see the order of members.
\<close>

section \<open>Decoders\<close>

type_synonym 'a de = "json \<Rightarrow> 'a option"

definition de_string :: "string de" where
  "de_string j = (case j of JString s \<Rightarrow> Some s | _ \<Rightarrow> None)"

definition de_u8 :: "u8 de" where
  "de_u8 j = (case j of JNumber n \<Rightarrow> if 0 \<le> n \<and> n < 2 ^ 8 then Some (word_of_int n) else None | _ \<Rightarrow> None)"

definition de_u64 :: "u64 de" where
  "de_u64 j = (case j of JNumber n \<Rightarrow> if 0 \<le> n \<and> n < 2 ^ 64 then Some (word_of_int n) else None | _ \<Rightarrow> None)"

definition de_vec :: "'a de \<Rightarrow> 'a list de" where
  "de_vec de j = (case j of JArray vs \<Rightarrow> those (map de vs) | _ \<Rightarrow> None)"

definition de_unit_variant :: "(string \<times> 'a) list \<Rightarrow> 'a de" where
  "de_unit_variant variants j =
     (case j of
        JString name \<Rightarrow> map_of variants name
      | JObject [(name, JNull)] \<Rightarrow> map_of variants name
      | _ \<Rightarrow> None)"

text \<open>A hand-written \<open>Deserialize\<close>: the value, then the constructor, its error mapped to serde's.\<close>

definition de_new :: "'v de \<Rightarrow> ('v \<Rightarrow> 'e + 'a) \<Rightarrow> 'a de" where
  "de_new de new j = do { v \<leftarrow> de j; (case new v of Inl _ \<Rightarrow> None | Inr x \<Rightarrow> Some x) }"

text \<open>The members of an object that are fields; \<open>deny\<close> is \<open>deny_unknown_fields\<close>.\<close>

fun visit_map :: "bool \<Rightarrow> string list \<Rightarrow> (string \<times> json) list \<Rightarrow> (string \<rightharpoonup> json) \<Rightarrow> (string \<rightharpoonup> json) option" where
  "visit_map deny names [] seen = Some seen"
| "visit_map deny names ((key, v) # members) seen =
     (if key \<notin> set names then (if deny then None else visit_map deny names members seen)
      else if seen key \<noteq> None then None
      else visit_map deny names members (seen(key \<mapsto> v)))"

definition de_struct :: "bool \<Rightarrow> string list \<Rightarrow> (string \<rightharpoonup> json) de" where
  "de_struct deny names j =
     (case j of
        JObject members \<Rightarrow> visit_map deny names members Map.empty
      | JArray vs \<Rightarrow> if length vs \<le> length names then Some (map_of (zip names vs)) else None
      | _ \<Rightarrow> None)"

definition de_field :: "(string \<rightharpoonup> json) \<Rightarrow> string \<Rightarrow> 'a de \<Rightarrow> 'a option" where
  "de_field seen name de = (case seen name of None \<Rightarrow> None | Some v \<Rightarrow> de v)"

text \<open>A field with \<open>#[serde(default)]\<close>: absent it is the default, present it is decoded.\<close>

definition de_field_or :: "(string \<rightharpoonup> json) \<Rightarrow> string \<Rightarrow> 'a \<Rightarrow> 'a de \<Rightarrow> 'a option" where
  "de_field_or seen name default_value de = (case seen name of None \<Rightarrow> Some default_value | Some v \<Rightarrow> de v)"

definition de_bool :: "bool de" where
  "de_bool j = (case j of JBool b \<Rightarrow> Some b | _ \<Rightarrow> None)"

definition de_option :: "'a de \<Rightarrow> 'a option de" where
  "de_option de j = (if j = JNull then Some None else map_option Some (de j))"

text \<open>
  \<open>serde_json::Value\<close>: an object becomes a \<open>BTreeMap\<close>, member by member in the order of the text, so
  the last of repeated members stays.
\<close>

definition collect_members :: "(string \<times> json) list \<Rightarrow> (string, json) btree_map" where
  "collect_members members = foldl (\<lambda>m (key, v). bt_insert key v m) bt_empty members"

fun value_of :: "json \<Rightarrow> json" where
  "value_of (JArray vs) = JArray (map value_of vs)"
| "value_of (JObject members) = JObject (collect_members (map (\<lambda>(key, v). (key, value_of v)) members))"
| "value_of v = v"

definition de_value :: "json de" where
  "de_value j = Some (value_of j)"

section \<open>Decoders and the order of members\<close>

lemma visit_map_eq:
  assumes "dom seen \<subseteq> set names"
  shows "visit_map deny names members seen =
    (let known = filter (\<lambda>m. fst m \<in> set names) members in
     if distinct (map fst known) \<and> fst ` set known \<inter> dom seen = {} \<and> (deny \<longrightarrow> known = members)
     then Some (seen ++ map_of known) else None)"
  using assms
proof (induction members arbitrary: seen)
  case (Cons m members)
  obtain key v where m: "m = (key, v)" by fastforce
  let ?known = "filter (\<lambda>m. fst m \<in> set names) members"
  have shrink: "?known \<noteq> m # members" by (metis impossible_Cons length_filter_le)
  show ?case
  proof (cases "key \<in> set names \<and> seen key = None")
    case True
    have fresh: "insert key (fst ` set ?known) \<inter> dom seen = {} \<and> key \<notin> fst ` set ?known
        \<longleftrightarrow> fst ` set ?known \<inter> dom (seen(key \<mapsto> v)) = {}"
      using True by auto
    have upd: "seen ++ map_of ((key, v) # ?known) = seen(key \<mapsto> v) ++ map_of ?known"
      if "key \<notin> fst ` set ?known"
      using that by (simp add: map_add_upd_left dom_map_of_conv_image_fst)
    have "dom (seen(key \<mapsto> v)) \<subseteq> set names" using True Cons.prems by auto
    from Cons.IH [OF this] show ?thesis
      using True fresh upd by (auto simp: m Let_def simp del: map_of.simps fun_upd_apply)
  next
    case False
    then consider "key \<notin> set names" | "key \<in> set names" "key \<in> dom seen" by auto
    then show ?thesis
    proof cases
      case 1
      with Cons.IH [OF Cons.prems] shrink show ?thesis by (cases deny) (simp_all add: m Let_def)
    next
      case 2
      then show ?thesis by (auto simp: m Let_def)
    qed
  qed
qed (simp add: Let_def)

text \<open>The members that are fields, each at most once, and with \<open>deny\<close> no others.\<close>

lemma visit_map_empty:
  "visit_map deny names members Map.empty =
    (let known = filter (\<lambda>m. fst m \<in> set names) members in
     if distinct (map fst known) \<and> (deny \<longrightarrow> known = members) then Some (map_of known) else None)"
  by (simp add: visit_map_eq Let_def)

lemma map_of_map_snd: "map_of (map (\<lambda>(k, v). (k, f v)) kvs) k = map_option f (map_of kvs k)"
  by (induction kvs) auto

lemma map_of_sort_key:
  assumes "distinct (map fst kvs)"
  shows "map_of (sort_key fst kvs) = map_of kvs"
proof -
  have "mset (map fst (sort_key fst kvs)) = mset (map fst kvs)" by (simp only: mset_map mset_sort)
  then have "distinct (map fst (sort_key fst kvs)) \<longleftrightarrow> distinct (map fst kvs)" by (rule mset_eq_imp_distinct_iff)
  with assms show ?thesis by (simp add: map_of_inject_set)
qed

definition member_canon :: "(string \<rightharpoonup> json) \<Rightarrow> (string \<rightharpoonup> json)" where
  "member_canon seen = (\<lambda>k. map_option canon (seen k))"

lemma visit_map_canon:
  "visit_map deny names (sort_key fst (map (\<lambda>(k, v). (k, canon v)) members)) Map.empty =
     map_option member_canon (visit_map deny names members Map.empty)"
proof -
  let ?c = "map (\<lambda>(k, v). (k, canon v))"
  let ?P = "\<lambda>m :: string \<times> json. fst m \<in> set names"
  let ?known = "filter ?P members"
  have known: "filter ?P (sort_key fst (?c members)) = sort_key fst (?c ?known)"
    by (simp add: filter_sort filter_map comp_def case_prod_beta)
  have keys: "distinct (map fst (sort_key fst (?c ?known))) \<longleftrightarrow> distinct (map fst ?known)"
  proof -
    have "mset (map fst (sort_key fst (?c ?known))) = mset (map fst (?c ?known))" by (simp only: mset_map mset_sort)
    also have "map fst (?c ?known) = map fst ?known" by (simp add: comp_def case_prod_beta)
    finally show ?thesis by (rule mset_eq_imp_distinct_iff)
  qed
  have all: "sort_key fst (?c ?known) = sort_key fst (?c members) \<longleftrightarrow> ?known = members"
  proof
    assume "sort_key fst (?c ?known) = sort_key fst (?c members)"
    then have "length (sort_key fst (?c ?known)) = length (sort_key fst (?c members))" by (rule arg_cong)
    then have "length ?known = length members" by simp
    then have "?P m" if "m \<in> set members" for m
      using length_filter_less [of m members ?P] that by auto
    then show "?known = members" by (simp add: filter_id_conv)
  qed simp
  have val: "map_of (sort_key fst (?c ?known)) = member_canon (map_of ?known)" if "distinct (map fst ?known)"
  proof -
    have "map fst (?c ?known) = map fst ?known" by (simp add: comp_def case_prod_beta)
    then have "distinct (map fst (?c ?known))" using that by (simp only:)
    then have "map_of (sort_key fst (?c ?known)) = map_of (?c ?known)" by (rule map_of_sort_key)
    then show ?thesis by (simp only: member_canon_def fun_eq_iff map_of_map_snd) simp
  qed
  show ?thesis unfolding visit_map_empty Let_def known keys all using val by auto
qed

definition respects_canon :: "'a de \<Rightarrow> bool" where
  "respects_canon de \<longleftrightarrow> (\<forall>j. de (canon j) = de j)"

lemma respects_canonD: "respects_canon de \<Longrightarrow> de (canon j) = de j"
  by (simp add: respects_canon_def)

lemma de_struct_canon: "de_struct deny names (canon j) = map_option member_canon (de_struct deny names j)"
proof (cases j)
  case (JArray vs)
  have "map_of (zip names (map canon vs)) = member_canon (map_of (zip names vs))"
    by (simp add: fun_eq_iff member_canon_def zip_map2 map_of_map_snd)
  with JArray show ?thesis by (simp add: de_struct_def)
qed (simp_all add: de_struct_def visit_map_canon)

lemma de_field_canon: "respects_canon de \<Longrightarrow> de_field (member_canon seen) name de = de_field seen name de"
  by (cases "seen name") (simp_all add: de_field_def member_canon_def respects_canonD)

lemma respects_canon_struct:
  assumes "\<And>seen. build (member_canon seen) = build seen"
  shows "respects_canon (\<lambda>j. Option.bind (de_struct deny names j) build)"
  unfolding respects_canon_def
proof
  fix j
  show "Option.bind (de_struct deny names (canon j)) build = Option.bind (de_struct deny names j) build"
    by (cases "de_struct deny names j") (simp_all add: de_struct_canon assms)
qed

lemma respects_canon_scalars:
  "respects_canon de_string" "respects_canon de_u8" "respects_canon de_u64"
  by (auto simp: respects_canon_def de_string_def de_u8_def de_u64_def split: json.split)

lemma respects_canon_vec: "respects_canon de \<Longrightarrow> respects_canon (de_vec de)"
  by (auto simp: respects_canon_def de_vec_def comp_def split: json.split)

lemma respects_canon_new: "respects_canon de \<Longrightarrow> respects_canon (de_new de new)"
  by (auto simp: respects_canon_def de_new_def)

lemma respects_canon_unit_variant: "respects_canon (de_unit_variant variants)"
  unfolding respects_canon_def
proof
  fix j
  show "de_unit_variant variants (canon j) = de_unit_variant variants j"
  proof (cases j)
    case (JObject kvs)
    show ?thesis
    proof (cases "\<exists>k v. kvs = [(k, v)]")
      case True
      then obtain k v where "kvs = [(k, v)]" by blast
      with JObject show ?thesis by (cases v) (simp_all add: de_unit_variant_def)
    next
      case False
      let ?ms = "sort_key fst (map (\<lambda>(k, v). (k, canon v)) kvs)"
      have "length ?ms = length kvs" by simp
      with False have "\<not> (\<exists>k v. ?ms = [(k, v)])"
        by (metis One_nat_def length_0_conv length_Suc_conv prod.exhaust)
      with False JObject show ?thesis by (auto simp: de_unit_variant_def split: list.split json.split)
    qed
  qed (simp_all add: de_unit_variant_def)
qed

lemma canon_JNull: "canon j = JNull \<longleftrightarrow> j = JNull"
  by (cases j) simp_all

lemma respects_canon_option: "respects_canon de \<Longrightarrow> respects_canon (de_option de)"
  by (simp add: respects_canon_def de_option_def canon_JNull)

lemma respects_canon_bool: "respects_canon de_bool"
  by (simp add: respects_canon_def de_bool_def split: json.split)

lemma respects_canon_bind: "respects_canon de \<Longrightarrow> respects_canon (\<lambda>j. Option.bind (de j) f)"
  by (simp add: respects_canon_def)

lemma de_field_or_canon:
  "respects_canon de \<Longrightarrow> de_field_or (member_canon seen) name d de = de_field_or seen name d de"
  by (cases "seen name") (simp_all add: de_field_or_def member_canon_def respects_canonD)

lemma map_of_rev_filter: "map_of (rev kvs) k = map_of (rev (filter (\<lambda>m. fst m = k) kvs)) k"
  by (induction kvs) (auto simp: map_add_def split: option.split)

text \<open>Sorting by key is stable, so the last member of each key stays the last.\<close>

lemma map_of_rev_sort_key: "map_of (rev (sort_key fst kvs)) = map_of (rev kvs)"
proof
  fix k show "map_of (rev (sort_key fst kvs)) k = map_of (rev kvs) k"
    by (metis map_of_rev_filter sort_key_stable)
qed

lemma collect_members_invar: "bt_invar (collect_members kvs)"
  and bt_get_collect: "bt_get (collect_members kvs) = map_of (rev kvs)"
proof -
  have "bt_invar (collect_members kvs) \<and> bt_get (collect_members kvs) = map_of (rev kvs)"
  proof (induction kvs rule: rev_induct)
    case Nil
    show ?case by (simp add: collect_members_def bt_empty_def bt_invar_def fun_eq_iff)
  next
    case (snoc m kvs)
    then show ?case by (cases m) (simp add: collect_members_def bt_invar_insert bt_get_insert)
  qed
  then show "bt_invar (collect_members kvs)" and "bt_get (collect_members kvs) = map_of (rev kvs)" by simp_all
qed

lemma collect_members_sort: "collect_members (sort_key fst kvs) = collect_members kvs"
  by (rule bt.invar_get_ext) (simp_all add: collect_members_invar bt_get_collect map_of_rev_sort_key)

lemma value_of_canon: "value_of (canon j) = value_of j"
proof (induction j rule: canon.induct)
  case (2 kvs)
  have "map (\<lambda>(key, v). (key, value_of v)) (map (\<lambda>(k, v). (k, canon v)) kvs) = map (\<lambda>(key, v). (key, value_of v)) kvs"
    using 2 by fastforce
  moreover have "map (\<lambda>(key, v). (key, value_of v)) (sort_key fst xs) = sort_key fst (map (\<lambda>(key, v). (key, value_of v)) xs)"
    for xs :: "(string \<times> json) list" by (rule map_sort_key_fst) (simp add: case_prod_beta)
  ultimately show ?case by (simp only: canon.simps value_of.simps collect_members_sort)
qed simp_all

lemma respects_canon_value: "respects_canon de_value"
  by (simp add: respects_canon_def de_value_def value_of_canon)

lemmas respects_canon_intros = respects_canon_scalars respects_canon_vec respects_canon_new
  respects_canon_unit_variant respects_canon_option respects_canon_bool respects_canon_bind respects_canon_value

section \<open>Reading back\<close>

lemma those_map_Some: "(\<And>x. x \<in> set xs \<Longrightarrow> f (g x) = Some x) \<Longrightarrow> those (map f (map g xs)) = Some xs"
  by (induction xs) auto

lemma de_vec_back: "(\<And>x. x \<in> set xs \<Longrightarrow> de (g x) = Some x) \<Longrightarrow> de_vec de (JArray (map g xs)) = Some xs"
  unfolding de_vec_def by (simp only: json.case those_map_Some)

lemma those_eq_Some: "those xs = Some ys \<longleftrightarrow> xs = map Some ys"
  by (induction xs arbitrary: ys) (auto split: option.splits)

lemma those_mapE:
  assumes "those (map f vs) = Some xs" and "x \<in> set xs"
  obtains v where "v \<in> set vs" and "f v = Some x"
proof -
  from assms(1) have "map f vs = map Some xs" by (simp add: those_eq_Some)
  with assms(2) have "Some x \<in> f ` set vs" by (metis image_eqI image_set list.set_map)
  with that show ?thesis by auto
qed

lemma de_new_eq_Some: "de_new de new j = Some x \<longleftrightarrow> (\<exists>v. de j = Some v \<and> new v = Inr x)"
  by (auto simp: de_new_def split: Option.bind_split sum.split)

lemma de_vec_eq_Some: "de_vec de j = Some xs \<longleftrightarrow> (\<exists>vs. j = JArray vs \<and> those (map de vs) = Some xs)"
  by (cases j) (simp_all add: de_vec_def)

lemma de_field_eq_Some: "de_field seen name de = Some x \<longleftrightarrow> (\<exists>v. seen name = Some v \<and> de v = Some x)"
  by (cases "seen name") (simp_all add: de_field_def)

lemma de_number [simp]:
  "de_u8 (JNumber (uint b)) = Some b"
  "de_u64 (JNumber (uint n)) = Some n"
  using uint_lt2p [of b] uint_lt2p [of n] by (simp_all add: de_u8_def de_u64_def)

end
