(* ===== verification/Timestamp.thy ===== *)
theory Timestamp
  imports Prelude
begin

text \<open>
  The \<open>generated_at\<close> field of a manifest, \<open>valid_utc_timestamp\<close> and \<open>decimal\<close> of
  \<open>policy/src/contract.rs\<close>.  \<open>decimal\<close> computes on \<open>u32\<close>; its callers pass slices of two or four
  bytes, so its values stay below 10000 and \<^typ>\<open>nat\<close> gives the same result.
\<close>

section \<open>Definitions\<close>

fun decimal_from :: "nat \<Rightarrow> string \<Rightarrow> nat option" where
  "decimal_from value [] = Some value"
| "decimal_from value (byte # bytes) =
     (if is_ascii_digit byte then decimal_from (value * 10 + digit_val byte) bytes else None)"

definition decimal :: "string \<Rightarrow> nat option" where
  "decimal bytes = decimal_from 0 bytes"

definition days_in_month :: "nat \<Rightarrow> nat \<Rightarrow> nat option" where
  "days_in_month year month =
     (let leap_year = year mod 4 = 0 \<and> (year mod 100 \<noteq> 0 \<or> year mod 400 = 0)
      in if month \<in> {1, 3, 5, 7, 8, 10, 12} then Some 31
         else if month \<in> {4, 6, 9, 11} then Some 30
         else if month = 2 \<and> leap_year then Some 29
         else if month = 2 then Some 28
         else None)"

definition valid_utc_timestamp :: "string \<Rightarrow> bool" where
  "valid_utc_timestamp value =
     (if length value < 20
         \<or> \<not> ends_with (CHR ''Z'') value
         \<or> byte_at value 4 \<noteq> Some (CHR ''-'')
         \<or> byte_at value 7 \<noteq> Some (CHR ''-'')
         \<or> byte_at value 10 \<noteq> Some (CHR ''T'')
         \<or> byte_at value 13 \<noteq> Some (CHR '':'')
         \<or> byte_at value 16 \<noteq> Some (CHR '':'')
      then False
      else let fraction = byte_slice 19 (length value - 1) value in
        if fraction \<noteq> [] \<and> (byte_at fraction 0 \<noteq> Some (CHR ''.'') \<or> length fraction = 1
             \<or> \<not> list_all is_ascii_digit (drop 1 fraction))
        then False
        else (case (decimal (byte_slice 0 4 value), decimal (byte_slice 5 7 value), decimal (byte_slice 8 10 value),
                    decimal (byte_slice 11 13 value), decimal (byte_slice 14 16 value), decimal (byte_slice 17 19 value)) of
                (Some year, Some month, Some day, Some hour, Some minute, Some second) \<Rightarrow>
                  (case days_in_month year month of
                     None \<Rightarrow> False
                   | Some days \<Rightarrow> year > 0 \<and> 1 \<le> day \<and> day \<le> days \<and> hour \<le> 23 \<and> minute \<le> 59 \<and> second \<le> 59)
              | _ \<Rightarrow> False))"

section \<open>What a timestamp says\<close>

text \<open>
  The reference: an RFC 3339 date-time in UTC, written from a calendar date of the Gregorian
  calendar, a time of day and an optional fraction of a second.
\<close>

fun pad :: "nat \<Rightarrow> nat \<Rightarrow> string" where
  "pad 0 n = []"
| "pad (Suc w) n = pad w (n div 10) @ [digit_char (n mod 10)]"

definition rfc3339 :: "nat \<Rightarrow> nat \<Rightarrow> nat \<Rightarrow> nat \<Rightarrow> nat \<Rightarrow> nat \<Rightarrow> string \<Rightarrow> string" where
  "rfc3339 y mo d h mi s fraction =
     pad 4 y @ ''-'' @ pad 2 mo @ ''-'' @ pad 2 d @ ''T''
     @ pad 2 h @ '':'' @ pad 2 mi @ '':'' @ pad 2 s @ fraction @ ''Z''"

definition month_length :: "nat \<Rightarrow> nat \<Rightarrow> nat" where
  "month_length y mo =
     [31, if 4 dvd y \<and> \<not> 100 dvd y \<or> 400 dvd y then 29 else 28,
      31, 30, 31, 30, 31, 31, 30, 31, 30, 31] ! (mo - 1)"

definition calendar_date :: "nat \<Rightarrow> nat \<Rightarrow> nat \<Rightarrow> bool" where
  "calendar_date y mo d \<longleftrightarrow>
     1 \<le> y \<and> y \<le> 9999 \<and> 1 \<le> mo \<and> mo \<le> 12 \<and> 1 \<le> d \<and> d \<le> month_length y mo"

definition fraction_ok :: "string \<Rightarrow> bool" where
  "fraction_ok fraction \<longleftrightarrow>
     fraction = [] \<or> (\<exists>ds. ds \<noteq> [] \<and> list_all is_ascii_digit ds \<and> fraction = CHR ''.'' # ds)"

section \<open>Lemmas\<close>

lemma decimal_from_iff:
  "decimal_from v s = Some n \<longleftrightarrow>
     list_all is_ascii_digit s \<and> n = foldl (\<lambda>v c. v * 10 + digit_val c) v s"
  by (induction v s rule: decimal_from.induct) auto

lemma decimal_iff: "decimal s = Some n \<longleftrightarrow> list_all is_ascii_digit s \<and> n = dec_value s"
  by (simp add: decimal_def dec_value_def decimal_from_iff)

lemma pad_digits: "list_all is_ascii_digit (pad w n)"
  by (induction w n rule: pad.induct) simp_all

lemma length_pad [simp]: "length (pad w n) = w"
  by (induction w n rule: pad.induct) simp_all

lemma dec_value_pad: "n < 10 ^ w \<Longrightarrow> dec_value (pad w n) = n"
proof (induction w n rule: pad.induct)
  case (2 w n)
  then have "n div 10 < 10 ^ w" by (simp add: less_mult_imp_div_less)
  with 2 show ?case by simp
qed simp

lemma pad_dec_value: "list_all is_ascii_digit s \<Longrightarrow> pad (length s) (dec_value s) = s"
proof (induction s rule: rev_induct)
  case (snoc c s)
  then have "digit_val c < 10" by (simp add: digit_val_less)
  with snoc show ?case by (simp add: digit_char_inverse)
qed simp

text \<open>A field of a fixed width, read and written.\<close>

lemma field_iff:
  "length s = w \<Longrightarrow> decimal s = Some n \<longleftrightarrow> n < 10 ^ w \<and> s = pad w n"
  using dec_value_bound [of s] pad_dec_value [of s] dec_value_pad [of n w] pad_digits [of w n]
  by (auto simp: decimal_iff)

lemma days_in_month_table:
  "list_all (\<lambda>mo. days_in_month y mo = Some (month_length y mo)) [1, 2, 3, 4, 5, 6, 7, 8, 9, 10, 11, 12]"
proof -
  define leap where "leap = (y mod 4 = 0 \<and> (y mod 100 \<noteq> 0 \<or> y mod 400 = 0))"
  have "(4 dvd y \<and> \<not> 100 dvd y \<or> 400 dvd y) = leap"
    using dvd_trans [of 4 400 y] unfolding leap_def dvd_eq_mod_eq_0 by auto
  moreover from leap_def have "(y mod 4 = 0 \<and> (y mod 100 \<noteq> 0 \<or> y mod 400 = 0)) = leap" by simp
  ultimately show ?thesis
    unfolding days_in_month_def month_length_def Let_def by (cases leap) simp_all
qed

lemma days_in_month_iff:
  "days_in_month y mo = Some days \<longleftrightarrow> 1 \<le> mo \<and> mo \<le> 12 \<and> days = month_length y mo"
proof (cases "1 \<le> mo \<and> mo \<le> 12")
  case True
  then have "mo \<in> set [1..<13]" by (simp only: set_upt atLeastLessThan_iff) simp
  moreover have "[1..<13] = [1, 2, 3, 4, 5, 6, 7, 8, 9, 10, 11, 12]" by code_simp
  ultimately have "days_in_month y mo = Some (month_length y mo)"
    using days_in_month_table [of y] unfolding list_all_iff by (metis (no_types, lifting))
  with True show ?thesis by auto
next
  case False
  then show ?thesis by (auto simp: days_in_month_def)
qed

lemma fraction_ok_iff:
  "fraction_ok fr \<longleftrightarrow> \<not> (fr \<noteq> [] \<and> (byte_at fr 0 \<noteq> Some (CHR ''.'') \<or> length fr = 1
     \<or> \<not> list_all is_ascii_digit (drop 1 fr)))"
  by (cases fr) (auto simp: fraction_ok_def byte_at_def)

text \<open>The nineteen leading bytes, the fraction and the final byte, cut at the code's offsets.\<close>

lemma cut_timestamp:
  assumes "20 \<le> length v"
  shows "v = byte_slice 0 4 v @ [v ! 4] @ byte_slice 5 7 v @ [v ! 7] @ byte_slice 8 10 v @ [v ! 10]
    @ byte_slice 11 13 v @ [v ! 13] @ byte_slice 14 16 v @ [v ! 16] @ byte_slice 17 19 v
    @ byte_slice 19 (length v - 1) v @ [last v]"
proof -
  note step = byte_slice_split [of _ _ "length v" v]
  have nth: "byte_slice i (length v) v = [v ! i] @ byte_slice (Suc i) (length v) v" if "i < length v" for i
    using that step [of i "Suc i"] byte_slice_nth [of i v] by simp
  have "v = byte_slice 0 (length v) v" by (simp add: byte_slice_def)
  also have "\<dots> = byte_slice 0 4 v @ byte_slice 4 (length v) v" using assms step [of 0 4] by simp
  also have "byte_slice 4 (length v) v = [v ! 4] @ byte_slice 5 7 v @ byte_slice 7 (length v) v"
    using assms nth [of 4] step [of 5 7] by simp
  also have "byte_slice 7 (length v) v = [v ! 7] @ byte_slice 8 10 v @ byte_slice 10 (length v) v"
    using assms nth [of 7] step [of 8 10] by simp
  also have "byte_slice 10 (length v) v = [v ! 10] @ byte_slice 11 13 v @ byte_slice 13 (length v) v"
    using assms nth [of 10] step [of 11 13] by simp
  also have "byte_slice 13 (length v) v = [v ! 13] @ byte_slice 14 16 v @ byte_slice 16 (length v) v"
    using assms nth [of 13] step [of 14 16] by simp
  also have "byte_slice 16 (length v) v = [v ! 16] @ byte_slice 17 19 v @ byte_slice 19 (length v) v"
    using assms nth [of 16] step [of 17 19] by simp
  also have "byte_slice 19 (length v) v = byte_slice 19 (length v - 1) v @ [last v]"
  proof -
    from assms have "Suc (length v - 1) = length v" and "v \<noteq> []" by auto
    then have "byte_slice (length v - 1) (length v) v = [last v]"
      using byte_slice_nth [of "length v - 1" v] by (simp add: last_conv_nth)
    with assms show ?thesis using step [of 19 "length v - 1"] by simp
  qed
  finally show ?thesis by simp
qed

lemma rfc3339_cuts:
  fixes y mo d h mi s fraction
  defines "v \<equiv> rfc3339 y mo d h mi s fraction"
  shows "20 \<le> length v" and "last v = CHR ''Z''"
    and "v ! 4 = CHR ''-''" and "v ! 7 = CHR ''-''" and "v ! 10 = CHR ''T''"
    and "v ! 13 = CHR '':''" and "v ! 16 = CHR '':''"
    and "byte_slice 0 4 v = pad 4 y" and "byte_slice 5 7 v = pad 2 mo" and "byte_slice 8 10 v = pad 2 d"
    and "byte_slice 11 13 v = pad 2 h" and "byte_slice 14 16 v = pad 2 mi" and "byte_slice 17 19 v = pad 2 s"
    and "byte_slice 19 (length v - 1) v = fraction"
  by (simp_all add: v_def rfc3339_def byte_slice_def nth_append)

lemma timestamp_sound:
  assumes valid: "valid_utc_timestamp v"
  obtains y mo d h mi s fraction where "v = rfc3339 y mo d h mi s fraction"
    "calendar_date y mo d" "h \<le> 23" "mi \<le> 59" "s \<le> 59" "fraction_ok fraction"
proof -
  from valid have len: "20 \<le> length v" by (auto simp: valid_utc_timestamp_def split: if_splits)
  with valid have seps: "last v = CHR ''Z''" "v ! 4 = CHR ''-''" "v ! 7 = CHR ''-''"
      "v ! 10 = CHR ''T''" "v ! 13 = CHR '':''" "v ! 16 = CHR '':''"
    and fr: "fraction_ok (byte_slice 19 (length v - 1) v)"
    unfolding fraction_ok_iff
    by (auto simp: valid_utc_timestamp_def byte_at_def ends_with_def Let_def split: if_splits)
  from valid len obtain y mo d h mi s days where
      f: "decimal (byte_slice 0 4 v) = Some y" "decimal (byte_slice 5 7 v) = Some mo"
        "decimal (byte_slice 8 10 v) = Some d" "decimal (byte_slice 11 13 v) = Some h"
        "decimal (byte_slice 14 16 v) = Some mi" "decimal (byte_slice 17 19 v) = Some s"
    and "days_in_month y mo = Some days" "0 < y" "1 \<le> d" "d \<le> days"
    and t: "h \<le> 23" "mi \<le> 59" "s \<le> 59"
    by (auto simp: valid_utc_timestamp_def Let_def split: if_splits option.splits)
  moreover from f len have w: "y < 10 ^ 4" "byte_slice 0 4 v = pad 4 y"
      "byte_slice 5 7 v = pad 2 mo" "byte_slice 8 10 v = pad 2 d" "byte_slice 11 13 v = pad 2 h"
      "byte_slice 14 16 v = pad 2 mi" "byte_slice 17 19 v = pad 2 s"
    by (auto simp: field_iff length_byte_slice)
  ultimately have "calendar_date y mo d"
    by (simp add: calendar_date_def days_in_month_iff)
  moreover have "v = rfc3339 y mo d h mi s (byte_slice 19 (length v - 1) v)"
    using cut_timestamp [OF len] unfolding rfc3339_def w seps by simp
  ultimately show ?thesis using t fr that by blast
qed

lemma timestamp_complete:
  assumes v: "v = rfc3339 y mo d h mi s fraction" and c: "calendar_date y mo d"
    and t: "h \<le> 23" "mi \<le> 59" "s \<le> 59" and fr: "fraction_ok fraction"
  shows "valid_utc_timestamp v"
proof -
  note cuts = rfc3339_cuts [of y mo d h mi s fraction, folded v]
  from c have "month_length y mo \<le> 31"
    using days_in_month_iff [of y mo "month_length y mo"]
    by (auto simp: calendar_date_def days_in_month_def Let_def split: if_splits)
  with c t have fields: "decimal (pad 4 y) = Some y" "decimal (pad 2 mo) = Some mo"
      "decimal (pad 2 d) = Some d" "decimal (pad 2 h) = Some h"
      "decimal (pad 2 mi) = Some mi" "decimal (pad 2 s) = Some s"
    by (simp_all add: field_iff calendar_date_def)
  have ends: "ends_with (CHR ''Z'') v" using cuts(1,2) by (auto simp: ends_with_def)
  have seps: "byte_at v 4 = Some (CHR ''-'')" "byte_at v 7 = Some (CHR ''-'')"
      "byte_at v 10 = Some (CHR ''T'')" "byte_at v 13 = Some (CHR '':'')"
      "byte_at v 16 = Some (CHR '':'')"
    using cuts(1,3-7) by (simp_all add: byte_at_def)
  have days: "days_in_month y mo = Some (month_length y mo)"
    using c by (simp add: days_in_month_iff calendar_date_def)
  from fr have "fraction_ok (byte_slice 19 (length v - 1) v)" by (simp only: cuts(14))
  then show ?thesis
    using cuts(1) c t
    by (simp add: valid_utc_timestamp_def Let_def ends seps cuts(8-13) fields days
        fraction_ok_iff calendar_date_def)
qed

section \<open>Properties\<close>

text \<open>
  C5: \<open>valid_utc_timestamp\<close> accepts exactly the RFC 3339 UTC texts: a calendar date with the
  Gregorian month lengths between year 1 and year 9999, a time of day up to 23:59:59, an optional
  non-empty decimal fraction, and a final \<open>Z\<close>.
\<close>

theorem valid_utc_timestamp_iff:
  "valid_utc_timestamp v \<longleftrightarrow>
     (\<exists>y mo d h mi s fraction.
        v = rfc3339 y mo d h mi s fraction
        \<and> calendar_date y mo d \<and> h \<le> 23 \<and> mi \<le> 59 \<and> s \<le> 59 \<and> fraction_ok fraction)"
  by (blast elim: timestamp_sound intro: timestamp_complete)

end
