(* ===== verification/Contract.thy ===== *)
theory Contract
  imports Canonical_Json Timestamp
begin

text \<open>
  The gateway contract, \<open>policy/src/contract.rs\<close> without the two functions of
  \<open>Timestamp\<close> and \<open>Canonical_Json\<close>: manifests, their digests, state reports, deliveries and
  acknowledgements, and \<open>VpnPolicy::manifest\<close>.

  Two functions of other crates are the fields of the parameter \<open>codec\<close>: quoting a string
  (serde_json) and the lower-case hexadecimal text of a SHA-256 digest (sha2).  \<open>codec_ok\<close> states
  what is relied on.  \<open>serde_json::to_value\<close> cannot fail on these types, whose \<open>Serialize\<close>
  implementations are derived or print a text, so the values are written out directly.
\<close>

section \<open>Definitions\<close>

record codec =
  cd_quote :: "string \<Rightarrow> string option"
  cd_sha256_hex :: "string \<Rightarrow> string"

definition SCHEMA_VERSION :: u8 where
  "SCHEMA_VERSION = 1"

definition WG_USERS :: string where
  "WG_USERS = ''wg-users''"

definition WG_NODES :: string where
  "WG_NODES = ''wg-nodes''"

datatype gateway_id = GatewayId (gateway_peer_id: peer_id)

definition GatewayId_new :: "string \<Rightarrow> policy_error + gateway_id" where
  "GatewayId_new value = map_ok GatewayId (PeerId_new value)"

subsection \<open>Manifests\<close>

record gateway_peer =
  gp_peer_id :: peer_id
  gp_public_key :: wg_public_key
  gp_address :: overlay_address
  gp_health_policy :: health_policy
  gp_permissions :: "permission list"

definition GatewayPeer_from :: "vpn_peer \<Rightarrow> gateway_peer" where
  "GatewayPeer_from peer =
     \<lparr>gp_peer_id = vp_peer_id peer, gp_public_key = vp_public_key peer, gp_address = vp_address peer,
      gp_health_policy = vp_health_policy peer, gp_permissions = permissions peer\<rparr>"

record peer_manifest =
  pm_schema_version :: u8
  pm_interface :: string
  pm_generation :: generation
  pm_generated_at :: string
  pm_peers :: "gateway_peer list"

text \<open>The loop over the sorted peers; \<open>HashSet::insert\<close> is false when the value was present.\<close>

fun check_unique ::
    "peer_id set \<Rightarrow> wg_public_key set \<Rightarrow> overlay_address set \<Rightarrow> gateway_peer list \<Rightarrow> policy_error + unit" where
  "check_unique peer_ids public_keys addresses [] = Inr ()"
| "check_unique peer_ids public_keys addresses (peer # peers) =
     (if gp_peer_id peer \<in> peer_ids \<or> gp_public_key peer \<in> public_keys \<or> gp_address peer \<in> addresses
      then Inl DuplicatePeerIdentity
      else check_unique (insert (gp_peer_id peer) peer_ids) (insert (gp_public_key peer) public_keys)
             (insert (gp_address peer) addresses) peers)"

definition PeerManifest_new ::
    "generation \<Rightarrow> string \<Rightarrow> vpn_peer list \<Rightarrow> policy_error + peer_manifest" where
  "PeerManifest_new generation generated_at peers =
     (if \<not> valid_utc_timestamp generated_at then Inl InvalidGeneratedAt
      else let peers = map GatewayPeer_from peers in
        if length peers > 253 then Inl TooManyPeers
        else let peers = sort_key gp_peer_id peers in
          (case check_unique {} {} {} peers of
             Inl e \<Rightarrow> Inl e
           | Inr _ \<Rightarrow>
               Inr \<lparr>pm_schema_version = SCHEMA_VERSION, pm_interface = WG_USERS,
                    pm_generation = generation, pm_generated_at = generated_at, pm_peers = peers\<rparr>))"

definition policy_manifest :: "vpn_policy \<Rightarrow> string \<Rightarrow> policy_error + peer_manifest" where
  "policy_manifest p generated_at = PeerManifest_new (pol_generation p) generated_at (policy_peers p)"

text \<open>The derived \<open>Serialize\<close> implementations.\<close>

fun health_policy_str :: "health_policy \<Rightarrow> string" where
  "health_policy_str Required = ''required''"
| "health_policy_str OnDemand = ''on_demand''"

fun permission_str :: "permission \<Rightarrow> string" where
  "permission_str Egress = ''egress''"
| "permission_str Games = ''games''"

definition gateway_peer_value :: "gateway_peer \<Rightarrow> json" where
  "gateway_peer_value peer = JObject
     [(''peer_id'', JString (peer_str (gp_peer_id peer))),
      (''public_key'', JString (key_str (gp_public_key peer))),
      (''address'', JString (overlay_address_str (gp_address peer))),
      (''health_policy'', JString (health_policy_str (gp_health_policy peer))),
      (''permissions'', JArray (map (JString \<circ> permission_str) (gp_permissions peer)))]"

definition manifest_value :: "peer_manifest \<Rightarrow> json" where
  "manifest_value m = JObject
     [(''schema_version'', JNumber (uint (pm_schema_version m))),
      (''interface'', JString (pm_interface m)),
      (''generation'', JNumber (uint (generation_get (pm_generation m)))),
      (''generated_at'', JString (pm_generated_at m)),
      (''peers'', JArray (map gateway_peer_value (pm_peers m)))]"

datatype manifest_digest = ManifestDigest (digest_str: string)

definition lower_hex :: "char \<Rightarrow> bool" where
  "lower_hex c \<longleftrightarrow> is_ascii_digit c \<or> 97 \<le> (of_char c :: nat) \<and> of_char c \<le> (102 :: nat)"

definition ManifestDigest_new :: "string \<Rightarrow> policy_error + manifest_digest" where
  "ManifestDigest_new value =
     (if length value = 64 \<and> list_all lower_hex value then Inr (ManifestDigest value)
      else Inl Serialization)"

definition manifest_digest_of :: "codec \<Rightarrow> peer_manifest \<Rightarrow> policy_error + manifest_digest" where
  "manifest_digest_of cd m =
     and_then (write_canonical_json (cd_quote cd) (manifest_value m) [])
       (\<lambda>canonical. Inr (ManifestDigest (cd_sha256_hex cd canonical)))"

subsection \<open>State reports\<close>

record applied_interface =
  ai_interface :: string
  ai_generation :: generation
  ai_manifest_digest :: manifest_digest

definition AppliedInterface_wg_users :: "generation \<Rightarrow> manifest_digest \<Rightarrow> applied_interface" where
  "AppliedInterface_wg_users g d =
     \<lparr>ai_interface = WG_USERS, ai_generation = g, ai_manifest_digest = d\<rparr>"

definition is_wg_users :: "applied_interface \<Rightarrow> bool" where
  "is_wg_users state \<longleftrightarrow> ai_interface state = WG_USERS"

record gateway_state_report =
  gsr_schema_version :: u8
  gsr_gateway_id :: gateway_id
  gsr_applied :: "applied_interface list"

definition GatewayStateReport_new :: "gateway_id \<Rightarrow> applied_interface list \<Rightarrow> gateway_state_report" where
  "GatewayStateReport_new gid applied =
     \<lparr>gsr_schema_version = SCHEMA_VERSION, gsr_gateway_id = gid, gsr_applied = applied\<rparr>"

definition report_wg_users :: "gateway_state_report \<Rightarrow> applied_interface option" where
  "report_wg_users r = List.find is_wg_users (gsr_applied r)"

definition is_supported :: "gateway_state_report \<Rightarrow> bool" where
  "is_supported r =
     (let interfaces = set (map ai_interface (gsr_applied r))
      in gsr_schema_version r = SCHEMA_VERSION
         \<and> length (gsr_applied r) \<le> 2
         \<and> card interfaces = length (gsr_applied r)
         \<and> (\<forall>interface\<in>interfaces. interface = WG_USERS \<or> interface = WG_NODES))"

subsection \<open>Deliveries and acknowledgements\<close>

record peer_delivery =
  pd_schema_version :: u8
  pd_gateway_id :: gateway_id
  pd_delivery_id :: string
  pd_manifest_digest :: manifest_digest
  pd_manifest :: peer_manifest

text \<open>\<open>&s[..n]\<close> panics (\<^const>\<open>None\<close>) unless \<open>n\<close> is the end or the start of a UTF-8 sequence.\<close>

definition str_prefix :: "nat \<Rightarrow> string \<Rightarrow> string option" where
  "str_prefix n s =
     (if n = 0 \<or> n = length s
         \<or> n < length s \<and> ((of_char (s ! n) :: nat) < 128 \<or> 192 \<le> (of_char (s ! n) :: nat))
      then Some (take n s) else None)"

definition PeerDelivery_new ::
    "codec \<Rightarrow> gateway_id \<Rightarrow> peer_manifest \<Rightarrow> policy_error fault + peer_delivery" where
  "PeerDelivery_new cd gid m =
     (case manifest_digest_of cd m of
        Inl e \<Rightarrow> Inl (Err e)
      | Inr digest \<Rightarrow>
          (case str_prefix 12 (digest_str digest) of
             None \<Rightarrow> Inl Panic
           | Some short \<Rightarrow>
               Inr \<lparr>pd_schema_version = SCHEMA_VERSION, pd_gateway_id = gid,
                    pd_delivery_id =
                      ''wg-users-'' @ nat_str (unat (generation_get (pm_generation m))) @ ''-'' @ short,
                    pd_manifest_digest = digest, pd_manifest = m\<rparr>))"

record gateway_acknowledgement =
  ga_schema_version :: u8
  ga_gateway_id :: gateway_id
  ga_delivery_id :: string
  ga_interface :: string
  ga_generation :: generation
  ga_manifest_digest :: manifest_digest
  ga_outcome :: string

definition GatewayAcknowledgement_applied :: "peer_delivery \<Rightarrow> gateway_acknowledgement" where
  "GatewayAcknowledgement_applied d =
     \<lparr>ga_schema_version = SCHEMA_VERSION, ga_gateway_id = pd_gateway_id d,
      ga_delivery_id = pd_delivery_id d, ga_interface = WG_USERS,
      ga_generation = pm_generation (pd_manifest d), ga_manifest_digest = pd_manifest_digest d,
      ga_outcome = ''applied''\<rparr>"

definition ack_matches :: "gateway_acknowledgement \<Rightarrow> peer_delivery \<Rightarrow> bool" where
  "ack_matches a d \<longleftrightarrow>
     ga_schema_version a = SCHEMA_VERSION
     \<and> ga_gateway_id a = pd_gateway_id d
     \<and> ga_delivery_id a = pd_delivery_id d
     \<and> ga_interface a = WG_USERS
     \<and> ga_generation a = pm_generation (pd_manifest d)
     \<and> ga_manifest_digest a = pd_manifest_digest d
     \<and> ga_outcome a = ''applied''"

section \<open>Construction of manifests\<close>

lemma check_unique_ok:
  "check_unique I K A ps = Inr () \<longleftrightarrow>
     distinct (map gp_peer_id ps) \<and> distinct (map gp_public_key ps) \<and> distinct (map gp_address ps)
     \<and> gp_peer_id ` set ps \<inter> I = {} \<and> gp_public_key ` set ps \<inter> K = {} \<and> gp_address ` set ps \<inter> A = {}"
proof (induction I K A ps rule: check_unique.induct)
  case (2 I K A p ps)
  show ?case
  proof (cases "gp_peer_id p \<in> I \<or> gp_public_key p \<in> K \<or> gp_address p \<in> A")
    case True
    then show ?thesis by auto
  next
    case False
    with 2 show ?thesis by auto
  qed
qed simp

lemma check_unique_error: "check_unique I K A ps = Inl e \<Longrightarrow> e = DuplicatePeerIdentity"
  by (induction I K A ps rule: check_unique.induct) (auto split: if_splits)

definition all_distinct :: "gateway_peer list \<Rightarrow> bool" where
  "all_distinct ps \<longleftrightarrow>
     distinct (map gp_peer_id ps) \<and> distinct (map gp_public_key ps) \<and> distinct (map gp_address ps)"

lemma check_unique_empty:
  "check_unique {} {} {} ps = (if all_distinct ps then Inr () else Inl DuplicatePeerIdentity)"
proof (cases "check_unique {} {} {} ps")
  case (Inl e)
  then have "\<not> all_distinct ps" using check_unique_ok [of "{}" "{}" "{}" ps] by (simp add: all_distinct_def)
  with Inl check_unique_error [OF Inl] show ?thesis by simp
next
  case (Inr u)
  then show ?thesis using check_unique_ok [of "{}" "{}" "{}" ps] by (simp add: all_distinct_def)
qed

lemma distinct_map_mset: "mset xs = mset ys \<Longrightarrow> distinct (map f xs) = distinct (map f ys)"
  by (metis mset_eq_imp_distinct_iff mset_map)

lemma all_distinct_mset:
  assumes "mset xs = mset ys"
  shows "all_distinct xs = all_distinct ys"
  by (simp only: all_distinct_def distinct_map_mset [OF assms, of gp_peer_id]
      distinct_map_mset [OF assms, of gp_public_key] distinct_map_mset [OF assms, of gp_address])

text \<open>The constructor as one expression over the unsorted peers.\<close>

lemma PeerManifest_new_eq:
  "PeerManifest_new g t peers =
     (if \<not> valid_utc_timestamp t then Inl InvalidGeneratedAt
      else if length peers > 253 then Inl TooManyPeers
      else if \<not> all_distinct (map GatewayPeer_from peers) then Inl DuplicatePeerIdentity
      else Inr \<lparr>pm_schema_version = 1, pm_interface = ''wg-users'', pm_generation = g,
                pm_generated_at = t, pm_peers = sort_key gp_peer_id (map GatewayPeer_from peers)\<rparr>)"
proof -
  have "all_distinct (sort_key gp_peer_id (map GatewayPeer_from peers))
      = all_distinct (map GatewayPeer_from peers)"
    by (rule all_distinct_mset) simp
  then show ?thesis
    by (simp add: PeerManifest_new_def Let_def check_unique_empty SCHEMA_VERSION_def WG_USERS_def)
qed

lemma sort_key_distinct_mset:
  assumes "mset xs = mset ys" and "distinct (map f xs)"
  shows "sort_key f xs = sort_key (f :: _ \<Rightarrow> _ :: linorder) ys"
  using assms by (intro sort_key_inj_key_eq) (simp_all add: distinct_map)

section \<open>Digests\<close>

text \<open>
  What is relied on of the two external functions: string literals as JSON has them, and digests
  of 64 lower-case hexadecimal digits.
\<close>

definition codec_ok :: "codec \<Rightarrow> bool" where
  "codec_ok cd \<longleftrightarrow> quote_ok (cd_quote cd)
     \<and> (\<forall>s. length (cd_sha256_hex cd s) = 64 \<and> list_all lower_hex (cd_sha256_hex cd s))"

lemma ipv4_str_inject: "ipv4_str a = ipv4_str b \<longleftrightarrow> a = b"
  using parse_ipv4_Some [of "ipv4_str a"] by (metis option.inject)

lemma overlay_address_str_inject: "overlay_address_str a = overlay_address_str b \<longleftrightarrow> a = b"
  by (cases a; cases b) (simp add: overlay_address_str_def ipv4_str_inject del: ipv4_str.simps)

lemma health_policy_str_inject: "health_policy_str a = health_policy_str b \<longleftrightarrow> a = b"
  by (cases a; cases b) simp_all

lemma permission_str_inject: "permission_str a = permission_str b \<longleftrightarrow> a = b"
  by (cases a; cases b) simp_all

lemmas value_str_inject =
  overlay_address_str_inject health_policy_str_inject permission_str_inject

lemma gateway_peer_value_inject:
  assumes "canon (gateway_peer_value p) = canon (gateway_peer_value q)"
  shows "p = q"
proof -
  have "map (canon \<circ> JString \<circ> permission_str) (gp_permissions p)
      = map (canon \<circ> JString \<circ> permission_str) (gp_permissions q)
    \<and> peer_str (gp_peer_id p) = peer_str (gp_peer_id q)
    \<and> key_str (gp_public_key p) = key_str (gp_public_key q)
    \<and> overlay_address_str (gp_address p) = overlay_address_str (gp_address q)
    \<and> health_policy_str (gp_health_policy p) = health_policy_str (gp_health_policy q)"
    using canon_object_inject [OF assms [unfolded gateway_peer_value_def]]
    by (simp add: comp_assoc)
  moreover have "inj (canon \<circ> JString \<circ> permission_str)"
    by (auto simp: inj_def permission_str_inject)
  ultimately show ?thesis
    by (auto simp: value_str_inject inj_map_eq_map intro!: gateway_peer.equality
        intro: peer_id.expand wg_public_key.expand)
qed

lemma manifest_value_inject:
  assumes "canon (manifest_value m) = canon (manifest_value n)"
  shows "m = n"
proof -
  have "map (canon \<circ> gateway_peer_value) (pm_peers m) = map (canon \<circ> gateway_peer_value) (pm_peers n)
    \<and> uint (pm_schema_version m) = uint (pm_schema_version n)
    \<and> pm_interface m = pm_interface n
    \<and> uint (generation_get (pm_generation m)) = uint (generation_get (pm_generation n))
    \<and> pm_generated_at m = pm_generated_at n"
    using canon_object_inject [OF assms [unfolded manifest_value_def]] by simp
  moreover have "inj (canon \<circ> gateway_peer_value)"
    by (auto simp: inj_def intro: gateway_peer_value_inject)
  ultimately show ?thesis
    by (auto simp: inj_map_eq_map word_uint_eq_iff intro!: peer_manifest.equality
        intro: generation.expand)
qed

lemma manifest_digest_of_ok:
  assumes "codec_ok cd"
  obtains canonical where "write_canonical_json (cd_quote cd) (manifest_value m) [] = Inr canonical"
    and "manifest_digest_of cd m = Inr (ManifestDigest (cd_sha256_hex cd canonical))"
proof -
  from assms have "quote_ok (cd_quote cd)" by (simp add: codec_ok_def)
  then obtain canonical where "write_canonical_json (cd_quote cd) (manifest_value m) [] = Inr canonical"
    using write_canonical_text(1) by blast
  with that show ?thesis by (simp add: manifest_digest_of_def)
qed

lemma lower_hex_ascii: "lower_hex c \<Longrightarrow> (of_char c :: nat) < 128"
  by (auto simp: lower_hex_def is_ascii_digit_def)

lemma str_prefix_hex:
  assumes "length s = 64" and "list_all lower_hex s"
  shows "str_prefix 12 s = Some (take 12 s)"
proof -
  from assms have "lower_hex (s ! 12)" by (simp add: list_all_length)
  with assms(1) show ?thesis by (simp add: str_prefix_def lower_hex_ascii)
qed

text \<open>With a codec as documented a delivery is always built, and this is what it holds.\<close>

lemma PeerDelivery_new_ok:
  assumes "codec_ok cd"
  obtains d digest where "manifest_digest_of cd m = Inr digest"
    and "PeerDelivery_new cd gid m = Inr d"
    and "d = \<lparr>pd_schema_version = 1, pd_gateway_id = gid,
       pd_delivery_id = ''wg-users-'' @ nat_str (unat (generation_get (pm_generation m)))
         @ ''-'' @ take 12 (digest_str digest),
       pd_manifest_digest = digest, pd_manifest = m\<rparr>"
proof -
  from assms obtain canonical
    where dg: "manifest_digest_of cd m = Inr (ManifestDigest (cd_sha256_hex cd canonical))"
    by (rule manifest_digest_of_ok)
  from assms have "str_prefix 12 (cd_sha256_hex cd canonical) = Some (take 12 (cd_sha256_hex cd canonical))"
    by (simp add: codec_ok_def str_prefix_hex)
  with dg that show ?thesis by (simp add: PeerDelivery_new_def SCHEMA_VERSION_def)
qed

lemma PeerDelivery_new_fields:
  assumes "PeerDelivery_new cd gid m = Inr d"
  shows "pd_gateway_id d = gid" and "pd_manifest d = m"
    and "manifest_digest_of cd m = Inr (pd_manifest_digest d)"
  using assms by (auto simp: PeerDelivery_new_def split: sum.splits option.splits)

lemma ack_matches_iff: "ack_matches a d \<longleftrightarrow> a = GatewayAcknowledgement_applied d"
  by (auto simp: ack_matches_def GatewayAcknowledgement_applied_def intro!: gateway_acknowledgement.equality)

section \<open>Supported reports\<close>

lemma find_wg_users_distinct:
  assumes "distinct (map ai_interface xs)" and "x \<in> set xs" and "is_wg_users x"
  shows "List.find is_wg_users xs = Some x"
proof -
  obtain y where y: "List.find is_wg_users xs = Some y"
    using assms(2,3) by (metis find_None_iff option.exhaust)
  then have "y \<in> set xs" and "is_wg_users y" by (auto simp: find_Some_iff)
  with assms have "y = x" unfolding distinct_map is_wg_users_def by (metis inj_onD)
  with y show ?thesis by simp
qed

lemma is_supported_distinct: "is_supported r \<Longrightarrow> distinct (map ai_interface (gsr_applied r))"
  by (simp add: is_supported_def Let_def card_distinct)

lemma report_wg_users_None:
  "report_wg_users r = None \<longleftrightarrow> (\<forall>a\<in>set (gsr_applied r). ai_interface a \<noteq> WG_USERS)"
  by (auto simp: report_wg_users_def find_None_iff is_wg_users_def)

lemma report_wg_users_Some:
  "is_supported r \<Longrightarrow> report_wg_users r = Some a \<longleftrightarrow> a \<in> set (gsr_applied r) \<and> ai_interface a = WG_USERS"
  using find_wg_users_distinct [OF is_supported_distinct, of r a]
  by (auto simp: report_wg_users_def is_wg_users_def find_Some_iff)

section \<open>Properties\<close>

text \<open>A codec for witnesses: quoting with backslash escapes, and a padded digit text as digest.\<close>

definition demo_sha :: "string \<Rightarrow> string" where
  "demo_sha s = map (\<lambda>c. digit_char (of_char c mod 10)) (take 64 (s @ replicate 64 (CHR ''0'')))"

definition demo_codec :: codec where
  "demo_codec = \<lparr>cd_quote = demo_quote, cd_sha256_hex = demo_sha\<rparr>"

lemma demo_codec_ok: "codec_ok demo_codec"
proof -
  have "lower_hex (digit_char (of_char c mod 10))" for c
    by (simp add: lower_hex_def)
  then have "list_all lower_hex (demo_sha s)" for s
    unfolding demo_sha_def by (simp only: list_all_iff set_map ball_simps) blast
  then show ?thesis
    by (simp add: codec_ok_def demo_codec_def demo_quote_ok) (simp add: demo_sha_def min_def)
qed

lemma demo_time: "valid_utc_timestamp ''2026-08-01T20:00:00Z''"
  by (simp add: valid_utc_timestamp_def ends_with_def byte_at_def byte_slice_def decimal_def
      is_ascii_digit_def digit_val_def days_in_month_def)

lemma map_gp_GatewayPeer_from:
  "map gp_peer_id (map GatewayPeer_from ps) = map vp_peer_id ps"
  "map gp_public_key (map GatewayPeer_from ps) = map vp_public_key ps"
  "map gp_address (map GatewayPeer_from ps) = map vp_address ps"
  by (simp_all add: GatewayPeer_from_def comp_def)

lemma policy_peers_ids:
  assumes "policy_inv p"
  shows "map vp_peer_id (policy_peers p) = map fst (pol_peers p)"
  using assms by (auto simp: policy_inv_def policy_peers_def bt_values_def list_all_iff)

text \<open>
  C6: The manifest of a policy a program can reach is complete and never refused for its peers: it
  has the schema version and interface name of the contract, the policy's generation, the given
  time and one entry for every peer, in strictly ascending order of the identifiers, and the only
  possible error is a malformed \<open>generated_at\<close>.
\<close>

theorem policy_manifest_complete:
  assumes "reachable_policy p"
  shows "policy_manifest p t =
      (if valid_utc_timestamp t
       then Inr \<lparr>pm_schema_version = 1, pm_interface = ''wg-users'', pm_generation = pol_generation p,
                 pm_generated_at = t, pm_peers = map GatewayPeer_from (policy_peers p)\<rparr>
       else Inl InvalidGeneratedAt)
    \<and> sorted_wrt (<) (map gp_peer_id (map GatewayPeer_from (policy_peers p)))"
proof -
  let ?ps = "map GatewayPeer_from (policy_peers p)"
  from assms have inv: "policy_inv p"
    unfolding reachable_policy_def by (rule policy_steps_inv [OF _ policy_inv_default])
  then have sorted: "sorted_wrt (<) (map gp_peer_id ?ps)"
    unfolding map_gp_GatewayPeer_from policy_peers_ids [OF inv] by (simp add: policy_inv_def bt_invar_def)
  then have "sorted (map gp_peer_id ?ps)" and "distinct (map gp_peer_id ?ps)"
    unfolding strict_sorted_iff by simp_all
  then have "sort_key gp_peer_id ?ps = ?ps" by (simp add: sort_key_id_if_sorted del: map_map)
  moreover have "all_distinct ?ps"
    using inv \<open>distinct (map gp_peer_id ?ps)\<close>
    unfolding all_distinct_def map_gp_GatewayPeer_from by (simp add: policy_inv_def)
  ultimately show ?thesis
    using sorted policy_peers_le [OF inv] by (simp add: policy_manifest_def PeerManifest_new_eq)
qed

theorem policy_manifest_complete_witness:
  "reachable_policy demo_policy
   \<and> policy_manifest demo_policy ''2026-08-01T20:00:00Z'' =
      Inr \<lparr>pm_schema_version = 1, pm_interface = ''wg-users'', pm_generation = Generation 2,
           pm_generated_at = ''2026-08-01T20:00:00Z'', pm_peers = [GatewayPeer_from demo_peer]\<rparr>"
  using policy_manifest_complete [OF demo_reachable, of "''2026-08-01T20:00:00Z''"] demo_reachable
  by (simp add: demo_time) (simp add: demo_policy_def policy_peers_def bt_values_def)

text \<open>
  The complete result of \<open>PeerManifest::new\<close> on any peers: which of the three errors is
  returned in which case, in the order the code tests them, and otherwise a manifest with exactly
  the given peers, sorted by identifier.
\<close>

theorem PeerManifest_new_result:
  "case PeerManifest_new g t peers of
      Inl InvalidGeneratedAt \<Rightarrow> \<not> valid_utc_timestamp t
    | Inl TooManyPeers \<Rightarrow> valid_utc_timestamp t \<and> 253 < length peers
    | Inl DuplicatePeerIdentity \<Rightarrow> valid_utc_timestamp t \<and> length peers \<le> 253
        \<and> \<not> (distinct (map vp_peer_id peers) \<and> distinct (map vp_public_key peers)
             \<and> distinct (map vp_address peers))
    | Inl e \<Rightarrow> False
    | Inr m \<Rightarrow> valid_utc_timestamp t \<and> length peers \<le> 253
        \<and> distinct (map vp_peer_id peers) \<and> distinct (map vp_public_key peers)
        \<and> distinct (map vp_address peers)
        \<and> pm_schema_version m = 1 \<and> pm_interface m = ''wg-users''
        \<and> pm_generation m = g \<and> pm_generated_at m = t
        \<and> mset (pm_peers m) = mset (map GatewayPeer_from peers)
        \<and> sorted_wrt (<) (map gp_peer_id (pm_peers m))"
proof -
  let ?ps = "map GatewayPeer_from peers"
  have distinct: "all_distinct ?ps \<longleftrightarrow> distinct (map vp_peer_id peers)
      \<and> distinct (map vp_public_key peers) \<and> distinct (map vp_address peers)"
    unfolding all_distinct_def map_gp_GatewayPeer_from ..
  have "sorted_wrt (<) (map gp_peer_id (sort_key gp_peer_id ?ps))" if "all_distinct ?ps"
    using that distinct_map_mset [of "sort_key gp_peer_id ?ps" ?ps gp_peer_id]
    unfolding strict_sorted_iff by (simp add: all_distinct_def)
  then show ?thesis
    by (simp add: PeerManifest_new_eq distinct [symmetric])
qed

text \<open>
  A manifest says nothing about users and nothing about the order peers were given in: giving
  the same peers in another order and under any other owners leads to the same manifest or the
  same error.
\<close>

theorem manifest_erases_owner_and_order:
  assumes "mset peers = mset peers'"
  shows "PeerManifest_new g t (map (\<lambda>peer. peer\<lparr>vp_user_id := owner peer\<rparr>) peers) = PeerManifest_new g t peers'"
proof -
  let ?own = "map (\<lambda>peer. peer\<lparr>vp_user_id := owner peer\<rparr>) peers"
  have own: "map GatewayPeer_from ?own = map GatewayPeer_from peers"
    by (simp add: GatewayPeer_from_def permissions_def)
  have same: "mset (map GatewayPeer_from peers) = mset (map GatewayPeer_from peers')"
    using assms by simp
  from assms have "length peers = length peers'" by (rule mset_eq_length)
  moreover note all_distinct_mset [OF same]
  moreover have "sort_key gp_peer_id (map GatewayPeer_from peers) = sort_key gp_peer_id (map GatewayPeer_from peers')"
    if "all_distinct (map GatewayPeer_from peers)"
    using that by (intro sort_key_distinct_mset [OF same]) (simp only: all_distinct_def)
  ultimately show ?thesis
    unfolding PeerManifest_new_eq own by (simp del: map_map)
qed

theorem manifest_erases_owner_and_order_witness:
  "mset [demo_peer] = mset [demo_peer]
   \<and> PeerManifest_new (Generation 2) ''2026-08-01T20:00:00Z'' [demo_peer\<lparr>vp_user_id := UserId ''other''\<rparr>]
      = PeerManifest_new (Generation 2) ''2026-08-01T20:00:00Z'' [demo_peer]"
  using manifest_erases_owner_and_order [where peers = "[demo_peer]" and peers' = "[demo_peer]"
      and owner = "\<lambda>_. UserId ''other''"] by simp

text \<open>
  C7: The digest binds the exact manifest.  For every manifest it is computed, it is the SHA-256
  text of the canonical form, it has the form \<open>ManifestDigest::new\<close> accepts, and no other manifest
  has the same canonical form, so two manifests with one digest are a collision of SHA-256.
\<close>

theorem digest_binds_manifest:
  assumes "codec_ok cd"
  shows "\<exists>canonical digest.
      write_canonical_json (cd_quote cd) (manifest_value m) [] = Inr canonical
      \<and> manifest_digest_of cd m = Inr digest
      \<and> digest_str digest = cd_sha256_hex cd canonical
      \<and> ManifestDigest_new (digest_str digest) = Inr digest
      \<and> (\<forall>n. write_canonical_json (cd_quote cd) (manifest_value n) [] = Inr canonical \<longrightarrow> n = m)"
proof -
  from assms have quote: "quote_ok (cd_quote cd)" by (simp add: codec_ok_def)
  from assms obtain canonical
    where c: "write_canonical_json (cd_quote cd) (manifest_value m) [] = Inr canonical"
      and d: "manifest_digest_of cd m = Inr (ManifestDigest (cd_sha256_hex cd canonical))"
    by (rule manifest_digest_of_ok)
  have "n = m" if "write_canonical_json (cd_quote cd) (manifest_value n) [] = Inr canonical" for n
    by (rule manifest_value_inject, rule write_canonical_text(2) [OF quote]) (simp only: c that)
  moreover have "ManifestDigest_new (cd_sha256_hex cd canonical) = Inr (ManifestDigest (cd_sha256_hex cd canonical))"
    using assms by (simp add: codec_ok_def ManifestDigest_new_def)
  ultimately show ?thesis using c d by (metis manifest_digest.sel)
qed

definition demo_manifest :: peer_manifest where
  "demo_manifest = \<lparr>pm_schema_version = 1, pm_interface = ''wg-users'', pm_generation = Generation 2,
     pm_generated_at = ''2026-08-01T20:00:00Z'', pm_peers = [GatewayPeer_from demo_peer]\<rparr>"

theorem digest_binds_manifest_witness:
  "codec_ok demo_codec \<and> (\<exists>digest. manifest_digest_of demo_codec demo_manifest = Inr digest
     \<and> ManifestDigest_new (digest_str digest) = Inr digest)"
  using digest_binds_manifest [OF demo_codec_ok, of demo_manifest] demo_codec_ok by blast

text \<open>
  C8: A delivery can be acknowledged in exactly one way.  Every manifest yields a delivery for
  every gateway, which carries the manifest, its digest and an identifier naming the generation;
  the acknowledgement \<open>applied\<close> builds from it matches it and no other acknowledgement does; and
  when one acknowledgement matches two deliveries, they are for the same gateway, generation and
  digest.
\<close>

theorem acknowledgement_binds_delivery:
  assumes "codec_ok cd"
  shows "\<exists>d. PeerDelivery_new cd gid m = Inr d
      \<and> pd_gateway_id d = gid \<and> pd_manifest d = m
      \<and> manifest_digest_of cd m = Inr (pd_manifest_digest d)
      \<and> pd_delivery_id d = ''wg-users-'' @ nat_str (unat (generation_get (pm_generation m)))
          @ ''-'' @ take 12 (digest_str (pd_manifest_digest d))
      \<and> (\<forall>a. ack_matches a d \<longleftrightarrow> a = GatewayAcknowledgement_applied d)
      \<and> (\<forall>a gid' m' d'. PeerDelivery_new cd gid' m' = Inr d' \<and> ack_matches a d \<and> ack_matches a d' \<longrightarrow>
           gid' = gid \<and> pm_generation m' = pm_generation m
           \<and> manifest_digest_of cd m' = manifest_digest_of cd m)"
proof -
  obtain d digest where d: "manifest_digest_of cd m = Inr digest" "PeerDelivery_new cd gid m = Inr d"
    "d = \<lparr>pd_schema_version = 1, pd_gateway_id = gid,
       pd_delivery_id = ''wg-users-'' @ nat_str (unat (generation_get (pm_generation m)))
         @ ''-'' @ take 12 (digest_str digest),
       pd_manifest_digest = digest, pd_manifest = m\<rparr>"
    using assms by (rule PeerDelivery_new_ok)
  have "gid' = gid \<and> pm_generation m' = pm_generation m \<and> manifest_digest_of cd m' = manifest_digest_of cd m"
    if "PeerDelivery_new cd gid' m' = Inr d'" and "ack_matches a d" and "ack_matches a d'" for a gid' m' d'
    using PeerDelivery_new_fields [OF d(2)] PeerDelivery_new_fields [OF that(1)] that(2,3)
    by (auto simp: ack_matches_def)
  moreover have "\<forall>a. ack_matches a d \<longleftrightarrow> a = GatewayAcknowledgement_applied d"
    by (simp add: ack_matches_iff)
  moreover have "pd_gateway_id d = gid \<and> pd_manifest d = m \<and> pd_manifest_digest d = digest
      \<and> pd_delivery_id d = ''wg-users-'' @ nat_str (unat (generation_get (pm_generation m)))
          @ ''-'' @ take 12 (digest_str digest)"
    by (simp add: d(3))
  ultimately show ?thesis using d(1,2) by (intro exI [of _ d]) blast
qed

theorem acknowledgement_binds_delivery_witness:
  "codec_ok demo_codec \<and> (\<exists>d. PeerDelivery_new demo_codec (GatewayId (PeerId ''gateway-1'')) demo_manifest = Inr d
     \<and> ack_matches (GatewayAcknowledgement_applied d) d)"
  using acknowledgement_binds_delivery [OF demo_codec_ok, of "GatewayId (PeerId ''gateway-1'')" demo_manifest]
    demo_codec_ok by blast

end
