(* ===== verification/Gateway_Sync.thy ===== *)
theory Gateway_Sync
  imports Contract
begin

text \<open>
  The gateway synchronisation service, \<open>api/src/lib.rs\<close>.  The trait \<open>GatewayStateStore\<close> is a
  record of operations over a state type; \<open>poll\<close> and \<open>acknowledge\<close> are generic in it, as in the
  code.  The locale \<open>gateway_state_store\<close> states what the service relies on and carries its
  lemmas; \<open>InMemoryGatewayStateStore\<close> interprets it.

  A lock is its content and its poison flag.  \<open>acknowledge\<close> reads the store, releases it, and
  writes it again, so other calls can come between: \<open>acknowledge_prepare\<close> is the part before the
  write, and \<open>sync_step\<close> interleaves the two halves of any number of acknowledgements with
  changes of the desired state.
\<close>

section \<open>The service\<close>

datatype store_error = Unavailable

record 's gateway_store_ops =
  gs_desired_manifest :: "'s \<Rightarrow> gateway_id \<Rightarrow> store_error + peer_manifest option"
  gs_record_applied ::
    "gateway_id \<Rightarrow> peer_manifest \<Rightarrow> manifest_digest \<Rightarrow> 's \<Rightarrow> (store_error + unit) \<times> 's"

datatype sync_error =
    InvalidReport
  | UnconfiguredGateway
  | GatewayAhead
  | AppliedConflict
  | AcknowledgementMismatch
  | Policy policy_error
  | Store store_error

fun sync_fault :: "policy_error fault \<Rightarrow> sync_error fault" where
  "sync_fault (Err e) = Err (Policy e)"
| "sync_fault Panic = Panic"

definition poll ::
    "'s gateway_store_ops \<Rightarrow> codec \<Rightarrow> gateway_state_report \<Rightarrow> 's \<Rightarrow> sync_error fault + peer_delivery option" where
  "poll store cd report s =
     (if \<not> is_supported report then Inl (Err InvalidReport)
      else case gs_desired_manifest store s (gsr_gateway_id report) of
        Inl e \<Rightarrow> Inl (Err (Store e))
      | Inr None \<Rightarrow> Inl (Err UnconfiguredGateway)
      | Inr (Some desired) \<Rightarrow>
          (case manifest_digest_of cd desired of
             Inl e \<Rightarrow> Inl (Err (Policy e))
           | Inr desired_digest \<Rightarrow>
               (case report_wg_users report of
                  None \<Rightarrow>
                    map_ok Some (map_err sync_fault (PeerDelivery_new cd (gsr_gateway_id report) desired))
                | Some applied \<Rightarrow>
                    if ai_generation applied < pm_generation desired
                    then map_ok Some (map_err sync_fault (PeerDelivery_new cd (gsr_gateway_id report) desired))
                    else if pm_generation desired < ai_generation applied
                    then Inl (Err GatewayAhead)
                    else if ai_manifest_digest applied = desired_digest
                    then Inr None
                    else Inl (Err AppliedConflict))))"

definition acknowledge_prepare ::
    "'s gateway_store_ops \<Rightarrow> codec \<Rightarrow> gateway_acknowledgement \<Rightarrow> 's
     \<Rightarrow> sync_error fault + (peer_manifest \<times> manifest_digest)" where
  "acknowledge_prepare store cd ack s =
     (case gs_desired_manifest store s (ga_gateway_id ack) of
        Inl e \<Rightarrow> Inl (Err (Store e))
      | Inr None \<Rightarrow> Inl (Err UnconfiguredGateway)
      | Inr (Some desired) \<Rightarrow>
          (case PeerDelivery_new cd (ga_gateway_id ack) desired of
             Inl e \<Rightarrow> Inl (sync_fault e)
           | Inr delivery \<Rightarrow>
               if \<not> ack_matches ack delivery then Inl (Err AcknowledgementMismatch)
               else Inr (desired, pd_manifest_digest delivery)))"

definition acknowledge ::
    "'s gateway_store_ops \<Rightarrow> codec \<Rightarrow> gateway_acknowledgement \<Rightarrow> 's \<Rightarrow> (sync_error fault + unit) \<times> 's" where
  "acknowledge store cd ack s =
     (case acknowledge_prepare store cd ack s of
        Inl e \<Rightarrow> (Inl e, s)
      | Inr (desired, digest) \<Rightarrow>
          (case gs_record_applied store (ga_gateway_id ack) desired digest s of
             (r, s') \<Rightarrow> (map_err (Err \<circ> Store) r, s')))"

section \<open>The in-memory store\<close>

record 'a rw_lock =
  rw_poisoned :: bool
  rw_content :: 'a

definition lock :: "'a rw_lock \<Rightarrow> store_error + 'a" where
  "lock l = (if rw_poisoned l then Inl Unavailable else Inr (rw_content l))"

record in_memory_store =
  ims_desired :: "(gateway_id \<rightharpoonup> peer_manifest) rw_lock"
  ims_applied :: "(gateway_id \<rightharpoonup> peer_manifest \<times> manifest_digest) rw_lock"

definition InMemoryGatewayStateStore_default :: in_memory_store where
  "InMemoryGatewayStateStore_default =
     \<lparr>ims_desired = \<lparr>rw_poisoned = False, rw_content = (\<lambda>_. None)\<rparr>,
      ims_applied = \<lparr>rw_poisoned = False, rw_content = (\<lambda>_. None)\<rparr>\<rparr>"

definition set_desired ::
    "gateway_id \<Rightarrow> peer_manifest \<Rightarrow> in_memory_store \<Rightarrow> (store_error + unit) \<times> in_memory_store" where
  "set_desired gid m s =
     (case lock (ims_desired s) of
        Inl e \<Rightarrow> (Inl e, s)
      | Inr desired \<Rightarrow> (Inr (), s\<lparr>ims_desired := (ims_desired s)\<lparr>rw_content := desired(gid \<mapsto> m)\<rparr>\<rparr>))"

definition applied_lookup ::
    "in_memory_store \<Rightarrow> gateway_id \<Rightarrow> store_error + (peer_manifest \<times> manifest_digest) option" where
  "applied_lookup s gid = map_ok (\<lambda>applied. applied gid) (lock (ims_applied s))"

definition desired_manifest :: "in_memory_store \<Rightarrow> gateway_id \<Rightarrow> store_error + peer_manifest option" where
  "desired_manifest s gid = map_ok (\<lambda>desired. desired gid) (lock (ims_desired s))"

definition record_applied ::
    "gateway_id \<Rightarrow> peer_manifest \<Rightarrow> manifest_digest \<Rightarrow> in_memory_store \<Rightarrow> (store_error + unit) \<times> in_memory_store" where
  "record_applied gid m digest s =
     (case lock (ims_applied s) of
        Inl e \<Rightarrow> (Inl e, s)
      | Inr applied \<Rightarrow>
          (Inr (), s\<lparr>ims_applied := (ims_applied s)\<lparr>rw_content := applied(gid \<mapsto> (m, digest))\<rparr>\<rparr>))"

definition in_memory_ops :: "in_memory_store gateway_store_ops" where
  "in_memory_ops = \<lparr>gs_desired_manifest = desired_manifest, gs_record_applied = record_applied\<rparr>"

section \<open>The decision table of poll\<close>

text \<open>The decision of \<open>poll\<close>: each answer with the condition it stands for.\<close>

definition poll_spec ::
    "'s gateway_store_ops \<Rightarrow> codec \<Rightarrow> gateway_state_report \<Rightarrow> 's \<Rightarrow> sync_error fault + peer_delivery option \<Rightarrow> bool" where
  "poll_spec ops cd r s answer \<longleftrightarrow>
     (let desired = gs_desired_manifest ops s (gsr_gateway_id r);
          users = (\<lambda>a. a \<in> set (gsr_applied r) \<and> ai_interface a = ''wg-users'')
      in case answer of
        Inl (Err InvalidReport) \<Rightarrow> \<not> is_supported r
      | Inl (Err (Store e)) \<Rightarrow> is_supported r \<and> desired = Inl e
      | Inl (Err UnconfiguredGateway) \<Rightarrow> is_supported r \<and> desired = Inr None
      | Inl (Err GatewayAhead) \<Rightarrow> is_supported r
          \<and> (\<exists>m a. desired = Inr (Some m) \<and> users a \<and> pm_generation m < ai_generation a)
      | Inl (Err AppliedConflict) \<Rightarrow> is_supported r
          \<and> (\<exists>m a. desired = Inr (Some m) \<and> users a \<and> ai_generation a = pm_generation m
               \<and> manifest_digest_of cd m \<noteq> Inr (ai_manifest_digest a))
      | Inl _ \<Rightarrow> False
      | Inr None \<Rightarrow> is_supported r
          \<and> (\<exists>m a. desired = Inr (Some m) \<and> users a \<and> ai_generation a = pm_generation m
               \<and> manifest_digest_of cd m = Inr (ai_manifest_digest a))
      | Inr (Some d) \<Rightarrow> is_supported r
          \<and> (\<exists>m. desired = Inr (Some m) \<and> PeerDelivery_new cd (gsr_gateway_id r) m = Inr d
               \<and> (\<forall>a. users a \<longrightarrow> ai_generation a < pm_generation m)))"

lemma supported_users_unique:
  assumes "is_supported r" and "a \<in> set (gsr_applied r)" and "b \<in> set (gsr_applied r)"
    and "ai_interface a = ''wg-users''" and "ai_interface b = ''wg-users''"
  shows "a = b"
  using report_wg_users_Some [OF assms(1), of a] report_wg_users_Some [OF assms(1), of b] assms(2-)
  by (simp add: WG_USERS_def)

text \<open>The table leaves no choice: two answers it allows are the same.\<close>

lemma poll_spec_unique:
  assumes "poll_spec ops cd r s x" and "poll_spec ops cd r s y"
  shows "x = y"
  using assms supported_users_unique [of r]
  by (auto simp: poll_spec_def Let_def split: sum.splits fault.splits sync_error.splits option.splits)
    (metis order_less_irrefl)+

section \<open>The interface of a gateway state store\<close>

locale gateway_state_store =
  fixes ops :: "'s gateway_store_ops"
    and applied :: "'s \<Rightarrow> gateway_id \<Rightarrow> store_error + (peer_manifest \<times> manifest_digest) option"
  assumes record_keeps_desired:
      "gs_desired_manifest ops (snd (gs_record_applied ops g m d s)) = gs_desired_manifest ops s"
    and record_applied_ok:
      "gs_record_applied ops g m d s = (Inr u, s') \<Longrightarrow> applied s' h = (if h = g then Inr (Some (m, d)) else applied s h)"
    and record_applied_error: "gs_record_applied ops g m d s = (Inl e, s') \<Longrightarrow> s' = s"
begin

lemma poll_meets_spec:
  assumes "codec_ok cd"
  shows "poll_spec ops cd r s (poll ops cd r s)"
proof (cases "is_supported r")
  case False
  then show ?thesis by (simp add: poll_def poll_spec_def Let_def)
next
  case True
  let ?desired = "gs_desired_manifest ops s (gsr_gateway_id r)"
  show ?thesis
  proof (cases "\<exists>m. ?desired = Inr (Some m)")
    case False
    with True show ?thesis by (auto simp: poll_def poll_spec_def Let_def split: sum.split option.split)
  next
    case desired: True
    then obtain m where m: "?desired = Inr (Some m)" by blast
    obtain d dg where d: "manifest_digest_of cd m = Inr dg" "PeerDelivery_new cd (gsr_gateway_id r) m = Inr d"
      using assms by (rule PeerDelivery_new_ok)
    show ?thesis
    proof (cases "report_wg_users r")
      case None
      then have "\<forall>a\<in>set (gsr_applied r). ai_interface a \<noteq> ''wg-users''"
        by (simp add: report_wg_users_None WG_USERS_def)
      with None True m d show ?thesis by (auto simp: poll_def poll_spec_def Let_def)
    next
      case (Some a)
      then have users: "b \<in> set (gsr_applied r) \<and> ai_interface b = ''wg-users'' \<longleftrightarrow> b = a" for b
        using report_wg_users_Some [OF True, of b] by (auto simp: WG_USERS_def)
      consider "ai_generation a < pm_generation m" | "\<not> ai_generation a < pm_generation m" "pm_generation m < ai_generation a"
        | "ai_generation a = pm_generation m" by fastforce
      then show ?thesis
        by cases (use True m d Some users in \<open>simp_all add: poll_def poll_spec_def Let_def\<close>)
    qed
  qed
qed

lemma acknowledge_prepare_ok:
  assumes "codec_ok cd"
  shows "acknowledge_prepare ops cd a s = Inr (m, dg) \<longleftrightarrow>
     gs_desired_manifest ops s (ga_gateway_id a) = Inr (Some m)
     \<and> manifest_digest_of cd m = Inr dg
     \<and> (\<exists>d. PeerDelivery_new cd (ga_gateway_id a) m = Inr d \<and> a = GatewayAcknowledgement_applied d)"
proof (cases "gs_desired_manifest ops s (ga_gateway_id a) = Inr (Some m)")
  case True
  obtain d where d: "PeerDelivery_new cd (ga_gateway_id a) m = Inr d"
    using PeerDelivery_new_ok [OF assms] by metis
  show ?thesis
    using True d PeerDelivery_new_fields [OF d]
    by (auto simp: acknowledge_prepare_def ack_matches_iff split: if_splits)
next
  case False
  then show ?thesis by (auto simp: acknowledge_prepare_def split: sum.splits option.splits if_splits)
qed

lemma acknowledge_cases:
  assumes "acknowledge ops cd a s = (r, s')"
  obtains (error) e where "r = Inl e" and "s' = s"
    | (ok) m dg where "r = Inr ()" and "acknowledge_prepare ops cd a s = Inr (m, dg)"
        and "gs_record_applied ops (ga_gateway_id a) m dg s = (Inr (), s')"
proof (cases "acknowledge_prepare ops cd a s")
  case (Inl e)
  with assms error show ?thesis by (auto simp: acknowledge_def)
next
  case (Inr x)
  obtain m dg where x: "x = (m, dg)" by (cases x)
  obtain q t where rec: "gs_record_applied ops (ga_gateway_id a) m dg s = (q, t)" by fastforce
  with assms Inr x have r: "r = map_err (Err \<circ> Store) q" and t: "s' = t"
    by (auto simp: acknowledge_def)
  show ?thesis
  proof (cases q)
    case (Inl e)
    with record_applied_error rec r t error show ?thesis by simp
  next
    case q: (Inr u)
    with rec r t Inr x ok show ?thesis by simp
  qed
qed

lemma acknowledge_desired:
  "acknowledge ops cd a s = (r, s') \<Longrightarrow> gs_desired_manifest ops s' = gs_desired_manifest ops s"
  by (erule acknowledge_cases) (use record_keeps_desired in \<open>auto, metis snd_conv\<close>)

text \<open>After a successful acknowledgement a report of the acknowledged state is up to date.\<close>

lemma acknowledged_is_current:
  assumes "codec_ok cd" and "acknowledge ops cd a s = (Inr (), s')"
    and "is_supported r" and "gsr_gateway_id r = ga_gateway_id a"
    and "AppliedInterface_wg_users (ga_generation a) (ga_manifest_digest a) \<in> set (gsr_applied r)"
  shows "poll ops cd r s' = Inr None"
proof -
  from assms(2) obtain m dg where prep: "acknowledge_prepare ops cd a s = Inr (m, dg)"
    by (rule acknowledge_cases) auto
  with assms(1) obtain d where m: "gs_desired_manifest ops s (ga_gateway_id a) = Inr (Some m)"
    and dg: "manifest_digest_of cd m = Inr dg" and d: "PeerDelivery_new cd (ga_gateway_id a) m = Inr d"
    and a: "a = GatewayAcknowledgement_applied d"
    by (auto simp: acknowledge_prepare_ok)
  have gen: "ga_generation a = pm_generation m" and dig: "ga_manifest_digest a = dg"
    using arg_cong [OF a, of ga_generation] arg_cong [OF a, of ga_manifest_digest] dg
      PeerDelivery_new_fields [OF d] by (simp_all add: GatewayAcknowledgement_applied_def)
  have "report_wg_users r = Some (AppliedInterface_wg_users (pm_generation m) dg)"
    using assms(5) gen dig by (simp add: report_wg_users_Some [OF assms(3)] AppliedInterface_wg_users_def)
  with assms(3,4) m dg acknowledge_desired [OF assms(2)] show ?thesis
    by (simp add: poll_def AppliedInterface_wg_users_def)
qed

end

interpretation ims: gateway_state_store in_memory_ops applied_lookup
  by unfold_locales
    (auto simp: in_memory_ops_def record_applied_def desired_manifest_def applied_lookup_def lock_def
      fun_eq_iff split: if_splits sum.splits)

section \<open>Interleaved calls\<close>

text \<open>
  Any number of threads share the service and the store.  The state holds the acknowledgements
  that were checked and not yet recorded, and every assignment of a manifest to a gateway so far.
\<close>

record sync_state =
  ss_store :: in_memory_store
  ss_pending :: "(gateway_id \<times> peer_manifest \<times> manifest_digest) list"
  ss_assigned :: "(gateway_id \<times> peer_manifest) list"

definition sync_start :: sync_state where
  "sync_start = \<lparr>ss_store = InMemoryGatewayStateStore_default, ss_pending = [], ss_assigned = []\<rparr>"

inductive sync_step :: "codec \<Rightarrow> sync_state \<Rightarrow> sync_state \<Rightarrow> bool" for cd where
  sync_assign: "set_desired g m (ss_store s) = (r, st) \<Longrightarrow>
     sync_step cd s (s\<lparr>ss_store := st,
       ss_assigned := (if is_ok r then (g, m) # ss_assigned s else ss_assigned s)\<rparr>)"
| sync_check: "acknowledge_prepare in_memory_ops cd a (ss_store s) = Inr (m, dg) \<Longrightarrow>
     sync_step cd s (s\<lparr>ss_pending := (ga_gateway_id a, m, dg) # ss_pending s\<rparr>)"
| sync_record: "ss_pending s = before @ (g, m, dg) # after \<Longrightarrow>
     record_applied g m dg (ss_store s) = (r, st) \<Longrightarrow>
     sync_step cd s (s\<lparr>ss_store := st, ss_pending := before @ after\<rparr>)"

inductive_cases sync_stepE: "sync_step cd s s'"

definition desired_map :: "in_memory_store \<Rightarrow> gateway_id \<rightharpoonup> peer_manifest" where
  "desired_map s = rw_content (ims_desired s)"

definition applied_map :: "in_memory_store \<Rightarrow> gateway_id \<rightharpoonup> peer_manifest \<times> manifest_digest" where
  "applied_map s = rw_content (ims_applied s)"

definition sync_inv :: "codec \<Rightarrow> sync_state \<Rightarrow> bool" where
  "sync_inv cd s \<longleftrightarrow>
     (\<forall>g m. desired_map (ss_store s) g = Some m \<longrightarrow> (g, m) \<in> set (ss_assigned s))
     \<and> (\<forall>(g, m, dg)\<in>set (ss_pending s). (g, m) \<in> set (ss_assigned s) \<and> manifest_digest_of cd m = Inr dg)
     \<and> (\<forall>g m dg. applied_map (ss_store s) g = Some (m, dg) \<longrightarrow>
          (g, m) \<in> set (ss_assigned s) \<and> manifest_digest_of cd m = Inr dg)"

lemma set_desired_cases:
  assumes "set_desired g m s = (r, s')"
  shows "applied_map s' = applied_map s
    \<and> (if is_ok r then desired_map s' = (desired_map s)(g \<mapsto> m) else s' = s)"
  using assms
  by (auto simp: set_desired_def desired_map_def applied_map_def lock_def split: if_splits sum.splits)

lemma record_applied_cases:
  assumes "record_applied g m d s = (r, s')"
  shows "desired_map s' = desired_map s
    \<and> (applied_map s' = (applied_map s)(g \<mapsto> (m, d)) \<or> s' = s)"
  using assms
  by (auto simp: record_applied_def desired_map_def applied_map_def lock_def split: if_splits sum.splits)

lemma prepare_assigned:
  assumes "codec_ok cd" and "acknowledge_prepare in_memory_ops cd a s = Inr (m, dg)"
  shows "desired_map s (ga_gateway_id a) = Some m \<and> manifest_digest_of cd m = Inr dg"
  using ims.acknowledge_prepare_ok [OF assms(1)] assms(2)
  by (auto simp: in_memory_ops_def desired_manifest_def desired_map_def lock_def split: if_splits)

lemma sync_step_inv:
  assumes "codec_ok cd" and "sync_step cd s s'" and "sync_inv cd s"
  shows "sync_inv cd s'"
  using assms(2)
proof (cases rule: sync_step.cases)
  case (sync_assign g m r st)
  then show ?thesis using assms(3) set_desired_cases [OF sync_assign(2)]
    by (fastforce simp: sync_inv_def split: if_splits)
next
  case (sync_check a m dg)
  then show ?thesis using assms(3) prepare_assigned [OF assms(1) sync_check(2)]
    by (auto simp: sync_inv_def)
next
  case (sync_record before g m dg after r st)
  then show ?thesis using assms(3) record_applied_cases [OF sync_record(3)]
    by (auto simp: sync_inv_def split: if_splits)
qed

lemma sync_steps_inv:
  assumes "codec_ok cd" and "(sync_step cd)\<^sup>*\<^sup>* s s'" and "sync_inv cd s"
  shows "sync_inv cd s'"
  using assms(2,3) by (induction) (auto intro: sync_step_inv [OF assms(1)])

lemma sync_start_inv: "sync_inv cd sync_start"
  by (simp add: sync_inv_def sync_start_def InMemoryGatewayStateStore_default_def desired_map_def applied_map_def)

section \<open>Properties\<close>

definition demo_gateway :: gateway_id where
  "demo_gateway = GatewayId (PeerId ''gateway-1'')"

definition demo_store :: in_memory_store where
  "demo_store = snd (set_desired demo_gateway demo_manifest InMemoryGatewayStateStore_default)"

lemma demo_store_eq:
  "demo_store = \<lparr>ims_desired = \<lparr>rw_poisoned = False, rw_content = [demo_gateway \<mapsto> demo_manifest]\<rparr>,
     ims_applied = \<lparr>rw_poisoned = False, rw_content = (\<lambda>_. None)\<rparr>\<rparr>"
  by (simp add: demo_store_def set_desired_def lock_def InMemoryGatewayStateStore_default_def)

text \<open>
  C11: The decision of \<open>poll\<close> is the table \<open>poll_spec\<close>, and the table leaves no choice.  Unsupported
  reports, an unavailable store and unassigned gateways are refused; a gateway with a newer
  generation, or with the desired generation and another digest, is refused; one with the desired
  generation and digest gets nothing; every other gateway, older or without a wg-users state, gets
  the delivery of its desired manifest.  No call panics or fails in building the delivery.
\<close>

theorem poll_decision:
  assumes "codec_ok cd"
  shows "poll_spec in_memory_ops cd r s answer \<longleftrightarrow> answer = poll in_memory_ops cd r s"
proof
  assume "poll_spec in_memory_ops cd r s answer"
  then show "answer = poll in_memory_ops cd r s"
    by (rule poll_spec_unique) (rule ims.poll_meets_spec [OF assms])
next
  assume "answer = poll in_memory_ops cd r s"
  then show "poll_spec in_memory_ops cd r s answer"
    by (simp only: ims.poll_meets_spec [OF assms])
qed

theorem poll_decision_witness:
  "codec_ok demo_codec
   \<and> poll_spec in_memory_ops demo_codec (GatewayStateReport_new demo_gateway []) InMemoryGatewayStateStore_default
       (Inl (Err UnconfiguredGateway))
   \<and> poll in_memory_ops demo_codec (GatewayStateReport_new demo_gateway []) InMemoryGatewayStateStore_default
       = Inl (Err UnconfiguredGateway)"
proof -
  have "poll_spec in_memory_ops demo_codec (GatewayStateReport_new demo_gateway []) InMemoryGatewayStateStore_default
       (Inl (Err UnconfiguredGateway))"
    by (simp add: poll_spec_def is_supported_def GatewayStateReport_new_def in_memory_ops_def
        desired_manifest_def lock_def InMemoryGatewayStateStore_default_def)
  moreover from this have "Inl (Err UnconfiguredGateway) = poll in_memory_ops demo_codec
      (GatewayStateReport_new demo_gateway []) InMemoryGatewayStateStore_default"
    by (simp only: poll_decision [OF demo_codec_ok])
  ultimately show ?thesis using demo_codec_ok by simp
qed

text \<open>
  Synchronisation converges in one round.  When \<open>poll\<close> hands out a delivery and no lock is
  poisoned, acknowledging that delivery as applied succeeds, records exactly the delivered manifest
  and digest for that gateway and leaves the desired state alone; and every supported report of the
  gateway that lists the delivered generation and digest is then answered with nothing to do.
\<close>

theorem sync_converges:
  assumes "codec_ok cd" and "poll in_memory_ops cd r s = Inr (Some d)"
    and "\<not> rw_poisoned (ims_applied s)"
  shows "\<exists>s'. acknowledge in_memory_ops cd (GatewayAcknowledgement_applied d) s = (Inr (), s')
      \<and> applied_lookup s' (gsr_gateway_id r) = Inr (Some (pd_manifest d, pd_manifest_digest d))
      \<and> desired_manifest s' = desired_manifest s
      \<and> (\<forall>r'. is_supported r' \<and> gsr_gateway_id r' = gsr_gateway_id r
           \<and> AppliedInterface_wg_users (pm_generation (pd_manifest d)) (pd_manifest_digest d) \<in> set (gsr_applied r')
           \<longrightarrow> poll in_memory_ops cd r' s' = Inr None)"
proof -
  let ?a = "GatewayAcknowledgement_applied d"
  obtain m where m: "desired_manifest s (gsr_gateway_id r) = Inr (Some m)"
    and d: "PeerDelivery_new cd (gsr_gateway_id r) m = Inr d"
    using ims.poll_meets_spec [OF assms(1), of r s] assms(2)
    by (auto simp: poll_spec_def Let_def in_memory_ops_def)
  note df = PeerDelivery_new_fields [OF d]
  have gid: "ga_gateway_id ?a = gsr_gateway_id r" by (simp add: GatewayAcknowledgement_applied_def df)
  have prep: "acknowledge_prepare in_memory_ops cd ?a s = Inr (m, pd_manifest_digest d)"
    using m d df(3) by (simp add: ims.acknowledge_prepare_ok [OF assms(1)] gid) (simp add: in_memory_ops_def)
  then obtain s' where ack: "acknowledge in_memory_ops cd ?a s = (Inr (), s')"
    and rec: "record_applied (gsr_gateway_id r) m (pd_manifest_digest d) s = (Inr (), s')"
    using assms(3) by (auto simp: acknowledge_def in_memory_ops_def record_applied_def lock_def gid)
  have "applied_lookup s' (gsr_gateway_id r) = Inr (Some (pd_manifest d, pd_manifest_digest d))"
    using ims.record_applied_ok [of "gsr_gateway_id r" m "pd_manifest_digest d" s] rec
    by (simp add: in_memory_ops_def df)
  moreover have "desired_manifest s' = desired_manifest s"
    using ims.acknowledge_desired [OF ack] by (simp add: in_memory_ops_def)
  moreover have "poll in_memory_ops cd r' s' = Inr None"
    if "is_supported r'" and "gsr_gateway_id r' = gsr_gateway_id r"
      and "AppliedInterface_wg_users (pm_generation (pd_manifest d)) (pd_manifest_digest d) \<in> set (gsr_applied r')" for r'
    using ims.acknowledged_is_current [OF assms(1) ack that(1)] that gid
    by (simp add: GatewayAcknowledgement_applied_def)
  ultimately show ?thesis using ack by blast
qed

lemma demo_poll:
  obtains d where "PeerDelivery_new demo_codec demo_gateway demo_manifest = Inr d"
    and "poll in_memory_ops demo_codec (GatewayStateReport_new demo_gateway []) demo_store = Inr (Some d)"
proof -
  obtain d dg where d: "manifest_digest_of demo_codec demo_manifest = Inr dg"
      "PeerDelivery_new demo_codec demo_gateway demo_manifest = Inr d"
    using demo_codec_ok by (rule PeerDelivery_new_ok)
  then show ?thesis
    using that by (simp add: poll_def is_supported_def GatewayStateReport_new_def in_memory_ops_def
        desired_manifest_def lock_def demo_store_eq report_wg_users_def)
qed

theorem sync_converges_witness:
  "\<exists>d s'. poll in_memory_ops demo_codec (GatewayStateReport_new demo_gateway []) demo_store = Inr (Some d)
     \<and> acknowledge in_memory_ops demo_codec (GatewayAcknowledgement_applied d) demo_store = (Inr (), s')"
proof -
  obtain d where poll: "poll in_memory_ops demo_codec (GatewayStateReport_new demo_gateway []) demo_store
      = Inr (Some d)" by (rule demo_poll)
  have "\<not> rw_poisoned (ims_applied demo_store)" by (simp add: demo_store_eq)
  from sync_converges [OF demo_codec_ok poll this] poll show ?thesis by blast
qed

text \<open>
  C13: The store records what a gateway acknowledged exactly, or nothing.  \<open>acknowledge\<close> succeeds
  exactly when both locks are usable and the acknowledgement is the one built from the delivery
  of the manifest now desired for its gateway; it then changes the applied entry of that gateway
  only, to that manifest and its digest.  In every other case it returns an error and leaves the
  store as it was; it never panics.
\<close>

theorem acknowledge_exact:
  assumes "codec_ok cd" and "acknowledge in_memory_ops cd a s = (r, s')"
  shows "(is_ok r \<longleftrightarrow> \<not> rw_poisoned (ims_desired s) \<and> \<not> rw_poisoned (ims_applied s)
        \<and> (\<exists>m d. desired_map s (ga_gateway_id a) = Some m \<and> PeerDelivery_new cd (ga_gateway_id a) m = Inr d
             \<and> a = GatewayAcknowledgement_applied d))
    \<and> (if is_ok r
       then \<exists>m dg. desired_map s (ga_gateway_id a) = Some m \<and> manifest_digest_of cd m = Inr dg
            \<and> applied_map s' = (applied_map s)(ga_gateway_id a \<mapsto> (m, dg)) \<and> desired_map s' = desired_map s
       else s' = s \<and> r \<noteq> Inl Panic)"
proof (cases "acknowledge_prepare in_memory_ops cd a s")
  case (Inl e)
  then have r: "r = Inl e" "s' = s" using assms(2) by (auto simp: acknowledge_def)
  have "\<not> (\<exists>m dg. acknowledge_prepare in_memory_ops cd a s = Inr (m, dg))" using Inl by simp
  then have "\<not> (\<not> rw_poisoned (ims_desired s) \<and> (\<exists>m d. desired_map s (ga_gateway_id a) = Some m
      \<and> PeerDelivery_new cd (ga_gateway_id a) m = Inr d \<and> a = GatewayAcknowledgement_applied d))"
    using PeerDelivery_new_fields(3) unfolding ims.acknowledge_prepare_ok [OF assms(1)]
    by (fastforce simp: in_memory_ops_def desired_manifest_def desired_map_def lock_def)
  moreover have "e \<noteq> Panic"
    using Inl PeerDelivery_new_ok [OF assms(1)]
    by (auto simp: acknowledge_prepare_def split: sum.splits option.splits if_splits) (metis Inl_Inr_False)
  ultimately show ?thesis using r by auto
next
  case (Inr x)
  then obtain m dg where prep: "acknowledge_prepare in_memory_ops cd a s = Inr (m, dg)" by (cases x) auto
  then have "\<not> rw_poisoned (ims_desired s)" and m: "desired_map s (ga_gateway_id a) = Some m"
    and dg: "manifest_digest_of cd m = Inr dg"
    and "\<exists>d. PeerDelivery_new cd (ga_gateway_id a) m = Inr d \<and> a = GatewayAcknowledgement_applied d"
    unfolding ims.acknowledge_prepare_ok [OF assms(1)]
    by (auto simp: in_memory_ops_def desired_manifest_def desired_map_def lock_def split: if_splits)
  then show ?thesis
    using assms(2) prep
    by (cases "rw_poisoned (ims_applied s)")
      (auto simp: acknowledge_def in_memory_ops_def record_applied_def lock_def applied_map_def desired_map_def)
qed

theorem acknowledge_exact_witness:
  "\<exists>d r s'. PeerDelivery_new demo_codec demo_gateway demo_manifest = Inr d
     \<and> acknowledge in_memory_ops demo_codec (GatewayAcknowledgement_applied d) demo_store = (r, s') \<and> is_ok r"
proof -
  obtain d where d: "PeerDelivery_new demo_codec demo_gateway demo_manifest = Inr d" by (rule demo_poll)
  let ?a = "GatewayAcknowledgement_applied d"
  obtain r s' where ack: "acknowledge in_memory_ops demo_codec ?a demo_store = (r, s')" by fastforce
  have "ga_gateway_id ?a = demo_gateway"
    by (simp add: GatewayAcknowledgement_applied_def PeerDelivery_new_fields [OF d])
  with acknowledge_exact [OF demo_codec_ok ack] d have "is_ok r"
    by (auto simp: demo_store_eq desired_map_def)
  with d ack show ?thesis by blast
qed

text \<open>
  C14: Whatever the threads do.  In every interleaving of assignments and of the two halves of any
  number of acknowledgements, the applied state recorded for a gateway is a manifest that was
  assigned to this very gateway at some time, with the digest of that manifest.
\<close>

theorem applied_was_assigned:
  assumes "codec_ok cd" and "(sync_step cd)\<^sup>*\<^sup>* sync_start s"
    and "applied_lookup (ss_store s) g = Inr (Some (m, dg))"
  shows "(g, m) \<in> set (ss_assigned s) \<and> manifest_digest_of cd m = Inr dg"
proof -
  from assms(3) have "applied_map (ss_store s) g = Some (m, dg)"
    by (auto simp: applied_lookup_def applied_map_def lock_def split: if_splits)
  with sync_steps_inv [OF assms(1,2) sync_start_inv] show ?thesis by (simp add: sync_inv_def)
qed

theorem applied_was_assigned_witness:
  "\<exists>s dg. (sync_step demo_codec)\<^sup>*\<^sup>* sync_start s
     \<and> applied_lookup (ss_store s) demo_gateway = Inr (Some (demo_manifest, dg))
     \<and> (demo_gateway, demo_manifest) \<in> set (ss_assigned s)"
proof -
  let ?s1 = "sync_start\<lparr>ss_store := demo_store, ss_assigned := [(demo_gateway, demo_manifest)]\<rparr>"
  have one: "sync_step demo_codec sync_start ?s1"
    using sync_assign [of demo_gateway demo_manifest sync_start "Inr ()" demo_store]
    by (simp add: sync_start_def demo_store_eq set_desired_def lock_def InMemoryGatewayStateStore_default_def)
  obtain d where d: "PeerDelivery_new demo_codec demo_gateway demo_manifest = Inr d" by (rule demo_poll)
  let ?dg = "pd_manifest_digest d" and ?a = "GatewayAcknowledgement_applied d"
  have gid: "ga_gateway_id ?a = demo_gateway"
    by (simp add: GatewayAcknowledgement_applied_def PeerDelivery_new_fields [OF d])
  have "acknowledge_prepare in_memory_ops demo_codec ?a (ss_store ?s1) = Inr (demo_manifest, ?dg)"
    unfolding ims.acknowledge_prepare_ok [OF demo_codec_ok] gid
    using d PeerDelivery_new_fields(3) [OF d]
    by (simp add: in_memory_ops_def desired_manifest_def lock_def demo_store_eq)
  from sync_check [OF this]
  have two: "sync_step demo_codec ?s1 (?s1\<lparr>ss_pending := [(demo_gateway, demo_manifest, ?dg)]\<rparr>)"
    by (simp add: gid sync_start_def)
  obtain st where rec: "record_applied demo_gateway demo_manifest ?dg demo_store = (Inr (), st)"
      and look: "applied_lookup st demo_gateway = Inr (Some (demo_manifest, ?dg))"
    by (simp add: record_applied_def lock_def demo_store_eq applied_lookup_def)
  have three: "sync_step demo_codec (?s1\<lparr>ss_pending := [(demo_gateway, demo_manifest, ?dg)]\<rparr>)
      (?s1\<lparr>ss_store := st, ss_pending := []\<rparr>)"
    using sync_record [of "?s1\<lparr>ss_pending := [(demo_gateway, demo_manifest, ?dg)]\<rparr>" "[]" demo_gateway
        demo_manifest ?dg "[]" "Inr ()" st] rec by simp
  from one two three have run: "(sync_step demo_codec)\<^sup>*\<^sup>* sync_start (?s1\<lparr>ss_store := st, ss_pending := []\<rparr>)"
    by (meson converse_rtranclp_into_rtranclp r_into_rtranclp)
  from applied_was_assigned [OF demo_codec_ok run] look run show ?thesis by fastforce
qed

end
