(* ===== verification/Wire.thy ===== *)
theory Wire
  imports Serde Gateway_Sync
begin

text \<open>
  The wire form of the gateway contract: the \<open>Serialize\<close> and \<open>Deserialize\<close> implementations of
  \<open>policy/src/vpn.rs\<close> and \<open>policy/src/contract.rs\<close>, derived or written by hand.  Base64 decoding is
  the parameter \<open>b64_decode\<close>, as in \<open>Vpn\<close>.

  An identifier, key, generation or digest is \<open>\<dots>_made\<close> when its constructor accepts it; a message is
  \<open>\<dots>_parts_ok\<close> when all of these in it are.  That is what decoding checks, and all it checks: the
  schema version, a digest that belongs to its manifest, the order and uniqueness of peers and the time
  are established by the constructors of messages (\<open>\<dots>_built\<close>) and checked by who receives them.
\<close>

section \<open>Identifiers, keys, addresses and generations\<close>

definition PeerId_deserialize :: "peer_id de" where
  "PeerId_deserialize = de_new de_string PeerId_new"

definition GatewayId_deserialize :: "gateway_id de" where
  "GatewayId_deserialize = de_new de_string GatewayId_new"

definition WireGuardPublicKey_deserialize :: "(string \<Rightarrow> bytes option) \<Rightarrow> wg_public_key de" where
  "WireGuardPublicKey_deserialize b64_decode = de_new de_string (WireGuardPublicKey_new b64_decode)"

definition OverlayAddress_deserialize :: "overlay_address de" where
  "OverlayAddress_deserialize = de_new de_string overlay_address_from_str"

definition Generation_deserialize :: "generation de" where
  "Generation_deserialize = de_new de_u64 Generation_new"

definition ManifestDigest_deserialize :: "manifest_digest de" where
  "ManifestDigest_deserialize = de_new de_string ManifestDigest_new"

definition HealthPolicy_deserialize :: "health_policy de" where
  "HealthPolicy_deserialize = de_unit_variant [(''required'', Required), (''on_demand'', OnDemand)]"

definition Permission_deserialize :: "permission de" where
  "Permission_deserialize = de_unit_variant [(''egress'', Egress), (''games'', Games)]"

section \<open>Messages\<close>

definition GatewayPeer_deserialize :: "(string \<Rightarrow> bytes option) \<Rightarrow> gateway_peer de" where
  "GatewayPeer_deserialize b64_decode j = do {
     seen \<leftarrow> de_struct True [''peer_id'', ''public_key'', ''address'', ''health_policy'', ''permissions''] j;
     i \<leftarrow> de_field seen ''peer_id'' PeerId_deserialize;
     k \<leftarrow> de_field seen ''public_key'' (WireGuardPublicKey_deserialize b64_decode);
     a \<leftarrow> de_field seen ''address'' OverlayAddress_deserialize;
     h \<leftarrow> de_field seen ''health_policy'' HealthPolicy_deserialize;
     ps \<leftarrow> de_field seen ''permissions'' (de_vec Permission_deserialize);
     Some \<lparr>gp_peer_id = i, gp_public_key = k, gp_address = a, gp_health_policy = h, gp_permissions = ps\<rparr> }"

definition PeerManifest_deserialize :: "(string \<Rightarrow> bytes option) \<Rightarrow> peer_manifest de" where
  "PeerManifest_deserialize b64_decode j = do {
     seen \<leftarrow> de_struct True [''schema_version'', ''interface'', ''generation'', ''generated_at'', ''peers''] j;
     v \<leftarrow> de_field seen ''schema_version'' de_u8;
     i \<leftarrow> de_field seen ''interface'' de_string;
     g \<leftarrow> de_field seen ''generation'' Generation_deserialize;
     t \<leftarrow> de_field seen ''generated_at'' de_string;
     ps \<leftarrow> de_field seen ''peers'' (de_vec (GatewayPeer_deserialize b64_decode));
     Some \<lparr>pm_schema_version = v, pm_interface = i, pm_generation = g, pm_generated_at = t, pm_peers = ps\<rparr> }"

definition AppliedInterface_deserialize :: "applied_interface de" where
  "AppliedInterface_deserialize j = do {
     seen \<leftarrow> de_struct True [''interface'', ''generation'', ''manifest_digest''] j;
     i \<leftarrow> de_field seen ''interface'' de_string;
     g \<leftarrow> de_field seen ''generation'' Generation_deserialize;
     d \<leftarrow> de_field seen ''manifest_digest'' ManifestDigest_deserialize;
     Some \<lparr>ai_interface = i, ai_generation = g, ai_manifest_digest = d\<rparr> }"

definition GatewayStateReport_deserialize :: "gateway_state_report de" where
  "GatewayStateReport_deserialize j = do {
     seen \<leftarrow> de_struct True [''schema_version'', ''gateway_id'', ''applied''] j;
     v \<leftarrow> de_field seen ''schema_version'' de_u8;
     g \<leftarrow> de_field seen ''gateway_id'' GatewayId_deserialize;
     as \<leftarrow> de_field seen ''applied'' (de_vec AppliedInterface_deserialize);
     Some \<lparr>gsr_schema_version = v, gsr_gateway_id = g, gsr_applied = as\<rparr> }"

definition PeerDelivery_deserialize :: "(string \<Rightarrow> bytes option) \<Rightarrow> peer_delivery de" where
  "PeerDelivery_deserialize b64_decode j = do {
     seen \<leftarrow> de_struct True [''schema_version'', ''gateway_id'', ''delivery_id'', ''manifest_digest'', ''manifest''] j;
     v \<leftarrow> de_field seen ''schema_version'' de_u8;
     g \<leftarrow> de_field seen ''gateway_id'' GatewayId_deserialize;
     i \<leftarrow> de_field seen ''delivery_id'' de_string;
     d \<leftarrow> de_field seen ''manifest_digest'' ManifestDigest_deserialize;
     m \<leftarrow> de_field seen ''manifest'' (PeerManifest_deserialize b64_decode);
     Some \<lparr>pd_schema_version = v, pd_gateway_id = g, pd_delivery_id = i, pd_manifest_digest = d, pd_manifest = m\<rparr> }"

definition GatewayAcknowledgement_deserialize :: "gateway_acknowledgement de" where
  "GatewayAcknowledgement_deserialize j = do {
     seen \<leftarrow> de_struct True [''schema_version'', ''gateway_id'', ''delivery_id'', ''interface'', ''generation'',
       ''manifest_digest'', ''outcome''] j;
     v \<leftarrow> de_field seen ''schema_version'' de_u8;
     g \<leftarrow> de_field seen ''gateway_id'' GatewayId_deserialize;
     i \<leftarrow> de_field seen ''delivery_id'' de_string;
     n \<leftarrow> de_field seen ''interface'' de_string;
     t \<leftarrow> de_field seen ''generation'' Generation_deserialize;
     d \<leftarrow> de_field seen ''manifest_digest'' ManifestDigest_deserialize;
     r \<leftarrow> de_field seen ''outcome'' de_string;
     Some \<lparr>ga_schema_version = v, ga_gateway_id = g, ga_delivery_id = i, ga_interface = n, ga_generation = t,
       ga_manifest_digest = d, ga_outcome = r\<rparr> }"

text \<open>The derived \<open>Serialize\<close> implementations; those of a peer and a manifest are in \<open>Contract\<close>.\<close>

definition gateway_id_value :: "gateway_id \<Rightarrow> json" where
  "gateway_id_value g = JString (peer_str (gateway_peer_id g))"

definition generation_value :: "generation \<Rightarrow> json" where
  "generation_value g = JNumber (uint (generation_get g))"

definition digest_value :: "manifest_digest \<Rightarrow> json" where
  "digest_value d = JString (digest_str d)"

definition applied_interface_value :: "applied_interface \<Rightarrow> json" where
  "applied_interface_value a = JObject
     [(''interface'', JString (ai_interface a)),
      (''generation'', generation_value (ai_generation a)),
      (''manifest_digest'', digest_value (ai_manifest_digest a))]"

definition report_value :: "gateway_state_report \<Rightarrow> json" where
  "report_value r = JObject
     [(''schema_version'', JNumber (uint (gsr_schema_version r))),
      (''gateway_id'', gateway_id_value (gsr_gateway_id r)),
      (''applied'', JArray (map applied_interface_value (gsr_applied r)))]"

definition delivery_value :: "peer_delivery \<Rightarrow> json" where
  "delivery_value d = JObject
     [(''schema_version'', JNumber (uint (pd_schema_version d))),
      (''gateway_id'', gateway_id_value (pd_gateway_id d)),
      (''delivery_id'', JString (pd_delivery_id d)),
      (''manifest_digest'', digest_value (pd_manifest_digest d)),
      (''manifest'', manifest_value (pd_manifest d))]"

definition acknowledgement_value :: "gateway_acknowledgement \<Rightarrow> json" where
  "acknowledgement_value a = JObject
     [(''schema_version'', JNumber (uint (ga_schema_version a))),
      (''gateway_id'', gateway_id_value (ga_gateway_id a)),
      (''delivery_id'', JString (ga_delivery_id a)),
      (''interface'', JString (ga_interface a)),
      (''generation'', generation_value (ga_generation a)),
      (''manifest_digest'', digest_value (ga_manifest_digest a)),
      (''outcome'', JString (ga_outcome a))]"

section \<open>Values with valid parts\<close>

definition gateway_id_made :: "gateway_id \<Rightarrow> bool" where
  "gateway_id_made g \<longleftrightarrow> valid_opaque_id (peer_str (gateway_peer_id g))"

definition generation_made :: "generation \<Rightarrow> bool" where
  "generation_made g \<longleftrightarrow> generation_get g \<noteq> 0"

definition digest_made :: "manifest_digest \<Rightarrow> bool" where
  "digest_made d \<longleftrightarrow> length (digest_str d) = 64 \<and> list_all lower_hex (digest_str d)"

definition key_made :: "(string \<Rightarrow> bytes option) \<Rightarrow> wg_public_key \<Rightarrow> bool" where
  "key_made b64_decode k \<longleftrightarrow> WireGuardPublicKey_new b64_decode (key_str k) = Inr k"

definition peer_parts_ok :: "(string \<Rightarrow> bytes option) \<Rightarrow> gateway_peer \<Rightarrow> bool" where
  "peer_parts_ok b64_decode p \<longleftrightarrow> valid_opaque_id (peer_str (gp_peer_id p)) \<and> key_made b64_decode (gp_public_key p)
     \<and> overlay_ok (gp_address p)"

definition manifest_parts_ok :: "(string \<Rightarrow> bytes option) \<Rightarrow> peer_manifest \<Rightarrow> bool" where
  "manifest_parts_ok b64_decode m \<longleftrightarrow> generation_made (pm_generation m) \<and> list_all (peer_parts_ok b64_decode) (pm_peers m)"

definition applied_parts_ok :: "applied_interface \<Rightarrow> bool" where
  "applied_parts_ok a \<longleftrightarrow> generation_made (ai_generation a) \<and> digest_made (ai_manifest_digest a)"

definition report_parts_ok :: "gateway_state_report \<Rightarrow> bool" where
  "report_parts_ok r \<longleftrightarrow> gateway_id_made (gsr_gateway_id r) \<and> list_all applied_parts_ok (gsr_applied r)"

definition delivery_parts_ok :: "(string \<Rightarrow> bytes option) \<Rightarrow> peer_delivery \<Rightarrow> bool" where
  "delivery_parts_ok b64_decode d \<longleftrightarrow> gateway_id_made (pd_gateway_id d) \<and> digest_made (pd_manifest_digest d)
     \<and> manifest_parts_ok b64_decode (pd_manifest d)"

definition acknowledgement_parts_ok :: "gateway_acknowledgement \<Rightarrow> bool" where
  "acknowledgement_parts_ok a \<longleftrightarrow> gateway_id_made (ga_gateway_id a) \<and> generation_made (ga_generation a)
     \<and> digest_made (ga_manifest_digest a)"

section \<open>Messages the constructors make\<close>

definition vpn_peer_made :: "(string \<Rightarrow> bytes option) \<Rightarrow> vpn_peer \<Rightarrow> bool" where
  "vpn_peer_made b64_decode p \<longleftrightarrow> valid_opaque_id (peer_str (vp_peer_id p))
     \<and> key_made b64_decode (vp_public_key p) \<and> overlay_ok (vp_address p)"

definition applied_built :: "applied_interface \<Rightarrow> bool" where
  "applied_built a \<longleftrightarrow> (\<exists>g dg. generation_made g \<and> digest_made dg \<and> a = AppliedInterface_wg_users g dg)"

definition report_built :: "gateway_state_report \<Rightarrow> bool" where
  "report_built r \<longleftrightarrow> (\<exists>gid as. gateway_id_made gid \<and> list_all applied_built as \<and> r = GatewayStateReport_new gid as)"

definition delivery_built :: "codec \<Rightarrow> (string \<Rightarrow> bytes option) \<Rightarrow> peer_delivery \<Rightarrow> bool" where
  "delivery_built cd b64_decode d \<longleftrightarrow>
     (\<exists>gid g t peers m. gateway_id_made gid \<and> generation_made g \<and> list_all (vpn_peer_made b64_decode) peers
        \<and> PeerManifest_new g t peers = Inr m \<and> PeerDelivery_new cd gid m = Inr d)"

text \<open>A gateway acknowledges a delivery it received, so one that was read.\<close>

definition acknowledgement_built :: "(string \<Rightarrow> bytes option) \<Rightarrow> gateway_acknowledgement \<Rightarrow> bool" where
  "acknowledgement_built b64_decode a \<longleftrightarrow>
     (\<exists>d. delivery_parts_ok b64_decode d \<and> a = GatewayAcknowledgement_applied d)"

section \<open>Scalars\<close>

lemma PeerId_de: "PeerId_deserialize j = Some i \<longleftrightarrow> j = JString (peer_str i) \<and> valid_opaque_id (peer_str i)"
  by (cases j; cases i) (auto simp: PeerId_deserialize_def de_new_eq_Some de_string_def PeerId_new_def)

lemma GatewayId_de: "GatewayId_deserialize j = Some g \<longleftrightarrow> j = gateway_id_value g \<and> gateway_id_made g"
proof (cases g)
  case (GatewayId i)
  then show ?thesis
    by (cases j; cases i) (auto simp: GatewayId_deserialize_def de_new_eq_Some de_string_def GatewayId_new_def
        PeerId_new_def map_ok_def gateway_id_value_def gateway_id_made_def)
qed

lemma key_made_iff: "WireGuardPublicKey_new b64 s = Inr k \<longleftrightarrow> s = key_str k \<and> key_made b64 k"
  by (cases k) (auto simp: key_made_def WireGuardPublicKey_new_def split: option.splits if_splits)

lemma key_de: "WireGuardPublicKey_deserialize b64 j = Some k \<longleftrightarrow> j = JString (key_str k) \<and> key_made b64 k"
  by (cases j) (auto simp: WireGuardPublicKey_deserialize_def de_new_eq_Some de_string_def key_made_iff)

lemma address_de:
  "OverlayAddress_deserialize j = Some a \<longleftrightarrow> j = JString (overlay_address_str a) \<and> overlay_ok a"
  by (cases j) (auto simp: OverlayAddress_deserialize_def de_new_eq_Some de_string_def overlay_address_from_str_Inr)

lemma de_u64_iff: "de_u64 j = Some n \<longleftrightarrow> j = JNumber (uint n)"
proof
  assume "de_u64 j = Some n"
  then show "j = JNumber (uint n)"
    by (cases j) (auto simp: de_u64_def uint_word_of_int split: if_splits)
qed simp

lemma de_u8_iff: "de_u8 j = Some n \<longleftrightarrow> j = JNumber (uint n)"
proof
  assume "de_u8 j = Some n"
  then show "j = JNumber (uint n)"
    by (cases j) (auto simp: de_u8_def uint_word_of_int split: if_splits)
qed simp

lemma generation_de: "Generation_deserialize j = Some g \<longleftrightarrow> j = generation_value g \<and> generation_made g"
  by (cases g) (auto simp: Generation_deserialize_def de_new_eq_Some de_u64_iff Generation_new_def
      generation_value_def generation_made_def split: if_splits)

lemma digest_de: "ManifestDigest_deserialize j = Some d \<longleftrightarrow> j = digest_value d \<and> digest_made d"
  by (cases j; cases d) (auto simp: ManifestDigest_deserialize_def de_new_eq_Some de_string_def ManifestDigest_new_def
      digest_value_def digest_made_def split: if_splits)

lemma de_string_iff: "de_string j = Some s \<longleftrightarrow> j = JString s"
  by (cases j) (auto simp: de_string_def)

lemma de_string_JString [simp]: "de_string (JString s) = Some s"
  by (simp add: de_string_iff)

lemma variants_de:
  "HealthPolicy_deserialize (JString (health_policy_str h)) = Some h"
  "Permission_deserialize (JString (permission_str p)) = Some p"
  by (cases h; simp add: HealthPolicy_deserialize_def de_unit_variant_def)
    (cases p; simp add: Permission_deserialize_def de_unit_variant_def)

lemmas scalars_de = PeerId_de GatewayId_de key_de address_de generation_de digest_de de_u8_iff de_string_iff

text \<open>Scalars and variants are read from their own canonical form only, so member order cannot matter.\<close>

lemma respects_canon_parts:
  "respects_canon PeerId_deserialize" "respects_canon GatewayId_deserialize"
  "respects_canon (WireGuardPublicKey_deserialize b64)" "respects_canon OverlayAddress_deserialize"
  "respects_canon Generation_deserialize" "respects_canon ManifestDigest_deserialize"
  "respects_canon HealthPolicy_deserialize" "respects_canon Permission_deserialize"
  unfolding PeerId_deserialize_def GatewayId_deserialize_def WireGuardPublicKey_deserialize_def
    OverlayAddress_deserialize_def Generation_deserialize_def ManifestDigest_deserialize_def
    HealthPolicy_deserialize_def Permission_deserialize_def
  by (intro respects_canon_intros)+

lemma respects_canon_peer: "respects_canon (GatewayPeer_deserialize b64)"
  unfolding GatewayPeer_deserialize_def [abs_def]
  by (rule respects_canon_struct) (simp add: de_field_canon respects_canon_intros respects_canon_parts)

lemma respects_canon_manifest: "respects_canon (PeerManifest_deserialize b64)"
  unfolding PeerManifest_deserialize_def [abs_def]
  by (rule respects_canon_struct)
    (simp add: de_field_canon respects_canon_intros respects_canon_parts respects_canon_peer)

lemma respects_canon_applied: "respects_canon AppliedInterface_deserialize"
  unfolding AppliedInterface_deserialize_def [abs_def]
  by (rule respects_canon_struct) (simp add: de_field_canon respects_canon_intros respects_canon_parts)

lemma respects_canon_messages:
  "respects_canon GatewayStateReport_deserialize" "respects_canon (PeerDelivery_deserialize b64)"
  "respects_canon GatewayAcknowledgement_deserialize"
  unfolding GatewayStateReport_deserialize_def [abs_def] PeerDelivery_deserialize_def [abs_def]
    GatewayAcknowledgement_deserialize_def [abs_def]
  by (rule respects_canon_struct, simp add: de_field_canon respects_canon_intros respects_canon_parts
      respects_canon_manifest respects_canon_applied)+

section \<open>Reading back what was written\<close>

lemma peer_back: "peer_parts_ok b64 p \<Longrightarrow> GatewayPeer_deserialize b64 (gateway_peer_value p) = Some p"
proof -
  assume made: "peer_parts_ok b64 p"
  have "de_vec Permission_deserialize (JArray (map (JString \<circ> permission_str) (gp_permissions p))) = Some (gp_permissions p)"
    by (rule de_vec_back) (simp add: variants_de)
  moreover have "PeerId_deserialize (JString (peer_str (gp_peer_id p))) = Some (gp_peer_id p)"
    and "WireGuardPublicKey_deserialize b64 (JString (key_str (gp_public_key p))) = Some (gp_public_key p)"
    and "OverlayAddress_deserialize (JString (overlay_address_str (gp_address p))) = Some (gp_address p)"
    using made by (simp_all add: peer_parts_ok_def scalars_de)
  ultimately show ?thesis
    by (simp add: GatewayPeer_deserialize_def gateway_peer_value_def de_struct_def de_field_def variants_de)
qed

lemma manifest_back:
  assumes "manifest_parts_ok b64 m"
  shows "PeerManifest_deserialize b64 (manifest_value m) = Some m"
proof -
  have "de_vec (GatewayPeer_deserialize b64) (JArray (map gateway_peer_value (pm_peers m))) = Some (pm_peers m)"
    using assms by (intro de_vec_back peer_back) (simp add: manifest_parts_ok_def list_all_iff)
  moreover have "Generation_deserialize (JNumber (uint (generation_get (pm_generation m)))) = Some (pm_generation m)"
    using assms by (simp add: manifest_parts_ok_def scalars_de generation_value_def)
  ultimately show ?thesis
    by (simp add: PeerManifest_deserialize_def manifest_value_def de_struct_def de_field_def de_u8_iff)
qed

lemma applied_back:
  assumes "applied_parts_ok a"
  shows "AppliedInterface_deserialize (applied_interface_value a) = Some a"
proof -
  have "Generation_deserialize (generation_value (ai_generation a)) = Some (ai_generation a)"
    and "ManifestDigest_deserialize (digest_value (ai_manifest_digest a)) = Some (ai_manifest_digest a)"
    using assms by (simp_all add: applied_parts_ok_def scalars_de)
  then show ?thesis
    by (simp add: AppliedInterface_deserialize_def applied_interface_value_def de_struct_def de_field_def)
qed

lemma report_back:
  assumes "report_parts_ok r"
  shows "GatewayStateReport_deserialize (report_value r) = Some r"
proof -
  have "de_vec AppliedInterface_deserialize (JArray (map applied_interface_value (gsr_applied r))) = Some (gsr_applied r)"
    using assms by (intro de_vec_back applied_back) (simp add: report_parts_ok_def list_all_iff)
  moreover have "GatewayId_deserialize (gateway_id_value (gsr_gateway_id r)) = Some (gsr_gateway_id r)"
    using assms by (simp add: report_parts_ok_def scalars_de)
  ultimately show ?thesis
    by (simp add: GatewayStateReport_deserialize_def report_value_def de_struct_def de_field_def de_u8_iff)
qed

lemma delivery_back:
  assumes "delivery_parts_ok b64 d"
  shows "PeerDelivery_deserialize b64 (delivery_value d) = Some d"
proof -
  have "GatewayId_deserialize (gateway_id_value (pd_gateway_id d)) = Some (pd_gateway_id d)"
    and "ManifestDigest_deserialize (digest_value (pd_manifest_digest d)) = Some (pd_manifest_digest d)"
    and "PeerManifest_deserialize b64 (manifest_value (pd_manifest d)) = Some (pd_manifest d)"
    using assms by (simp_all add: delivery_parts_ok_def scalars_de manifest_back)
  then show ?thesis
    by (simp add: PeerDelivery_deserialize_def delivery_value_def de_struct_def de_field_def de_u8_iff)
qed

lemma acknowledgement_back:
  assumes "acknowledgement_parts_ok a"
  shows "GatewayAcknowledgement_deserialize (acknowledgement_value a) = Some a"
proof -
  have "GatewayId_deserialize (gateway_id_value (ga_gateway_id a)) = Some (ga_gateway_id a)"
    and "Generation_deserialize (generation_value (ga_generation a)) = Some (ga_generation a)"
    and "ManifestDigest_deserialize (digest_value (ga_manifest_digest a)) = Some (ga_manifest_digest a)"
    using assms by (simp_all add: acknowledgement_parts_ok_def scalars_de)
  then show ?thesis
    by (simp add: GatewayAcknowledgement_deserialize_def acknowledgement_value_def de_struct_def de_field_def
        de_u8_iff)
qed

section \<open>Only values with valid parts are read\<close>

lemma de_vec_all:
  assumes "de_vec de j = Some xs" and "\<And>v x. de v = Some x \<Longrightarrow> P x"
  shows "list_all P xs"
  using assms by (auto simp: de_vec_eq_Some list_all_iff elim!: those_mapE)

lemma peer_read: "GatewayPeer_deserialize b64 j = Some p \<Longrightarrow> peer_parts_ok b64 p"
  by (auto simp: GatewayPeer_deserialize_def bind_eq_Some_conv de_field_eq_Some scalars_de peer_parts_ok_def)

lemma manifest_read: "PeerManifest_deserialize b64 j = Some m \<Longrightarrow> manifest_parts_ok b64 m"
  by (auto simp: PeerManifest_deserialize_def bind_eq_Some_conv de_field_eq_Some scalars_de manifest_parts_ok_def
      intro: de_vec_all peer_read)

lemma applied_read: "AppliedInterface_deserialize j = Some a \<Longrightarrow> applied_parts_ok a"
  by (auto simp: AppliedInterface_deserialize_def bind_eq_Some_conv de_field_eq_Some scalars_de applied_parts_ok_def)

lemma report_read: "GatewayStateReport_deserialize j = Some r \<Longrightarrow> report_parts_ok r"
  by (auto simp: GatewayStateReport_deserialize_def bind_eq_Some_conv de_field_eq_Some scalars_de report_parts_ok_def
      intro: de_vec_all applied_read)

lemma delivery_read: "PeerDelivery_deserialize b64 j = Some d \<Longrightarrow> delivery_parts_ok b64 d"
  by (auto simp: PeerDelivery_deserialize_def bind_eq_Some_conv de_field_eq_Some scalars_de delivery_parts_ok_def
      intro: manifest_read)

lemma acknowledgement_read: "GatewayAcknowledgement_deserialize j = Some a \<Longrightarrow> acknowledgement_parts_ok a"
  by (auto simp: GatewayAcknowledgement_deserialize_def bind_eq_Some_conv de_field_eq_Some scalars_de
      acknowledgement_parts_ok_def)

text \<open>Any text with the content of a written value, its members in any order, reads as that value.\<close>

lemma read_like:
  assumes "respects_canon de" and "canon j = canon j'"
  shows "de j = de j'"
  by (metis assms respects_canonD)

lemma read_reordered:
  "peer_parts_ok b64 p \<Longrightarrow> canon j = canon (gateway_peer_value p) \<Longrightarrow> GatewayPeer_deserialize b64 j = Some p"
  "manifest_parts_ok b64 m \<Longrightarrow> canon j = canon (manifest_value m) \<Longrightarrow> PeerManifest_deserialize b64 j = Some m"
  "report_parts_ok r \<Longrightarrow> canon j = canon (report_value r) \<Longrightarrow> GatewayStateReport_deserialize j = Some r"
  "delivery_parts_ok b64 d \<Longrightarrow> canon j = canon (delivery_value d) \<Longrightarrow> PeerDelivery_deserialize b64 j = Some d"
  "acknowledgement_parts_ok a \<Longrightarrow> canon j = canon (acknowledgement_value a) \<Longrightarrow> GatewayAcknowledgement_deserialize j = Some a"
  using read_like [OF respects_canon_peer, of j] read_like [OF respects_canon_manifest, of j]
    read_like [OF respects_canon_messages(1), of j] read_like [OF respects_canon_messages(2), of j]
    read_like [OF respects_canon_messages(3), of j]
  by (metis peer_back, metis manifest_back, metis report_back, metis delivery_back, metis acknowledgement_back)

lemma delivery_parts_new:
  assumes "codec_ok cd" and "PeerDelivery_new cd g m = Inr d" and "gateway_id_made g" and "manifest_parts_ok b64 m"
  shows "delivery_parts_ok b64 d"
proof -
  note new = PeerDelivery_new_fields [OF assms(2)]
  from manifest_digest_of_ok [OF assms(1), of m] obtain s where "pd_manifest_digest d = ManifestDigest (cd_sha256_hex cd s)"
    using new(3) by (metis Inr_inject)
  with new assms show ?thesis by (simp add: delivery_parts_ok_def digest_made_def codec_ok_def)
qed

lemma acknowledgement_parts_applied: "delivery_parts_ok b64 d \<Longrightarrow> acknowledgement_parts_ok (GatewayAcknowledgement_applied d)"
  by (simp add: delivery_parts_ok_def acknowledgement_parts_ok_def GatewayAcknowledgement_applied_def manifest_parts_ok_def)

lemma applied_built_parts: "applied_built a \<Longrightarrow> applied_parts_ok a"
  by (auto simp: applied_built_def applied_parts_ok_def AppliedInterface_wg_users_def)

lemma report_built_parts: "report_built r \<Longrightarrow> report_parts_ok r"
  by (auto simp: report_built_def report_parts_ok_def GatewayStateReport_new_def list_all_iff applied_built_parts)

lemma PeerManifest_new_parts:
  assumes "generation_made g" and "list_all (vpn_peer_made b64) peers" and "PeerManifest_new g t peers = Inr m"
  shows "manifest_parts_ok b64 m"
  using assms by (auto simp: PeerManifest_new_eq manifest_parts_ok_def list_all_iff vpn_peer_made_def peer_parts_ok_def
      GatewayPeer_from_def split: if_splits)

lemma delivery_built_parts: "codec_ok cd \<Longrightarrow> delivery_built cd b64 d \<Longrightarrow> delivery_parts_ok b64 d"
  unfolding delivery_built_def by (blast intro: delivery_parts_new PeerManifest_new_parts)

lemma acknowledgement_built_parts: "acknowledgement_built b64 a \<Longrightarrow> acknowledgement_parts_ok a"
  unfolding acknowledgement_built_def using acknowledgement_parts_applied by blast

section \<open>Properties\<close>

definition wire_b64 :: "string \<Rightarrow> bytes option" where
  "wire_b64 s = (if length s = 44 then Some (replicate 32 0) else None)"

definition wire_manifest :: peer_manifest where
  "wire_manifest = demo_manifest\<lparr>pm_peers := [(GatewayPeer_from demo_peer)
     \<lparr>gp_public_key := WireGuardPublicKey (replicate 43 (CHR ''A'') @ ''='')\<rparr>]\<rparr>"

definition wire_store :: in_memory_store where
  "wire_store = snd (set_desired demo_gateway wire_manifest InMemoryGatewayStateStore_default)"

definition wire_report :: gateway_state_report where
  "wire_report = GatewayStateReport_new demo_gateway []"

lemma valid_demo_ids: "valid_opaque_id ''peer-1''" "valid_opaque_id ''gateway-1''"
  by (simp_all add: is_ascii_alphanumeric_def is_ascii_alphabetic_def is_ascii_digit_def id_char_def)

lemma demo_gateway_made: "gateway_id_made demo_gateway"
  using valid_demo_ids by (simp add: gateway_id_made_def demo_gateway_def)

lemma wire_manifest_parts: "manifest_parts_ok wire_b64 wire_manifest"
  using valid_demo_ids
  by (simp add: manifest_parts_ok_def wire_manifest_def demo_manifest_def generation_made_def peer_parts_ok_def
      GatewayPeer_from_def demo_peer_def key_made_def WireGuardPublicKey_new_def wire_b64_def ends_with_def
      usable_host_def)

text \<open>
  C9: What the wire carries.  Every message the constructors make reads as itself from any text with
  the content it is written with, whatever the order of the members.  What can be read at all is any
  message whose identifiers, keys, addresses, generations and digests their constructors accept, and
  it too reads as itself.  Decoding checks nothing between the parts: a report stays readable with any
  schema version, and a delivery with any schema version, delivery identifier and well-formed digest,
  so a receiver has to check these itself.
\<close>

theorem wire_exact:
  "(report_built r \<longrightarrow> {j. canon j = canon (report_value r)} \<subseteq> {j. GatewayStateReport_deserialize j = Some r})
   \<and> (codec_ok cd \<and> delivery_built cd b64 d \<longrightarrow>
        {j. canon j = canon (delivery_value d)} \<subseteq> {j. PeerDelivery_deserialize b64 j = Some d})
   \<and> (acknowledgement_built b64 a \<longrightarrow>
        {j. canon j = canon (acknowledgement_value a)} \<subseteq> {j. GatewayAcknowledgement_deserialize j = Some a})
   \<and> ((\<exists>j. GatewayStateReport_deserialize j = Some r) \<longleftrightarrow> report_parts_ok r)
   \<and> ((\<exists>j. PeerDelivery_deserialize b64 j = Some d) \<longleftrightarrow> delivery_parts_ok b64 d)
   \<and> ((\<exists>j. GatewayAcknowledgement_deserialize j = Some a) \<longleftrightarrow> acknowledgement_parts_ok a)
   \<and> (report_parts_ok r \<longrightarrow> {j. canon j = canon (report_value r)} \<subseteq> {j. GatewayStateReport_deserialize j = Some r})
   \<and> (delivery_parts_ok b64 d \<longrightarrow> {j. canon j = canon (delivery_value d)} \<subseteq> {j. PeerDelivery_deserialize b64 j = Some d})
   \<and> (acknowledgement_parts_ok a \<longrightarrow>
        {j. canon j = canon (acknowledgement_value a)} \<subseteq> {j. GatewayAcknowledgement_deserialize j = Some a})
   \<and> (report_parts_ok r \<longrightarrow> (\<exists>j. GatewayStateReport_deserialize j = Some (r\<lparr>gsr_schema_version := v\<rparr>)))
   \<and> (delivery_parts_ok b64 d \<and> digest_made dg \<longrightarrow> (\<exists>j. PeerDelivery_deserialize b64 j
        = Some (d\<lparr>pd_schema_version := v, pd_delivery_id := i, pd_manifest_digest := dg\<rparr>)))"
proof -
  have report: "report_parts_ok r \<Longrightarrow> {j. canon j = canon (report_value r)} \<subseteq> {j. GatewayStateReport_deserialize j = Some r}" for r
    using read_reordered(3) by blast
  have delivery: "delivery_parts_ok b64 d \<Longrightarrow> {j. canon j = canon (delivery_value d)} \<subseteq> {j. PeerDelivery_deserialize b64 j = Some d}" for d
    using read_reordered(4) by blast
  have ack: "acknowledgement_parts_ok a \<Longrightarrow>
      {j. canon j = canon (acknowledgement_value a)} \<subseteq> {j. GatewayAcknowledgement_deserialize j = Some a}" for a
    using read_reordered(5) by blast
  have "report_parts_ok r \<Longrightarrow> report_parts_ok (r\<lparr>gsr_schema_version := v\<rparr>)" by (simp add: report_parts_ok_def)
  then have version: "report_parts_ok r \<Longrightarrow> \<exists>j. GatewayStateReport_deserialize j = Some (r\<lparr>gsr_schema_version := v\<rparr>)"
    using report_back by blast
  let ?d = "d\<lparr>pd_schema_version := v, pd_delivery_id := i, pd_manifest_digest := dg\<rparr>"
  have "delivery_parts_ok b64 d \<Longrightarrow> digest_made dg \<Longrightarrow> delivery_parts_ok b64 ?d" by (simp add: delivery_parts_ok_def)
  then have loose: "delivery_parts_ok b64 d \<Longrightarrow> digest_made dg \<Longrightarrow> \<exists>j. PeerDelivery_deserialize b64 j = Some ?d"
    using delivery_back by blast
  have readable: "(\<exists>j. GatewayStateReport_deserialize j = Some r) \<longleftrightarrow> report_parts_ok r"
      "(\<exists>j. PeerDelivery_deserialize b64 j = Some d) \<longleftrightarrow> delivery_parts_ok b64 d"
      "(\<exists>j. GatewayAcknowledgement_deserialize j = Some a) \<longleftrightarrow> acknowledgement_parts_ok a"
    using report_read report_back delivery_read delivery_back acknowledgement_read acknowledgement_back by blast+
  note parts = report_built_parts [THEN report] acknowledgement_built_parts [THEN ack] delivery_built_parts [THEN delivery]
  show ?thesis
    by (intro conjI impI readable; (elim conjE)?; (erule parts report delivery ack version loose | erule (1) parts loose))
qed

theorem wire_exact_witness:
  "GatewayStateReport_deserialize (JObject [(''applied'', JArray []), (''gateway_id'', JString ''gateway-1''),
     (''schema_version'', JNumber 1)]) = Some wire_report"
proof -
  let ?j = "JObject [(''applied'', JArray []), (''gateway_id'', JString ''gateway-1''), (''schema_version'', JNumber 1)]"
  have "report_built wire_report"
    using demo_gateway_made unfolding report_built_def wire_report_def
    by (intro exI [of _ demo_gateway] exI [of _ "[]"]) simp
  with wire_exact [of wire_report]
  have "{j. canon j = canon (report_value wire_report)} \<subseteq> {j. GatewayStateReport_deserialize j = Some wire_report}"
    by blast
  moreover have "canon ?j = canon (report_value wire_report)"
    by (simp add: report_value_def wire_report_def GatewayStateReport_new_def gateway_id_value_def demo_gateway_def
        SCHEMA_VERSION_def less_eq_char_def)
  ultimately show ?thesis by blast
qed

text \<open>
  C10: Checking the digest of a received manifest pins it.  A text that has the canonical form of a
  manifest with valid parts, the form the digest is taken of, reads as exactly that manifest, so a
  reader that recomputes the digest from the text it got and one that recomputes it from what it read
  agree.
\<close>

theorem canonical_text_pins_manifest:
  assumes "codec_ok cd" and "manifest_parts_ok b64 m"
    and "write_canonical_json (cd_quote cd) j [] = write_canonical_json (cd_quote cd) (manifest_value m) []"
  shows "PeerManifest_deserialize b64 j = Some m
    \<and> map_ok (ManifestDigest \<circ> cd_sha256_hex cd) (write_canonical_json (cd_quote cd) j []) = manifest_digest_of cd m"
proof -
  have quote: "quote_ok (cd_quote cd)" using assms(1) by (simp add: codec_ok_def)
  have "canon j = canon (manifest_value m)" by (rule write_canonical_text(2) [OF quote assms(3)])
  with assms(2) have "PeerManifest_deserialize b64 j = Some m" by (rule read_reordered(2))
  then show ?thesis
    by (simp add: assms(3) manifest_digest_of_def and_then_def map_ok_def comp_def)
qed

theorem canonical_text_pins_manifest_witness:
  "PeerManifest_deserialize wire_b64 (manifest_value wire_manifest) = Some wire_manifest"
  using canonical_text_pins_manifest [OF demo_codec_ok wire_manifest_parts refl] by (rule conjunct1)

text \<open>
  C12: Synchronisation converges over the wire.  A gateway's report arrives as text and \<open>poll\<close> hands
  out a delivery.  Whatever order the members of the delivery, of the acknowledgement and of the
  next report are written in, the gateway reads the delivery the service made, the service reads the
  acknowledgement the gateway made and records the delivered manifest for that gateway, and the next
  report of the applied state is answered with nothing to do.
\<close>

theorem wire_sync_converges:
  assumes "codec_ok cd" and "GatewayStateReport_deserialize report = Some r"
    and "poll in_memory_ops cd r s = Inr (Some d)" and "\<not> rw_poisoned (ims_applied s)"
    and "manifest_parts_ok b64 (pd_manifest d)"
    and "canon delivery = canon (delivery_value d)"
    and "canon ack = canon (acknowledgement_value (GatewayAcknowledgement_applied d))"
    and "canon next_report = canon (report_value (GatewayStateReport_new (pd_gateway_id d)
           [AppliedInterface_wg_users (pm_generation (pd_manifest d)) (pd_manifest_digest d)]))"
  shows "PeerDelivery_deserialize b64 delivery = Some d
    \<and> (\<exists>a s' r'. GatewayAcknowledgement_deserialize ack = Some a \<and> acknowledge in_memory_ops cd a s = (Inr (), s')
         \<and> applied_lookup s' (gsr_gateway_id r) = Inr (Some (pd_manifest d, pd_manifest_digest d))
         \<and> GatewayStateReport_deserialize next_report = Some r' \<and> poll in_memory_ops cd r' s' = Inr None)"
proof -
  let ?next = "GatewayStateReport_new (pd_gateway_id d)
    [AppliedInterface_wg_users (pm_generation (pd_manifest d)) (pd_manifest_digest d)]"
  obtain m where d: "PeerDelivery_new cd (gsr_gateway_id r) m = Inr d"
    using ims.poll_meets_spec [OF assms(1), of r s] assms(3)
    by (auto simp: poll_spec_def Let_def in_memory_ops_def)
  note new = PeerDelivery_new_fields [OF d]
  have made: "delivery_parts_ok b64 d"
    using delivery_parts_new [OF assms(1) d] report_read [OF assms(2)] assms(5) new(2) by (simp add: report_parts_ok_def)
  then have next_made: "report_parts_ok ?next"
    by (simp add: report_parts_ok_def GatewayStateReport_new_def applied_parts_ok_def AppliedInterface_wg_users_def
        delivery_parts_ok_def manifest_parts_ok_def)
  have supported: "is_supported ?next"
    by (simp add: is_supported_def GatewayStateReport_new_def AppliedInterface_wg_users_def)
  obtain s' where "acknowledge in_memory_ops cd (GatewayAcknowledgement_applied d) s = (Inr (), s')"
    and "applied_lookup s' (gsr_gateway_id r) = Inr (Some (pd_manifest d, pd_manifest_digest d))"
    and "poll in_memory_ops cd ?next s' = Inr None"
    using sync_converges [OF assms(1,3,4)] supported new(1) by (auto simp: GatewayStateReport_new_def)
  moreover have "GatewayAcknowledgement_deserialize ack = Some (GatewayAcknowledgement_applied d)"
    using read_reordered(5) [OF acknowledgement_parts_applied [OF made] assms(7)] .
  ultimately show ?thesis
    using read_reordered(4) [OF made assms(6)] read_reordered(3) [OF next_made assms(8)] by blast
qed

theorem wire_sync_converges_witness:
  "\<exists>d a s'. poll in_memory_ops demo_codec wire_report wire_store = Inr (Some d)
     \<and> PeerDelivery_deserialize wire_b64 (delivery_value d) = Some d
     \<and> acknowledge in_memory_ops demo_codec a wire_store = (Inr (), s')"
proof -
  obtain d where d: "PeerDelivery_new demo_codec demo_gateway wire_manifest = Inr d"
    using demo_codec_ok by (rule PeerDelivery_new_ok)
  obtain dg where "manifest_digest_of demo_codec wire_manifest = Inr dg"
    using demo_codec_ok by (rule manifest_digest_of_ok)
  then have poll: "poll in_memory_ops demo_codec wire_report wire_store = Inr (Some d)"
    using d by (simp add: poll_def is_supported_def wire_report_def wire_store_def GatewayStateReport_new_def
        in_memory_ops_def desired_manifest_def set_desired_def lock_def report_wg_users_def
        InMemoryGatewayStateStore_default_def)
  have read: "GatewayStateReport_deserialize (report_value wire_report) = Some wire_report"
    using demo_gateway_made by (intro report_back) (simp add: report_parts_ok_def wire_report_def GatewayStateReport_new_def)
  have unlocked: "\<not> rw_poisoned (ims_applied wire_store)"
    by (simp add: wire_store_def set_desired_def lock_def InMemoryGatewayStateStore_default_def)
  have "manifest_parts_ok wire_b64 (pd_manifest d)" using wire_manifest_parts PeerDelivery_new_fields(2) [OF d] by simp
  from wire_sync_converges [OF demo_codec_ok read poll unlocked this refl refl refl] poll show ?thesis by blast
qed

end
