(* ===== verification/Auth_Model.thy ===== *)
theory Auth_Model
  imports Canonical_Json
begin

text \<open>
  The data of the authentication domain, \<open>auth/src/lib.rs\<close>: secret tokens and their hashes, users,
  credentials, ceremonies, capabilities, sessions, recovery requests, audit events, errors and the
  configured lifetimes.

  \<open>crypto\<close> holds what other crates compute: URL-safe base64 without padding and SHA-256.  Random
  tokens and identifiers are arguments of the operations that draw them.  \<open>i64\<close> columns are
  integers; the store bounds them.
\<close>

section \<open>Tokens\<close>

record crypto =
  cr_b64_encode :: "bytes \<Rightarrow> string"
  cr_b64_decode :: "string \<Rightarrow> bytes option"
  cr_sha256 :: "bytes \<Rightarrow> bytes"

datatype auth_error =
    InvalidInput
  | InvalidToken
  | InvalidState
  | Unauthenticated
  | Forbidden
  | Verification
  | Store
  | Conflict

definition TOKEN_BYTES :: nat where
  "TOKEN_BYTES = 32"

datatype secret_token = SecretToken (token_bytes: bytes)

datatype secret_hash = SecretHash (as_bytes: bytes)

definition SecretToken_parse :: "crypto \<Rightarrow> string \<Rightarrow> auth_error + secret_token" where
  "SecretToken_parse cr value =
     and_then (ok_or InvalidToken (cr_b64_decode cr value)) (\<lambda>decoded.
       if length decoded = TOKEN_BYTES then Inr (SecretToken decoded) else Inl InvalidToken)"

definition expose :: "crypto \<Rightarrow> secret_token \<Rightarrow> string" where
  "expose cr token = cr_b64_encode cr (token_bytes token)"

definition token_hash :: "crypto \<Rightarrow> secret_token \<Rightarrow> secret_hash" where
  "token_hash cr token = SecretHash (cr_sha256 cr (token_bytes token))"

definition SecretHash_from_slice :: "bytes \<Rightarrow> auth_error + secret_hash" where
  "SecretHash_from_slice value = (if length value = 32 then Inr (SecretHash value) else Inl Store)"

section \<open>Records\<close>

datatype role = User | Operator

record user =
  u_id :: user_id
  u_webauthn_handle :: uuid
  u_email :: string
  u_display_name :: string
  u_role :: role
  u_enabled :: bool
  u_auth_epoch :: int

record stored_credential =
  sc_id :: uuid
  sc_user_id :: user_id
  sc_credential_id :: bytes
  sc_public_data :: json
  sc_revoked_at :: "time option"

record verified_credential =
  vc_credential_id :: bytes
  vc_public_data :: json

record authentication_verification =
  av_credential_id :: bytes
  av_updated_public_data :: json

datatype ceremony_kind = Registration | Authentication | OperatorBootstrap | OperatorRecoveryCeremony

record ceremony =
  cm_id :: uuid
  cm_kind :: ceremony_kind
  cm_user_id :: "user_id option"
  cm_capability_hash :: "secret_hash option"
  cm_state :: json
  cm_expires_at :: time

datatype capability_purpose = Setup | RecoverySetup | OperatorRecovery

record capability =
  cp_id :: uuid
  cp_user_id :: user_id
  cp_purpose :: capability_purpose
  cp_token_hash :: secret_hash
  cp_expires_at :: time

record session_record =
  sr_id :: uuid
  sr_user_id :: user_id
  sr_token_hash :: secret_hash
  sr_csrf_hash :: secret_hash
  sr_auth_epoch :: int
  sr_idle_expires_at :: time
  sr_absolute_expires_at :: time

record session_grant =
  sg_token :: secret_token
  sg_csrf :: secret_token
  sg_record :: session_record

record session_principal =
  sp_session_id :: uuid
  sp_user :: user
  sp_csrf_hash :: secret_hash
  sp_absolute_expires_at :: time

record recovery_request =
  rq_id :: uuid
  rq_user_id :: user_id
  rq_requested_at :: time
  rq_approved_at :: "time option"

record audit_event =
  ae_event_type :: string
  ae_actor_user_id :: "user_id option"
  ae_subject_user_id :: "user_id option"
  ae_data :: json

text \<open>The derived \<open>Serialize\<close> of the enumerations and of \<open>Uuid\<close> (hyphenated lower-case hexadecimal).\<close>

fun role_json :: "role \<Rightarrow> json" where
  "role_json User = JString ''user''"
| "role_json Operator = JString ''operator''"

fun ceremony_kind_json :: "ceremony_kind \<Rightarrow> json" where
  "ceremony_kind_json Registration = JString ''registration''"
| "ceremony_kind_json Authentication = JString ''authentication''"
| "ceremony_kind_json OperatorBootstrap = JString ''operator_bootstrap''"
| "ceremony_kind_json OperatorRecoveryCeremony = JString ''operator_recovery''"

definition hex_digit :: "nat \<Rightarrow> char" where
  "hex_digit d = (if d < 10 then char_of (48 + d) else char_of (87 + d))"

definition hex_digits :: "nat \<Rightarrow> nat \<Rightarrow> string" where
  "hex_digits n v = map (\<lambda>i. hex_digit (v div 16 ^ i mod 16)) (rev [0..<n])"

definition uuid_str :: "uuid \<Rightarrow> string" where
  "uuid_str w =
     (let digits = hex_digits 32 (unat w)
      in byte_slice 0 8 digits @ ''-'' @ byte_slice 8 12 digits @ ''-'' @ byte_slice 12 16 digits
         @ ''-'' @ byte_slice 16 20 digits @ ''-'' @ byte_slice 20 32 digits)"

section \<open>Configuration\<close>

record auth_config =
  ac_ceremony_ttl :: duration
  ac_capability_ttl :: duration
  ac_session_idle_ttl :: duration
  ac_session_absolute_ttl :: duration

definition AuthConfig_default :: auth_config where
  "AuthConfig_default =
     \<lparr>ac_ceremony_ttl = minutes 5, ac_capability_ttl = minutes 15,
      ac_session_idle_ttl = minutes 30, ac_session_absolute_ttl = hours 12\<rparr>"

section \<open>Properties of tokens\<close>

text \<open>What is relied on of the crates: decoding inverts encoding, and digests have 32 bytes.\<close>

definition crypto_ok :: "crypto \<Rightarrow> bool" where
  "crypto_ok cr \<longleftrightarrow>
     (\<forall>bs. cr_b64_decode cr (cr_b64_encode cr bs) = Some bs) \<and> (\<forall>bs. length (cr_sha256 cr bs) = 32)"

text \<open>A token as the type \<open>[u8; 32]\<close> has it.\<close>

definition token_ok :: "secret_token \<Rightarrow> bool" where
  "token_ok token \<longleftrightarrow> length (token_bytes token) = TOKEN_BYTES"

definition hash_ok :: "secret_hash \<Rightarrow> bool" where
  "hash_ok h \<longleftrightarrow> length (as_bytes h) = 32"

definition user_id_ok :: "user_id \<Rightarrow> bool" where
  "user_id_ok u \<longleftrightarrow> valid_opaque_id (user_str u)"

lemma SecretToken_parse_ok: "SecretToken_parse cr v = Inr t \<Longrightarrow> token_ok t"
  by (auto simp: SecretToken_parse_def and_then_eq_Inr token_ok_def split: if_splits)

lemma SecretToken_parse_expose: "crypto_ok cr \<Longrightarrow> token_ok t \<Longrightarrow> SecretToken_parse cr (expose cr t) = Inr t"
  by (simp add: SecretToken_parse_def expose_def crypto_ok_def token_ok_def)

lemma token_hash_ok: "crypto_ok cr \<Longrightarrow> hash_ok (token_hash cr t)"
  by (simp add: crypto_ok_def hash_ok_def token_hash_def)

lemma SecretHash_from_slice_iff: "SecretHash_from_slice v = Inr h \<longleftrightarrow> hash_ok h \<and> v = as_bytes h"
  by (cases h) (auto simp: SecretHash_from_slice_def hash_ok_def)

lemma SecretHash_from_slice_as_bytes: "hash_ok h \<Longrightarrow> SecretHash_from_slice (as_bytes h) = Inr h"
  by (simp add: SecretHash_from_slice_iff)

end
