(* ===== verification/Effects.thy ===== *)
theory Effects
  imports Prelude
begin

text \<open>
  Fallible operations on a state: \<open>'s \<Rightarrow> ('e + 'a) \<times> 's\<close>, the value or error of an asynchronous
  call beside the state it leaves behind.  \<open>op_bind\<close> is the code's \<open>.await?\<close> followed by the rest of
  the function.  The locale \<open>step_relation\<close> carries the proofs that every operation relates the
  state before and after by a preorder, whatever it returns.
\<close>

type_synonym ('s, 'e, 'a) op = "'s \<Rightarrow> ('e + 'a) \<times> 's"

definition op_return :: "'a \<Rightarrow> ('s, 'e, 'a) op" where
  "op_return x s = (Inr x, s)"

definition op_fail :: "'e \<Rightarrow> ('s, 'e, 'a) op" where
  "op_fail e s = (Inl e, s)"

definition op_lift :: "'e + 'a \<Rightarrow> ('s, 'e, 'a) op" where
  "op_lift r s = (r, s)"

definition op_bind :: "('s, 'e, 'a) op \<Rightarrow> ('a \<Rightarrow> ('s, 'e, 'b) op) \<Rightarrow> ('s, 'e, 'b) op" where
  "op_bind m f s = (case m s of (Inl e, s') \<Rightarrow> (Inl e, s') | (Inr x, s') \<Rightarrow> f x s')"

definition op_map_err :: "('e \<Rightarrow> 'f) \<Rightarrow> ('s, 'e, 'a) op \<Rightarrow> ('s, 'f, 'a) op" where
  "op_map_err h m s = (case m s of (r, s') \<Rightarrow> (map_err h r, s'))"

definition op_then :: "('s, 'e, 'a) op \<Rightarrow> ('a \<Rightarrow> 'e + 'b) \<Rightarrow> ('s, 'e, 'b) op" where
  "op_then m f s = (case m s of (r, s') \<Rightarrow> (and_then r f, s'))"

definition op_void :: "('s, 'e, 'a) op \<Rightarrow> ('s, 'e, unit) op" where
  "op_void m s = (case m s of (r, s') \<Rightarrow> (map_ok (\<lambda>_. ()) r, s'))"

named_theorems op_defs \<open>unfolding of the operation combinators\<close>
declare op_return_def [op_defs] op_fail_def [op_defs] op_lift_def [op_defs] op_bind_def [op_defs]
  op_map_err_def [op_defs] op_then_def [op_defs] op_void_def [op_defs]

lemma op_bind_Inr:
  "op_bind m f s = (Inr y, s') \<longleftrightarrow> (\<exists>x t. m s = (Inr x, t) \<and> f x t = (Inr y, s'))"
  by (auto simp: op_bind_def split: prod.splits sum.splits)

lemma op_bind_Inl:
  "op_bind m f s = (Inl e, s') \<longleftrightarrow> m s = (Inl e, s') \<or> (\<exists>x t. m s = (Inr x, t) \<and> f x t = (Inl e, s'))"
  by (auto simp: op_bind_def split: prod.splits sum.splits)

lemma op_bindE:
  assumes "op_bind m f s = (Inr y, s')"
  obtains x t where "m s = (Inr x, t)" and "f x t = (Inr y, s')"
  using assms by (auto simp: op_bind_Inr)

lemma op_void_Inr: "op_void m s = (Inr y, s') \<longleftrightarrow> (\<exists>x. m s = (Inr x, s'))"
  by (auto simp: op_void_def map_ok_def split: prod.splits sum.splits)

lemma op_map_err_Inr: "op_map_err h m s = (Inr y, s') \<longleftrightarrow> m s = (Inr y, s')"
  by (auto simp: op_map_err_def map_err_def split: prod.splits sum.splits)

lemma op_map_err_Inl: "op_map_err h m s = (Inl e, s') \<longleftrightarrow> (\<exists>e'. m s = (Inl e', s') \<and> e = h e')"
  by (auto simp: op_map_err_def map_err_def split: prod.splits sum.splits)

lemma op_then_Inr: "op_then m f s = (Inr y, s') \<longleftrightarrow> (\<exists>x. m s = (Inr x, s') \<and> f x = Inr y)"
  by (auto simp: op_then_def and_then_def split: prod.splits sum.splits)

lemma op_then_Inl:
  "op_then m f s = (Inl e, s') \<longleftrightarrow> m s = (Inl e, s') \<or> (\<exists>x. m s = (Inr x, s') \<and> f x = Inl e)"
  by (auto simp: op_then_def and_then_def split: prod.splits sum.splits)

lemma op_return_eq: "op_return x s = (r, s') \<longleftrightarrow> r = Inr x \<and> s' = s"
  by (auto simp: op_return_def)

lemma op_fail_eq: "op_fail e s = (r, s') \<longleftrightarrow> r = Inl e \<and> s' = s"
  by (auto simp: op_fail_def)

lemma op_lift_eq: "op_lift q s = (r, s') \<longleftrightarrow> r = q \<and> s' = s"
  by (auto simp: op_lift_def)

lemmas op_eqs = op_bind_Inr op_bind_Inl op_map_err_Inr op_map_err_Inl op_then_Inr op_then_Inl
  op_return_eq op_fail_eq op_lift_eq

section \<open>Relating the state before and after\<close>

definition op_rel :: "('s \<Rightarrow> 's \<Rightarrow> bool) \<Rightarrow> ('s, 'e, 'a) op \<Rightarrow> bool" where
  "op_rel R m \<longleftrightarrow> (\<forall>s r s'. m s = (r, s') \<longrightarrow> R s s')"

lemma op_relD: "op_rel R m \<Longrightarrow> m s = (r, s') \<Longrightarrow> R s s'"
  by (auto simp: op_rel_def)

lemma op_relI: "(\<And>s r s'. m s = (r, s') \<Longrightarrow> R s s') \<Longrightarrow> op_rel R m"
  by (auto simp: op_rel_def)

lemma op_rel_map_err: "op_rel R m \<Longrightarrow> op_rel R (op_map_err h m)"
  by (auto simp: op_rel_def op_map_err_def split: prod.splits)

lemma op_rel_then: "op_rel R m \<Longrightarrow> op_rel R (op_then m f)"
  by (auto simp: op_rel_def op_then_def split: prod.splits)

lemma op_rel_void: "op_rel R m \<Longrightarrow> op_rel R (op_void m)"
  by (auto simp: op_rel_def op_void_def split: prod.splits)

locale step_relation =
  fixes R :: "'s \<Rightarrow> 's \<Rightarrow> bool"
  assumes refl: "R s s"
    and trans: "R s t \<Longrightarrow> R t u \<Longrightarrow> R s u"
begin

lemma rel_return: "op_rel R (op_return x)"
  and rel_fail: "op_rel R (op_fail e)"
  and rel_lift: "op_rel R (op_lift r)"
  by (simp_all add: op_rel_def op_return_def op_fail_def op_lift_def refl)

lemma rel_bind:
  assumes "op_rel R m" and "\<And>x. op_rel R (f x)"
  shows "op_rel R (op_bind m f)"
  unfolding op_rel_def
proof (intro allI impI)
  fix s r s' assume "op_bind m f s = (r, s')"
  then consider r' where "m s = (r', s')" | x t where "m s = (Inr x, t)" and "f x t = (r, s')"
    by (auto simp: op_bind_def split: prod.splits sum.splits)
  then show "R s s'"
    by cases (use assms in \<open>auto dest: op_relD intro: trans\<close>)
qed

lemmas rel_intros = rel_return rel_fail rel_lift rel_bind op_rel_map_err op_rel_then op_rel_void

end

end
