(* ===== verification/Pg_Schema.thy ===== *)
theory Pg_Schema
  imports Auth_Model Effects
begin

text \<open>
  The database of the server: the tables of \<open>server/migrations/0001_human_auth.sql\<close>, the row
  structs of \<open>server/src/repository.rs\<close> and the meaning of the SQL statements its functions use.

  A table is the list of its rows in insertion order.  The row structs of the code are records, and
  a full table row extends them with the columns the struct leaves out.  An \<open>INSERT\<close> checks the
  constraints of the schema in the order PostgreSQL does: values that a column cannot hold, check
  constraints, unique indexes, foreign keys.  The identity column of the audit table is the
  position in the list.  \<open>text\<close> and \<open>jsonb\<close> columns reject the character U+0000.

  A round trip to the server is served, refused (nothing happened), or served with the answer lost;
  \<open>pg_net\<close> lists what happens to the next round trips, all later ones are served.  A transaction
  works on the connection's view of the database; dropping it without a commit restores the
  database.  Transactions are taken one at a time.
\<close>

section \<open>Rows\<close>

record user_row =
  ur_id :: string
  ur_webauthn_handle :: uuid
  ur_email :: string
  ur_display_name :: string
  ur_role :: string
  ur_enabled :: bool
  ur_auth_epoch :: int

record human_user = user_row +
  hu_created_at :: time
  hu_updated_at :: time

record credential_row =
  cr_id :: uuid
  cr_user_id :: string
  cr_credential_id :: bytes
  cr_public_data :: json
  cr_revoked_at :: "time option"

record passkey_credential = credential_row +
  pk_created_at :: time
  pk_last_used_at :: "time option"

record capability_row =
  ca_id :: uuid
  ca_user_id :: string
  ca_purpose :: string
  ca_token_hash :: bytes
  ca_expires_at :: time

record auth_capability = capability_row +
  ca_consumed_at :: "time option"
  ca_created_at :: time

record ceremony_row =
  ce_id :: uuid
  ce_kind :: string
  ce_user_id :: "string option"
  ce_capability_hash :: "bytes option"
  ce_state :: json
  ce_expires_at :: time

record auth_ceremony = ceremony_row +
  ce_consumed_at :: "time option"
  ce_created_at :: time

record auth_session =
  se_id :: uuid
  se_user_id :: string
  se_token_hash :: bytes
  se_csrf_hash :: bytes
  se_auth_epoch :: int
  se_idle_expires_at :: time
  se_absolute_expires_at :: time
  se_created_at :: time
  se_last_seen_at :: time
  se_revoked_at :: "time option"

record recovery_row =
  re_id :: uuid
  re_user_id :: string
  re_requested_at :: time
  re_approved_at :: "time option"

record recovery_request_row = recovery_row +
  re_approved_by :: "string option"
  re_setup_issued_at :: "time option"
  re_completed_at :: "time option"

record audit_row =
  au_occurred_at :: time
  au_event_type :: string
  au_actor_user_id :: "string option"
  au_subject_user_id :: "string option"
  au_data :: json

record db =
  db_users :: "human_user list"
  db_credentials :: "passkey_credential list"
  db_capabilities :: "auth_capability list"
  db_ceremonies :: "auth_ceremony list"
  db_sessions :: "auth_session list"
  db_recoveries :: "recovery_request_row list"
  db_audit :: "audit_row list"

definition db_empty :: db where
  "db_empty = \<lparr>db_users = [], db_credentials = [], db_capabilities = [], db_ceremonies = [],
     db_sessions = [], db_recoveries = [], db_audit = []\<rparr>"

section \<open>Values a column can hold\<close>

datatype sql_error =
    Unique_violation
  | Foreign_key_violation
  | Check_violation
  | Data_exception
  | Connection_lost

text \<open>\<open>error.constraint().is_some()\<close>, \<open>is_unique_violation\<close>.\<close>

fun has_constraint :: "sql_error \<Rightarrow> bool" where
  "has_constraint Unique_violation = True"
| "has_constraint Foreign_key_violation = True"
| "has_constraint Check_violation = True"
| "has_constraint _ = False"

definition text_ok :: "string \<Rightarrow> bool" where
  "text_ok s \<longleftrightarrow> CHR 0x00 \<notin> set s"

fun jsonb_ok :: "json \<Rightarrow> bool" where
  "jsonb_ok (JString s) = text_ok s"
| "jsonb_ok (JArray vs) = list_all jsonb_ok vs"
| "jsonb_ok (JObject kvs) = list_all (\<lambda>(k, v). text_ok k \<and> jsonb_ok v) kvs"
| "jsonb_ok _ = True"

definition i64_max :: int where
  "i64_max = 2 ^ 63 - 1"

definition user_exists :: "db \<Rightarrow> string \<Rightarrow> bool" where
  "user_exists d i \<longleftrightarrow> i \<in> ur_id ` set (db_users d)"

definition opt_user_exists :: "db \<Rightarrow> string option \<Rightarrow> bool" where
  "opt_user_exists d i \<longleftrightarrow> (case i of None \<Rightarrow> True | Some i \<Rightarrow> user_exists d i)"

definition role_names :: "string list" where
  "role_names = [''user'', ''operator'']"

definition purpose_names :: "string list" where
  "purpose_names = [''setup'', ''recovery_setup'', ''operator_recovery'']"

definition kind_names :: "string list" where
  "kind_names = [''registration'', ''authentication'', ''operator_bootstrap'', ''operator_recovery'']"

section \<open>Insert statements\<close>

type_synonym 'a stmt = "db \<Rightarrow> sql_error + 'a \<times> db"

definition ins_user :: "human_user \<Rightarrow> unit stmt" where
  "ins_user r d =
     (if \<not> (text_ok (ur_id r) \<and> text_ok (ur_email r) \<and> text_ok (ur_display_name r)) then Inl Data_exception
      else if ur_role r \<notin> set role_names \<or> ur_auth_epoch r \<le> 0 then Inl Check_violation
      else if ur_id r \<in> ur_id ` set (db_users d)
           \<or> ur_webauthn_handle r \<in> ur_webauthn_handle ` set (db_users d)
           \<or> ur_email r \<in> ur_email ` set (db_users d) then Inl Unique_violation
      else Inr ((), d\<lparr>db_users := db_users d @ [r]\<rparr>))"

definition ins_credential :: "passkey_credential \<Rightarrow> unit stmt" where
  "ins_credential r d =
     (if \<not> (text_ok (cr_user_id r) \<and> jsonb_ok (cr_public_data r)) then Inl Data_exception
      else if cr_id r \<in> cr_id ` set (db_credentials d)
           \<or> cr_credential_id r \<in> cr_credential_id ` set (db_credentials d) then Inl Unique_violation
      else if \<not> user_exists d (cr_user_id r) then Inl Foreign_key_violation
      else Inr ((), d\<lparr>db_credentials := db_credentials d @ [r]\<rparr>))"

definition ins_capability :: "auth_capability \<Rightarrow> unit stmt" where
  "ins_capability r d =
     (if \<not> text_ok (ca_user_id r) then Inl Data_exception
      else if ca_purpose r \<notin> set purpose_names \<or> length (ca_token_hash r) \<noteq> 32 then Inl Check_violation
      else if ca_id r \<in> ca_id ` set (db_capabilities d)
           \<or> ca_token_hash r \<in> ca_token_hash ` set (db_capabilities d) then Inl Unique_violation
      else if \<not> user_exists d (ca_user_id r) then Inl Foreign_key_violation
      else Inr ((), d\<lparr>db_capabilities := db_capabilities d @ [r]\<rparr>))"

definition ins_ceremony :: "auth_ceremony \<Rightarrow> unit stmt" where
  "ins_ceremony r d =
     (if \<not> (list_all text_ok (case ce_user_id r of None \<Rightarrow> [] | Some i \<Rightarrow> [i]) \<and> jsonb_ok (ce_state r))
      then Inl Data_exception
      else if ce_kind r \<notin> set kind_names
           \<or> (case ce_capability_hash r of None \<Rightarrow> False | Some h \<Rightarrow> length h \<noteq> 32) then Inl Check_violation
      else if ce_id r \<in> ce_id ` set (db_ceremonies d) then Inl Unique_violation
      else if \<not> opt_user_exists d (ce_user_id r) then Inl Foreign_key_violation
      else Inr ((), d\<lparr>db_ceremonies := db_ceremonies d @ [r]\<rparr>))"

definition ins_session :: "auth_session \<Rightarrow> unit stmt" where
  "ins_session r d =
     (if \<not> text_ok (se_user_id r) then Inl Data_exception
      else if length (se_token_hash r) \<noteq> 32 \<or> length (se_csrf_hash r) \<noteq> 32 then Inl Check_violation
      else if se_id r \<in> se_id ` set (db_sessions d)
           \<or> se_token_hash r \<in> se_token_hash ` set (db_sessions d) then Inl Unique_violation
      else if \<not> user_exists d (se_user_id r) then Inl Foreign_key_violation
      else Inr ((), d\<lparr>db_sessions := db_sessions d @ [r]\<rparr>))"

definition recovery_pending :: "recovery_request_row \<Rightarrow> bool" where
  "recovery_pending r \<longleftrightarrow> re_approved_at r = None \<and> re_completed_at r = None"

definition ins_recovery :: "recovery_request_row \<Rightarrow> unit stmt" where
  "ins_recovery r d =
     (if \<not> text_ok (re_user_id r) then Inl Data_exception
      else if re_id r \<in> re_id ` set (db_recoveries d)
           \<or> recovery_pending r \<and> (\<exists>q\<in>set (db_recoveries d). re_user_id q = re_user_id r \<and> recovery_pending q)
      then Inl Unique_violation
      else if \<not> user_exists d (re_user_id r) then Inl Foreign_key_violation
      else Inr ((), d\<lparr>db_recoveries := db_recoveries d @ [r]\<rparr>))"

definition ins_audit :: "audit_row \<Rightarrow> unit stmt" where
  "ins_audit r d =
     (if \<not> (text_ok (au_event_type r) \<and> jsonb_ok (au_data r)
          \<and> list_all text_ok (case au_actor_user_id r of None \<Rightarrow> [] | Some i \<Rightarrow> [i])
          \<and> list_all text_ok (case au_subject_user_id r of None \<Rightarrow> [] | Some i \<Rightarrow> [i]))
      then Inl Data_exception
      else if \<not> opt_user_exists d (au_actor_user_id r) \<or> \<not> opt_user_exists d (au_subject_user_id r)
      then Inl Foreign_key_violation
      else Inr ((), d\<lparr>db_audit := db_audit d @ [r]\<rparr>))"

section \<open>Update statements\<close>

definition update_where :: "('r \<Rightarrow> bool) \<Rightarrow> ('r \<Rightarrow> 'r) \<Rightarrow> 'r list \<Rightarrow> 'r list" where
  "update_where P f rows = map (\<lambda>r. if P r then f r else r) rows"

text \<open>Each update returns the rows it selected, as they were.\<close>

definition upd_users_epoch :: "(human_user \<Rightarrow> bool) \<Rightarrow> time \<Rightarrow> human_user list stmt" where
  "upd_users_epoch P now d =
     (let hit = filter P (db_users d)
      in if list_ex (\<lambda>u. ur_auth_epoch u = i64_max) hit then Inl Data_exception
         else Inr (hit, d\<lparr>db_users := update_where P
                (\<lambda>u. u\<lparr>ur_auth_epoch := ur_auth_epoch u + 1, hu_updated_at := now\<rparr>) (db_users d)\<rparr>))"

definition upd_credentials_used ::
    "(passkey_credential \<Rightarrow> bool) \<Rightarrow> json \<Rightarrow> time \<Rightarrow> passkey_credential list stmt" where
  "upd_credentials_used P data now d =
     (if \<not> jsonb_ok data then Inl Data_exception
      else Inr (filter P (db_credentials d), d\<lparr>db_credentials := update_where P
             (\<lambda>c. c\<lparr>cr_public_data := data, pk_last_used_at := Some now\<rparr>) (db_credentials d)\<rparr>))"

definition upd_credentials_revoked ::
    "(passkey_credential \<Rightarrow> bool) \<Rightarrow> time \<Rightarrow> passkey_credential list stmt" where
  "upd_credentials_revoked P now d =
     Inr (filter P (db_credentials d), d\<lparr>db_credentials := update_where P
            (\<lambda>c. c\<lparr>cr_revoked_at := Some now\<rparr>) (db_credentials d)\<rparr>)"

definition upd_capabilities_consumed ::
    "(auth_capability \<Rightarrow> bool) \<Rightarrow> time \<Rightarrow> auth_capability list stmt" where
  "upd_capabilities_consumed P now d =
     Inr (filter P (db_capabilities d), d\<lparr>db_capabilities := update_where P
            (\<lambda>c. c\<lparr>ca_consumed_at := Some now\<rparr>) (db_capabilities d)\<rparr>)"

definition upd_ceremonies_consumed :: "(auth_ceremony \<Rightarrow> bool) \<Rightarrow> time \<Rightarrow> auth_ceremony list stmt" where
  "upd_ceremonies_consumed P now d =
     Inr (filter P (db_ceremonies d), d\<lparr>db_ceremonies := update_where P
            (\<lambda>c. c\<lparr>ce_consumed_at := Some now\<rparr>) (db_ceremonies d)\<rparr>)"

definition upd_sessions_revoked :: "(auth_session \<Rightarrow> bool) \<Rightarrow> time \<Rightarrow> auth_session list stmt" where
  "upd_sessions_revoked P now d =
     Inr (filter P (db_sessions d), d\<lparr>db_sessions := update_where P
            (\<lambda>s. s\<lparr>se_revoked_at := Some now\<rparr>) (db_sessions d)\<rparr>)"

definition upd_session_seen ::
    "uuid \<Rightarrow> bytes option \<Rightarrow> time \<Rightarrow> time \<Rightarrow> auth_session list stmt" where
  "upd_session_seen sid csrf idle now d =
     (if (case csrf of None \<Rightarrow> False | Some h \<Rightarrow> length h \<noteq> 32 \<and> sid \<in> se_id ` set (db_sessions d))
      then Inl Check_violation
      else Inr (filter (\<lambda>s. se_id s = sid) (db_sessions d),
             d\<lparr>db_sessions := update_where (\<lambda>s. se_id s = sid)
                (\<lambda>s. (case csrf of None \<Rightarrow> s | Some h \<Rightarrow> s\<lparr>se_csrf_hash := h\<rparr>)
                        \<lparr>se_idle_expires_at := idle, se_last_seen_at := now\<rparr>) (db_sessions d)\<rparr>))"

definition upd_recoveries_approved ::
    "(recovery_request_row \<Rightarrow> bool) \<Rightarrow> time \<Rightarrow> string \<Rightarrow> recovery_request_row list stmt" where
  "upd_recoveries_approved P now by d =
     (if \<not> text_ok by then Inl Data_exception
      else if list_ex P (db_recoveries d) \<and> \<not> user_exists d by then Inl Foreign_key_violation
      else Inr (filter P (db_recoveries d), d\<lparr>db_recoveries := update_where P
             (\<lambda>r. r\<lparr>re_approved_at := Some now, re_approved_by := Some by\<rparr>) (db_recoveries d)\<rparr>))"

definition upd_recoveries_issued ::
    "(recovery_request_row \<Rightarrow> bool) \<Rightarrow> time \<Rightarrow> recovery_request_row list stmt" where
  "upd_recoveries_issued P now d =
     Inr (filter P (db_recoveries d), d\<lparr>db_recoveries := update_where P
            (\<lambda>r. r\<lparr>re_setup_issued_at := Some now\<rparr>) (db_recoveries d)\<rparr>)"

definition upd_recoveries_completed ::
    "(recovery_request_row \<Rightarrow> bool) \<Rightarrow> time \<Rightarrow> recovery_request_row list stmt" where
  "upd_recoveries_completed P now d =
     Inr (filter P (db_recoveries d), d\<lparr>db_recoveries := update_where P
            (\<lambda>r. r\<lparr>re_completed_at := Some now\<rparr>) (db_recoveries d)\<rparr>)"

definition select :: "(db \<Rightarrow> 'a) \<Rightarrow> 'a stmt" where
  "select f d = Inr (f d, d)"

section \<open>Connections and transactions\<close>

datatype outcome = Served | Refused | Answer_lost

text \<open>\<open>pg_int4_as_i64\<close> says whether the driver decodes an \<open>int4\<close> column as a Rust \<open>i64\<close>.\<close>

record pg =
  pg_db :: db
  pg_clock :: time
  pg_net :: "outcome list"
  pg_int4_as_i64 :: bool

definition round_trip :: "pg \<Rightarrow> outcome \<times> pg" where
  "round_trip s = (case pg_net s of [] \<Rightarrow> (Served, s) | o1 # os \<Rightarrow> (o1, s\<lparr>pg_net := os\<rparr>))"

definition run_stmt :: "'a stmt \<Rightarrow> (pg, sql_error, 'a) op" where
  "run_stmt st s = (case st (pg_db s) of Inl e \<Rightarrow> (Inl e, s) | Inr (x, d) \<Rightarrow> (Inr x, s\<lparr>pg_db := d\<rparr>))"

text \<open>A statement inside a transaction, and a statement that is its own transaction.\<close>

definition exec_tx :: "'a stmt \<Rightarrow> (pg, sql_error, 'a) op" where
  "exec_tx st s =
     (case round_trip s of
        (Served, s') \<Rightarrow> run_stmt st s'
      | (_, s') \<Rightarrow> (Inl Connection_lost, s'))"

definition exec_pool :: "'a stmt \<Rightarrow> (pg, sql_error, 'a) op" where
  "exec_pool st s =
     (case round_trip s of
        (Served, s') \<Rightarrow> run_stmt st s'
      | (Refused, s') \<Rightarrow> (Inl Connection_lost, s')
      | (Answer_lost, s') \<Rightarrow> (Inl Connection_lost, snd (run_stmt st s')))"

text \<open>\<open>begin\<close>, the body, and \<open>commit\<close>; when the body fails the transaction is dropped.\<close>

definition transaction :: "(pg, auth_error, 'a) op \<Rightarrow> (pg, auth_error, 'a) op" where
  "transaction body s =
     (case round_trip s of
        (Served, s1) \<Rightarrow>
          (case body s1 of
             (Inl e, s2) \<Rightarrow> (Inl e, s2\<lparr>pg_db := pg_db s\<rparr>)
           | (Inr x, s2) \<Rightarrow>
               (case round_trip s2 of
                  (Served, s3) \<Rightarrow> (Inr x, s3)
                | (Refused, s3) \<Rightarrow> (Inl Store, s3\<lparr>pg_db := pg_db s\<rparr>)
                | (Answer_lost, s3) \<Rightarrow> (Inl Store, s3)))
      | (_, s1) \<Rightarrow> (Inl Store, s1))"

end
