(* ===== verification/Pg_Store.thy ===== *)
theory Pg_Store
  imports Pg_Schema
begin

text \<open>
  \<open>PgAuthStore\<close> of \<open>server/src/repository.rs\<close>: decoding of rows, and every function of its
  \<open>AuthStore\<close> implementation as the sequence of statements the code sends.  The identifiers drawn
  with \<open>Uuid::new_v4\<close> are arguments.
\<close>

section \<open>Names of enumerations\<close>

fun role_name :: "role \<Rightarrow> string" where
  "role_name User = ''user''"
| "role_name Operator = ''operator''"

definition parse_role :: "string \<Rightarrow> auth_error + role" where
  "parse_role s = (if s = ''user'' then Inr User else if s = ''operator'' then Inr Operator else Inl Store)"

fun purpose_name :: "capability_purpose \<Rightarrow> string" where
  "purpose_name Setup = ''setup''"
| "purpose_name RecoverySetup = ''recovery_setup''"
| "purpose_name OperatorRecovery = ''operator_recovery''"

definition parse_purpose :: "string \<Rightarrow> auth_error + capability_purpose" where
  "parse_purpose s =
     (if s = ''setup'' then Inr Setup
      else if s = ''recovery_setup'' then Inr RecoverySetup
      else if s = ''operator_recovery'' then Inr OperatorRecovery
      else Inl Store)"

fun ceremony_name :: "ceremony_kind \<Rightarrow> string" where
  "ceremony_name Registration = ''registration''"
| "ceremony_name Authentication = ''authentication''"
| "ceremony_name OperatorBootstrap = ''operator_bootstrap''"
| "ceremony_name OperatorRecoveryCeremony = ''operator_recovery''"

definition parse_ceremony_kind :: "string \<Rightarrow> auth_error + ceremony_kind" where
  "parse_ceremony_kind s =
     (if s = ''registration'' then Inr Registration
      else if s = ''authentication'' then Inr Authentication
      else if s = ''operator_bootstrap'' then Inr OperatorBootstrap
      else if s = ''operator_recovery'' then Inr OperatorRecoveryCeremony
      else Inl Store)"

section \<open>Decoding rows\<close>

definition decode_user_id :: "string \<Rightarrow> auth_error + user_id" where
  "decode_user_id s = map_err (\<lambda>_. Store) (UserId_new s)"

definition User_try_from :: "'a user_row_scheme \<Rightarrow> auth_error + user" where
  "User_try_from row =
     and_then (decode_user_id (ur_id row)) (\<lambda>i.
     and_then (parse_role (ur_role row)) (\<lambda>role.
       Inr \<lparr>u_id = i, u_webauthn_handle = ur_webauthn_handle row, u_email = ur_email row,
            u_display_name = ur_display_name row, u_role = role, u_enabled = ur_enabled row,
            u_auth_epoch = ur_auth_epoch row\<rparr>))"

definition StoredCredential_try_from :: "'a credential_row_scheme \<Rightarrow> auth_error + stored_credential" where
  "StoredCredential_try_from row =
     and_then (decode_user_id (cr_user_id row)) (\<lambda>i.
       Inr \<lparr>sc_id = cr_id row, sc_user_id = i, sc_credential_id = cr_credential_id row,
            sc_public_data = cr_public_data row, sc_revoked_at = cr_revoked_at row\<rparr>)"

definition Capability_try_from :: "'a capability_row_scheme \<Rightarrow> auth_error + capability" where
  "Capability_try_from row =
     and_then (decode_user_id (ca_user_id row)) (\<lambda>i.
     and_then (parse_purpose (ca_purpose row)) (\<lambda>purpose.
     and_then (SecretHash_from_slice (ca_token_hash row)) (\<lambda>hash.
       Inr \<lparr>cp_id = ca_id row, cp_user_id = i, cp_purpose = purpose, cp_token_hash = hash,
            cp_expires_at = ca_expires_at row\<rparr>)))"

definition Ceremony_try_from :: "'a ceremony_row_scheme \<Rightarrow> auth_error + ceremony" where
  "Ceremony_try_from row =
     and_then (parse_ceremony_kind (ce_kind row)) (\<lambda>kind.
     and_then (map_err (\<lambda>_. Store) (transpose_res (map_option UserId_new (ce_user_id row)))) (\<lambda>i.
     and_then (transpose_res (map_option SecretHash_from_slice (ce_capability_hash row))) (\<lambda>hash.
       Inr \<lparr>cm_id = ce_id row, cm_kind = kind, cm_user_id = i, cm_capability_hash = hash,
            cm_state = ce_state row, cm_expires_at = ce_expires_at row\<rparr>)))"

definition RecoveryRequest_try_from :: "'a recovery_row_scheme \<Rightarrow> auth_error + recovery_request" where
  "RecoveryRequest_try_from row =
     and_then (decode_user_id (re_user_id row)) (\<lambda>i.
       Inr \<lparr>rq_id = re_id row, rq_user_id = i, rq_requested_at = re_requested_at row,
            rq_approved_at = re_approved_at row\<rparr>)"

section \<open>Building rows\<close>

definition user_to_row :: "user \<Rightarrow> time \<Rightarrow> human_user" where
  "user_to_row u now =
     \<lparr>ur_id = user_str (u_id u), ur_webauthn_handle = u_webauthn_handle u, ur_email = u_email u,
      ur_display_name = u_display_name u, ur_role = role_name (u_role u), ur_enabled = u_enabled u,
      ur_auth_epoch = u_auth_epoch u, hu_created_at = now, hu_updated_at = now\<rparr>"

definition capability_to_row :: "capability \<Rightarrow> time \<Rightarrow> auth_capability" where
  "capability_to_row c clock =
     \<lparr>ca_id = cp_id c, ca_user_id = user_str (cp_user_id c), ca_purpose = purpose_name (cp_purpose c),
      ca_token_hash = as_bytes (cp_token_hash c), ca_expires_at = cp_expires_at c,
      ca_consumed_at = None, ca_created_at = clock\<rparr>"

definition ceremony_to_row :: "ceremony \<Rightarrow> time \<Rightarrow> auth_ceremony" where
  "ceremony_to_row c clock =
     \<lparr>ce_id = cm_id c, ce_kind = ceremony_name (cm_kind c), ce_user_id = map_option user_str (cm_user_id c),
      ce_capability_hash = map_option as_bytes (cm_capability_hash c), ce_state = cm_state c,
      ce_expires_at = cm_expires_at c, ce_consumed_at = None, ce_created_at = clock\<rparr>"

definition session_to_row :: "session_record \<Rightarrow> time \<Rightarrow> auth_session" where
  "session_to_row s now =
     \<lparr>se_id = sr_id s, se_user_id = user_str (sr_user_id s), se_token_hash = as_bytes (sr_token_hash s),
      se_csrf_hash = as_bytes (sr_csrf_hash s), se_auth_epoch = sr_auth_epoch s,
      se_idle_expires_at = sr_idle_expires_at s, se_absolute_expires_at = sr_absolute_expires_at s,
      se_created_at = now, se_last_seen_at = now, se_revoked_at = None\<rparr>"

definition audit_to_row :: "audit_event \<Rightarrow> time \<Rightarrow> audit_row" where
  "audit_to_row event now =
     \<lparr>au_occurred_at = now, au_event_type = ae_event_type event,
      au_actor_user_id = map_option user_str (ae_actor_user_id event),
      au_subject_user_id = map_option user_str (ae_subject_user_id event),
      au_data = ae_data event\<rparr>"

section \<open>Statements with their error mapping\<close>

type_synonym 'a pg_op = "(pg, auth_error, 'a) op"

definition store_err :: "(pg, sql_error, 'a) op \<Rightarrow> 'a pg_op" where
  "store_err m = op_map_err (\<lambda>_. Store) m"

definition db_now :: "time pg_op" where
  "db_now s = (Inr (pg_clock s), s)"

definition limit_1 :: "'a list \<Rightarrow> 'a option" where
  "limit_1 rows = (case rows of [] \<Rightarrow> None | r # _ \<Rightarrow> Some r)"

definition insert_audit :: "audit_event \<Rightarrow> time \<Rightarrow> unit pg_op" where
  "insert_audit event now =
     store_err (exec_tx (ins_audit (audit_to_row event now)))"

definition insert_capability_tx :: "capability \<Rightarrow> unit pg_op" where
  "insert_capability_tx c = op_bind db_now (\<lambda>clock. store_err (exec_tx (ins_capability (capability_to_row c clock))))"

definition insert_user_tx :: "user \<Rightarrow> time \<Rightarrow> unit pg_op" where
  "insert_user_tx u now =
     op_map_err (\<lambda>e. if has_constraint e then Conflict else Store) (exec_tx (ins_user (user_to_row u now)))"

definition conflict_if_unique :: "sql_error \<Rightarrow> auth_error" where
  "conflict_if_unique e = (if e = Unique_violation then Conflict else Store)"

section \<open>Users and credentials\<close>

definition user_by_id :: "user_id \<Rightarrow> user option pg_op" where
  "user_by_id i =
     op_then (store_err (exec_pool (select (\<lambda>d. List.find (\<lambda>u. ur_id u = user_str i) (db_users d)))))
       (\<lambda>row. transpose_res (map_option User_try_from row))"

definition user_by_handle :: "uuid \<Rightarrow> user option pg_op" where
  "user_by_handle handle =
     op_then (store_err (exec_pool (select (\<lambda>d. List.find (\<lambda>u. ur_webauthn_handle u = handle) (db_users d)))))
       (\<lambda>row. transpose_res (map_option User_try_from row))"

definition credentials_for_user :: "user_id \<Rightarrow> stored_credential list pg_op" where
  "credentials_for_user i =
     op_then (store_err (exec_pool (select (\<lambda>d. sort_key pk_created_at
         (filter (\<lambda>c. cr_user_id c = user_str i \<and> cr_revoked_at c = None) (db_credentials d))))))
       (\<lambda>rows. collect_res (map StoredCredential_try_from rows))"

text \<open>The passkeys of operators that are not revoked.\<close>

definition operator_credentials :: "db \<Rightarrow> passkey_credential list" where
  "operator_credentials d =
     filter (\<lambda>c. cr_revoked_at c = None
       \<and> list_ex (\<lambda>u. ur_id u = cr_user_id c \<and> ur_role u = ''operator'') (db_users d)) (db_credentials d)"

definition operator_without_credential :: "user option pg_op" where
  "operator_without_credential =
     op_then (store_err (exec_pool (select (\<lambda>d. limit_1 (sort_key hu_created_at
         (filter (\<lambda>u. ur_role u = ''operator'' \<and> ur_enabled u \<and> operator_credentials d = []) (db_users d)))))))
       (\<lambda>row. transpose_res (map_option User_try_from row))"

definition operator_exists :: "bool pg_op" where
  "operator_exists =
     store_err (exec_pool (select (\<lambda>d. list_ex (\<lambda>u. ur_role u = ''operator'') (db_users d))))"

definition operator_recovery_window :: "time \<Rightarrow> (user \<times> secret_hash) option pg_op" where
  "operator_recovery_window now =
     op_then (store_err (exec_pool (select (\<lambda>d. limit_1 (sort_key (\<lambda>(c, u). - ca_created_at c)
         [(c, u). c \<leftarrow> db_capabilities d, u \<leftarrow> db_users d,
            ur_id u = ca_user_id c \<and> ca_purpose c = ''operator_recovery'' \<and> ca_consumed_at c = None
            \<and> ca_expires_at c > now \<and> ur_role u = ''operator'' \<and> ur_enabled u])))))
       (\<lambda>row. transpose_res (map_option (\<lambda>(c, u).
          and_then (SecretHash_from_slice (ca_token_hash c)) (\<lambda>hash.
          and_then (User_try_from u) (\<lambda>user. Inr (user, hash)))) row))"

definition insert_user :: "user \<Rightarrow> time \<Rightarrow> audit_event \<Rightarrow> unit pg_op" where
  "insert_user u now audit =
     transaction (op_bind (insert_user_tx u now) (\<lambda>_. insert_audit audit now))"

section \<open>Capabilities\<close>

definition capability :: "secret_hash \<Rightarrow> capability_purpose \<Rightarrow> time \<Rightarrow> capability option pg_op" where
  "capability hash purpose now =
     op_then (store_err (exec_pool (select (\<lambda>d. List.find (\<lambda>c. ca_token_hash c = as_bytes hash
         \<and> ca_purpose c = purpose_name purpose \<and> ca_consumed_at c = None \<and> ca_expires_at c > now)
         (db_capabilities d)))))
       (\<lambda>row. transpose_res (map_option Capability_try_from row))"

definition insert_capability :: "capability \<Rightarrow> unit pg_op" where
  "insert_capability c =
     op_bind db_now (\<lambda>clock. store_err (exec_pool (ins_capability (capability_to_row c clock))))"

definition approve_user_with_setup :: "user \<Rightarrow> capability \<Rightarrow> user_id \<Rightarrow> time \<Rightarrow> unit pg_op" where
  "approve_user_with_setup u c operator_id now =
     transaction
       (op_bind (insert_user_tx u now) (\<lambda>_.
        op_bind (insert_capability_tx c) (\<lambda>_.
        insert_audit
          \<lparr>ae_event_type = ''user.approved_with_setup'', ae_actor_user_id = Some operator_id,
           ae_subject_user_id = Some (u_id u),
           ae_data = JObject [(''capability_id'', JString (uuid_str (cp_id c)))]\<rparr> now)))"

text \<open>\<open>query_scalar::<_, i64>\<close> on the \<open>int4\<close> column of \<open>RETURNING 1\<close>, one value per updated row.\<close>

definition decode_returning_1 :: "'a list \<Rightarrow> nat pg_op" where
  "decode_returning_1 rows s =
     (if rows \<noteq> [] \<and> \<not> pg_int4_as_i64 s then (Inl Store, s) else (Inr (length rows), s))"

definition rotate_all_auth_epochs :: "time \<Rightarrow> string \<Rightarrow> u64 pg_op" where
  "rotate_all_auth_epochs now reason =
     transaction
       (op_bind (store_err (exec_tx (upd_users_epoch (\<lambda>_. True) now))) (\<lambda>rows.
        op_bind (decode_returning_1 rows) (\<lambda>users.
        op_bind (store_err (exec_tx (upd_sessions_revoked (\<lambda>s. se_revoked_at s = None) now))) (\<lambda>_.
        op_bind (store_err (exec_tx (upd_ceremonies_consumed (\<lambda>c. ce_consumed_at c = None) now))) (\<lambda>_.
        op_bind (store_err (exec_tx (upd_capabilities_consumed (\<lambda>c. ca_consumed_at c = None) now))) (\<lambda>_.
        op_bind (insert_audit
          \<lparr>ae_event_type = ''auth.epoch_rotated_all'', ae_actor_user_id = None, ae_subject_user_id = None,
           ae_data = JObject [(''reason'', JString reason), (''users'', JNumber (int users))]\<rparr> now) (\<lambda>_.
        op_return (of_nat users))))))))"

section \<open>Ceremonies\<close>

definition insert_ceremony :: "ceremony \<Rightarrow> unit pg_op" where
  "insert_ceremony c =
     op_bind db_now (\<lambda>clock. store_err (exec_pool (ins_ceremony (ceremony_to_row c clock))))"

definition ceremony :: "uuid \<Rightarrow> ceremony_kind \<Rightarrow> time \<Rightarrow> ceremony option pg_op" where
  "ceremony i k now =
     op_then (store_err (exec_pool (select (\<lambda>d. List.find (\<lambda>c. ce_id c = i \<and> ce_kind c = ceremony_name k
         \<and> ce_consumed_at c = None \<and> ce_expires_at c > now) (db_ceremonies d)))))
       (\<lambda>row. transpose_res (map_option Ceremony_try_from row))"

text \<open>\<open>RETURNING user_id, kind\<close> decoded as two strings: a \<open>NULL\<close> user is a decoding error.\<close>

definition consume_ceremony :: "uuid \<Rightarrow> time \<Rightarrow> (string \<times> string) pg_op" where
  "consume_ceremony i now =
     op_bind (store_err (exec_tx (upd_ceremonies_consumed
         (\<lambda>c. ce_id c = i \<and> ce_consumed_at c = None \<and> ce_expires_at c > now) now))) (\<lambda>rows.
       case rows of
         [] \<Rightarrow> op_fail InvalidState
       | c # _ \<Rightarrow> (case ce_user_id c of None \<Rightarrow> op_fail Store | Some u \<Rightarrow> op_return (u, ce_kind c)))"

definition check_bootstrap :: "string \<Rightarrow> unit pg_op" where
  "check_bootstrap ceremony_kind =
     (if ceremony_kind = ''operator_bootstrap''
      then op_bind (store_err (exec_tx (select (\<lambda>d. length (operator_credentials d))))) (\<lambda>n.
             if n \<noteq> 0 then op_fail Conflict else op_return ())
      else op_return ())"

definition consume_capability :: "secret_hash option \<Rightarrow> time \<Rightarrow> unit pg_op" where
  "consume_capability capability_hash now =
     (case capability_hash of
        None \<Rightarrow> op_return ()
      | Some hash \<Rightarrow>
          op_bind (store_err (exec_tx (upd_capabilities_consumed
              (\<lambda>c. ca_token_hash c = as_bytes hash \<and> ca_consumed_at c = None \<and> ca_expires_at c > now) now)))
            (\<lambda>rows. if length rows \<noteq> 1 then op_fail InvalidState else op_return ()))"

definition insert_credential :: "uuid \<Rightarrow> string \<Rightarrow> verified_credential \<Rightarrow> time \<Rightarrow> unit pg_op" where
  "insert_credential new_id user_id credential now =
     op_map_err conflict_if_unique (exec_tx (ins_credential
       \<lparr>cr_id = new_id, cr_user_id = user_id, cr_credential_id = vc_credential_id credential,
        cr_public_data = vc_public_data credential, cr_revoked_at = None,
        pk_created_at = now, pk_last_used_at = None\<rparr>))"

text \<open>A \<open>NULL\<close> subject selects no row.\<close>

definition complete_recoveries :: "user_id option \<Rightarrow> time \<Rightarrow> unit pg_op" where
  "complete_recoveries subject now =
     op_void (store_err (exec_tx (upd_recoveries_completed (\<lambda>r.
       map_option user_str subject = Some (re_user_id r) \<and> re_approved_at r \<noteq> None
       \<and> re_setup_issued_at r \<noteq> None \<and> re_completed_at r = None) now)))"

definition complete_registration ::
    "uuid \<Rightarrow> uuid \<Rightarrow> secret_hash option \<Rightarrow> verified_credential \<Rightarrow> time \<Rightarrow> audit_event \<Rightarrow> unit pg_op" where
  "complete_registration new_id ceremony_id capability_hash credential now audit =
     transaction
       (op_bind (store_err (exec_tx (select (\<lambda>_. ())))) (\<lambda>_.
        op_bind (consume_ceremony ceremony_id now) (\<lambda>(user_id, ceremony_kind).
        op_bind (check_bootstrap ceremony_kind) (\<lambda>_.
        op_bind (consume_capability capability_hash now) (\<lambda>_.
        op_bind (insert_credential new_id user_id credential now) (\<lambda>_.
        op_bind (complete_recoveries (ae_subject_user_id audit) now) (\<lambda>_.
        insert_audit audit now)))))))"

definition complete_authentication ::
    "uuid \<Rightarrow> authentication_verification \<Rightarrow> session_record \<Rightarrow> time \<Rightarrow> audit_event \<Rightarrow> unit pg_op" where
  "complete_authentication ceremony_id verification session now audit =
     transaction
       (op_bind (store_err (exec_tx (upd_ceremonies_consumed (\<lambda>c. ce_id c = ceremony_id
            \<and> ce_kind c = ''authentication'' \<and> ce_consumed_at c = None \<and> ce_expires_at c > now) now))) (\<lambda>consumed.
        if length consumed \<noteq> 1 then op_fail InvalidState
        else op_bind (store_err (exec_tx (upd_credentials_used (\<lambda>c. cr_user_id c = user_str (sr_user_id session)
            \<and> cr_credential_id c = av_credential_id verification \<and> cr_revoked_at c = None)
            (av_updated_public_data verification) now))) (\<lambda>credential.
        if length credential \<noteq> 1 then op_fail Unauthenticated
        else op_bind (store_err (exec_tx (ins_session (session_to_row session now)))) (\<lambda>_.
        insert_audit audit now))))"

section \<open>Sessions\<close>

text \<open>The join of the two session queries: a live session and its user.\<close>

definition session_live :: "time \<Rightarrow> auth_session \<Rightarrow> human_user \<Rightarrow> bool" where
  "session_live now s u \<longleftrightarrow> ur_id u = se_user_id s \<and> se_revoked_at s = None
     \<and> se_idle_expires_at s > now \<and> se_absolute_expires_at s > now
     \<and> ur_enabled u \<and> se_auth_epoch s = ur_auth_epoch u"

definition live_session :: "secret_hash \<Rightarrow> time \<Rightarrow> db \<Rightarrow> (auth_session \<times> human_user) option" where
  "live_session hash now d =
     limit_1 [(s, u). s \<leftarrow> db_sessions d, u \<leftarrow> db_users d, se_token_hash s = as_bytes hash \<and> session_live now s u]"

definition touch_session ::
    "secret_hash \<Rightarrow> secret_hash option \<Rightarrow> time \<Rightarrow> time \<Rightarrow> (auth_session \<times> human_user) option pg_op" where
  "touch_session hash csrf_hash now idle_expires_at =
     transaction
       (op_bind (store_err (exec_tx (select (live_session hash now)))) (\<lambda>row.
          case row of
            None \<Rightarrow> op_return None
          | Some (s, u) \<Rightarrow>
              op_bind (store_err (exec_tx (upd_session_seen (se_id s) (map_option as_bytes csrf_hash)
                  (min idle_expires_at (se_absolute_expires_at s)) now))) (\<lambda>_.
              op_return (Some (s, u)))))"

definition session :: "secret_hash \<Rightarrow> time \<Rightarrow> time \<Rightarrow> session_principal option pg_op" where
  "session hash now idle_expires_at =
     op_then (touch_session hash None now idle_expires_at) (\<lambda>row.
       case row of
         None \<Rightarrow> Inr None
       | Some (s, u) \<Rightarrow>
           and_then (User_try_from u) (\<lambda>user.
           and_then (SecretHash_from_slice (se_csrf_hash s)) (\<lambda>csrf.
             Inr (Some \<lparr>sp_session_id = se_id s, sp_user = user, sp_csrf_hash = csrf,
                        sp_absolute_expires_at = se_absolute_expires_at s\<rparr>))))"

definition rotate_session_csrf ::
    "secret_hash \<Rightarrow> secret_hash \<Rightarrow> time \<Rightarrow> time \<Rightarrow> session_principal option pg_op" where
  "rotate_session_csrf hash csrf_hash now idle_expires_at =
     op_then (touch_session hash (Some csrf_hash) now idle_expires_at) (\<lambda>row.
       case row of
         None \<Rightarrow> Inr None
       | Some (s, u) \<Rightarrow>
           and_then (User_try_from u) (\<lambda>user.
             Inr (Some \<lparr>sp_session_id = se_id s, sp_user = user, sp_csrf_hash = csrf_hash,
                        sp_absolute_expires_at = se_absolute_expires_at s\<rparr>)))"

definition delete_session :: "secret_hash \<Rightarrow> unit pg_op" where
  "delete_session hash =
     op_bind db_now (\<lambda>clock.
       op_void (store_err (exec_pool (upd_sessions_revoked
         (\<lambda>s. se_token_hash s = as_bytes hash \<and> se_revoked_at s = None) clock))))"

section \<open>Recovery\<close>

definition create_recovery :: "uuid \<Rightarrow> user_id \<Rightarrow> time \<Rightarrow> recovery_request pg_op" where
  "create_recovery new_id user_id now =
     op_bind (op_map_err conflict_if_unique (exec_pool (ins_recovery
         \<lparr>re_id = new_id, re_user_id = user_str user_id, re_requested_at = now, re_approved_at = None,
          re_approved_by = None, re_setup_issued_at = None, re_completed_at = None\<rparr>))) (\<lambda>_.
       op_return \<lparr>rq_id = new_id, rq_user_id = user_id, rq_requested_at = now, rq_approved_at = None\<rparr>)"

definition pending_recoveries :: "recovery_request list pg_op" where
  "pending_recoveries =
     op_then (store_err (exec_pool (select (\<lambda>d. sort_key re_requested_at
         (filter (\<lambda>r. re_completed_at r = None) (db_recoveries d))))))
       (\<lambda>rows. collect_res (map RecoveryRequest_try_from rows))"

definition invalidate_user_auth :: "string \<Rightarrow> time \<Rightarrow> unit pg_op" where
  "invalidate_user_auth user_id now =
     op_bind (store_err (exec_tx (upd_users_epoch (\<lambda>u. ur_id u = user_id) now))) (\<lambda>_.
     op_bind (store_err (exec_tx (upd_sessions_revoked
         (\<lambda>s. se_user_id s = user_id \<and> se_revoked_at s = None) now))) (\<lambda>_.
     op_bind (store_err (exec_tx (upd_ceremonies_consumed
         (\<lambda>c. ce_user_id c = Some user_id \<and> ce_consumed_at c = None) now))) (\<lambda>_.
     op_void (store_err (exec_tx (upd_capabilities_consumed
         (\<lambda>c. ca_user_id c = user_id \<and> ca_consumed_at c = None) now))))))"

definition approve_recovery :: "uuid \<Rightarrow> user_id \<Rightarrow> time \<Rightarrow> unit pg_op" where
  "approve_recovery recovery_id operator_id now =
     transaction
       (op_bind (store_err (exec_tx (upd_recoveries_approved
            (\<lambda>r. re_id r = recovery_id \<and> re_approved_at r = None \<and> re_completed_at r = None)
            now (user_str operator_id)))) (\<lambda>rows.
          case rows of
            [] \<Rightarrow> op_fail Conflict
          | r # _ \<Rightarrow>
              op_bind (invalidate_user_auth (re_user_id r) now) (\<lambda>_.
              op_bind (op_lift (decode_user_id (re_user_id r))) (\<lambda>subject.
              insert_audit
                \<lparr>ae_event_type = ''recovery.approved'', ae_actor_user_id = Some operator_id,
                 ae_subject_user_id = Some subject,
                 ae_data = JObject [(''recovery_id'', JString (uuid_str recovery_id))]\<rparr> now))))"

definition issue_recovery_setup :: "uuid \<Rightarrow> capability \<Rightarrow> user_id \<Rightarrow> time \<Rightarrow> unit pg_op" where
  "issue_recovery_setup recovery_id c operator_id now =
     transaction
       (op_bind (store_err (exec_tx (upd_recoveries_issued (\<lambda>r. re_id r = recovery_id \<and> re_approved_at r \<noteq> None
            \<and> re_setup_issued_at r = None \<and> re_completed_at r = None
            \<and> re_user_id r = user_str (cp_user_id c)) now))) (\<lambda>issued.
        if length issued \<noteq> 1 then op_fail Conflict
        else op_bind (insert_capability_tx c) (\<lambda>_.
        insert_audit
          \<lparr>ae_event_type = ''recovery.setup_issued'', ae_actor_user_id = Some operator_id,
           ae_subject_user_id = Some (cp_user_id c),
           ae_data = JObject [(''recovery_id'', JString (uuid_str recovery_id))]\<rparr> now)))"

definition break_glass :: "uuid \<Rightarrow> capability \<Rightarrow> time \<Rightarrow> string \<Rightarrow> unit pg_op" where
  "break_glass credential_id c now reason =
     transaction
       (op_bind (store_err (exec_tx (\<lambda>d. upd_credentials_revoked (\<lambda>k. cr_id k = credential_id
            \<and> list_ex (\<lambda>u. ur_id u = cr_user_id k \<and> ur_role u = ''operator'') (db_users d)
            \<and> cr_revoked_at k = None) now d))) (\<lambda>rows.
          case rows of
            [] \<Rightarrow> op_fail Conflict
          | k # _ \<Rightarrow>
              if user_str (cp_user_id c) \<noteq> cr_user_id k then op_fail Forbidden
              else op_bind (invalidate_user_auth (cr_user_id k) now) (\<lambda>_.
                   op_bind (insert_capability_tx c) (\<lambda>_.
                   insert_audit
                     \<lparr>ae_event_type = ''operator.break_glass_opened'', ae_actor_user_id = None,
                      ae_subject_user_id = Some (cp_user_id c),
                      ae_data = JObject [(''credential_id'', JString (uuid_str credential_id)),
                                         (''reason'', JString reason)]\<rparr> now))))"

definition ready :: "pg \<Rightarrow> bool \<times> pg" where
  "ready s = (case exec_pool (select (\<lambda>_. 1 :: int)) s of (r, s') \<Rightarrow> (is_ok r, s'))"

end
