(* ===== verification/Pg_Relations.thy ===== *)
theory Pg_Relations
  imports Pg_Store
begin

text \<open>
  What every call of the store does to the state, proved once for any relation between the state
  before and after that the statements respect: the locale \<open>statement_relation\<close> carries a relation
  through statements and transactions, and \<open>store_relation\<close> extends it by the statements with the guards
  the code gives them, and shows the relation for every function of the store.
  \<open>store_call\<close> is the set of these functions.
\<close>

section \<open>Case distinctions under a relation\<close>

lemma op_rel_if: "op_rel R m \<Longrightarrow> op_rel R n \<Longrightarrow> op_rel R (if c then m else n)"
  by simp

lemma op_rel_case_option:
  "op_rel R m \<Longrightarrow> (\<And>x. op_rel R (f x)) \<Longrightarrow> op_rel R (case v of None \<Rightarrow> m | Some x \<Rightarrow> f x)"
  by (cases v) simp_all

lemma op_rel_case_list:
  "op_rel R m \<Longrightarrow> (\<And>x xs. op_rel R (f x xs)) \<Longrightarrow> op_rel R (case v of [] \<Rightarrow> m | x # xs \<Rightarrow> f x xs)"
  by (cases v) simp_all

lemma op_rel_case_prod: "(\<And>x y. op_rel R (f x y)) \<Longrightarrow> op_rel R (case v of (x, y) \<Rightarrow> f x y)"
  by (cases v) simp

lemmas op_rel_cases = op_rel_if op_rel_case_option op_rel_case_list op_rel_case_prod

lemma op_rel_store_err: "op_rel R m \<Longrightarrow> op_rel R (store_err m)"
  by (simp add: store_err_def op_rel_map_err)

section \<open>Values the types of the code guarantee\<close>

definition epoch_ok :: "int \<Rightarrow> bool" where
  "epoch_ok n \<longleftrightarrow> n \<le> i64_max"

definition user_ok :: "user \<Rightarrow> bool" where
  "user_ok u \<longleftrightarrow> user_id_ok (u_id u) \<and> epoch_ok (u_auth_epoch u)"

definition user_row_ok :: "human_user \<Rightarrow> bool" where
  "user_row_ok r \<longleftrightarrow> valid_opaque_id (ur_id r) \<and> epoch_ok (ur_auth_epoch r)"

text \<open>A recovery request as \<open>create_recovery\<close> writes it.\<close>

definition recovery_row_new :: "recovery_request_row \<Rightarrow> bool" where
  "recovery_row_new q \<longleftrightarrow> re_approved_at q = None \<and> re_approved_by q = None
     \<and> re_setup_issued_at q = None \<and> re_completed_at q = None"

lemma user_to_row_ok: "user_ok u \<Longrightarrow> user_row_ok (user_to_row u now)"
  by (simp add: user_ok_def user_row_ok_def user_to_row_def user_id_ok_def)

section \<open>The calls of the store\<close>

text \<open>Every function of \<open>PgAuthStore\<close>, with the arguments its types admit and its value forgotten.\<close>

inductive store_call :: "unit pg_op \<Rightarrow> bool" where
  call_user_by_id: "store_call (op_void (user_by_id i))"
| call_user_by_handle: "store_call (op_void (user_by_handle h))"
| call_credentials_for_user: "store_call (op_void (credentials_for_user i))"
| call_operator_without_credential: "store_call (op_void operator_without_credential)"
| call_operator_exists: "store_call (op_void operator_exists)"
| call_operator_recovery_window: "store_call (op_void (operator_recovery_window now))"
| call_capability: "store_call (op_void (capability th purpose now))"
| call_ceremony: "store_call (op_void (ceremony cid k now))"
| call_pending_recoveries: "store_call (op_void pending_recoveries)"
| call_insert_capability: "store_call (op_void (insert_capability c))"
| call_insert_user: "user_ok u \<Longrightarrow> store_call (op_void (insert_user u now audit))"
| call_approve_user: "user_ok u \<Longrightarrow> store_call (op_void (approve_user_with_setup u c operator_id now))"
| call_rotate: "store_call (op_void (rotate_all_auth_epochs now reason))"
| call_insert_ceremony: "store_call (op_void (insert_ceremony e))"
| call_complete_registration: "store_call (op_void (complete_registration new_id cid oh credential now audit))"
| call_complete_authentication: "store_call (op_void (complete_authentication cid v n now audit))"
| call_session: "store_call (op_void (session th now idle))"
| call_rotate_session_csrf: "store_call (op_void (rotate_session_csrf th csrf now idle))"
| call_delete_session: "store_call (op_void (delete_session th))"
| call_create_recovery: "store_call (op_void (create_recovery new_id i now))"
| call_approve_recovery: "store_call (op_void (approve_recovery rid operator_id now))"
| call_issue_recovery_setup: "store_call (op_void (issue_recovery_setup rid c operator_id now))"
| call_break_glass: "store_call (op_void (break_glass kid c now reason))"

section \<open>Relations the statements respect\<close>

text \<open>What every relation needs to be carried by statements and transactions: the wire and the rollback.\<close>

locale statement_relation = step_relation R for R :: "pg \<Rightarrow> pg \<Rightarrow> bool" +
  assumes sent: "R s (snd (round_trip s))"
    and dropped: "R s t \<Longrightarrow> R s (t\<lparr>pg_db := pg_db s\<rparr>)"
begin

lemma run_stmt_rel:
  assumes "\<And>s x d. st (pg_db s) = Inr (x, d) \<Longrightarrow> R s (s\<lparr>pg_db := d\<rparr>)"
  shows "R s (snd (run_stmt st s))"
  using assms refl by (auto simp: run_stmt_def split: sum.split)

lemma exec_tx_rel:
  assumes "\<And>s x d. st (pg_db s) = Inr (x, d) \<Longrightarrow> R s (s\<lparr>pg_db := d\<rparr>)"
  shows "op_rel R (exec_tx st)"
proof (rule op_relI)
  fix s r s' assume "exec_tx st s = (r, s')"
  then have "s' = snd (round_trip s) \<or> s' = snd (run_stmt st (snd (round_trip s)))"
    by (auto simp: exec_tx_def split: prod.splits outcome.splits)
  moreover have "R s (snd (run_stmt st (snd (round_trip s))))"
    by (rule trans [OF sent run_stmt_rel]) (rule assms)
  ultimately show "R s s'" using sent by auto
qed

lemma exec_pool_rel:
  assumes "\<And>s x d. st (pg_db s) = Inr (x, d) \<Longrightarrow> R s (s\<lparr>pg_db := d\<rparr>)"
  shows "op_rel R (exec_pool st)"
proof (rule op_relI)
  fix s r s' assume "exec_pool st s = (r, s')"
  then have "s' = snd (round_trip s) \<or> s' = snd (run_stmt st (snd (round_trip s)))"
    by (auto simp: exec_pool_def split: prod.splits outcome.splits)
  moreover have "R s (snd (run_stmt st (snd (round_trip s))))"
    by (rule trans [OF sent run_stmt_rel]) (rule assms)
  ultimately show "R s s'" using sent by auto
qed

lemma transaction_rel:
  assumes "op_rel R body"
  shows "op_rel R (transaction body)"
proof (rule op_relI)
  fix s r s' assume run: "transaction body s = (r, s')"
  obtain o1 s1 where s1: "round_trip s = (o1, s1)" by fastforce
  obtain r2 s2 where s2: "body s1 = (r2, s2)" by fastforce
  obtain o3 s3 where s3: "round_trip s2 = (o3, s3)" by fastforce
  have "R s s1" using sent [of s] s1 by simp
  moreover from calculation have r2: "R s s2" by (rule trans) (rule op_relD [OF assms s2])
  moreover from r2 have "R s s3" by (rule trans) (use sent [of s2] s3 in simp)
  moreover have "s' \<in> {s1, s3, s2\<lparr>pg_db := pg_db s\<rparr>, s3\<lparr>pg_db := pg_db s\<rparr>}"
    using run s1 s2 s3 by (auto simp: transaction_def split: outcome.splits sum.splits)
  ultimately show "R s s'" using dropped by blast
qed

lemma select_tx: "op_rel R (exec_tx (select f))" and select_pool: "op_rel R (exec_pool (select f))"
  by (rule exec_tx_rel exec_pool_rel, simp add: select_def refl)+

end

text \<open>The statements of the store, with the guards the code gives them.\<close>

locale store_relation = statement_relation R for R :: "pg \<Rightarrow> pg \<Rightarrow> bool" +
  assumes ins_user_rel: "ins_user r (pg_db s) = Inr (x, d) \<Longrightarrow> user_row_ok r \<Longrightarrow> R s (s\<lparr>pg_db := d\<rparr>)"
    and ins_credential_rel: "ins_credential k (pg_db s) = Inr (x, d) \<Longrightarrow> R s (s\<lparr>pg_db := d\<rparr>)"
    and ins_capability_rel: "ins_capability c (pg_db s) = Inr (x, d) \<Longrightarrow> R s (s\<lparr>pg_db := d\<rparr>)"
    and ins_ceremony_rel: "ins_ceremony e (pg_db s) = Inr (x, d) \<Longrightarrow> R s (s\<lparr>pg_db := d\<rparr>)"
    and ins_session_rel: "ins_session n (pg_db s) = Inr (x, d) \<Longrightarrow> R s (s\<lparr>pg_db := d\<rparr>)"
    and ins_recovery_rel: "ins_recovery q (pg_db s) = Inr (x, d) \<Longrightarrow> recovery_row_new q \<Longrightarrow> R s (s\<lparr>pg_db := d\<rparr>)"
    and ins_audit_rel: "ins_audit a (pg_db s) = Inr (x, d) \<Longrightarrow> R s (s\<lparr>pg_db := d\<rparr>)"
    and epoch_rel: "upd_users_epoch P1 now (pg_db s) = Inr (y1, d) \<Longrightarrow> R s (s\<lparr>pg_db := d\<rparr>)"
    and used_rel: "upd_credentials_used P2 data now (pg_db s) = Inr (y2, d) \<Longrightarrow> R s (s\<lparr>pg_db := d\<rparr>)"
    and revoked_rel: "upd_credentials_revoked P2 now (pg_db s) = Inr (y2, d) \<Longrightarrow>
      (\<And>k. P2 k \<Longrightarrow> cr_revoked_at k = None) \<Longrightarrow> R s (s\<lparr>pg_db := d\<rparr>)"
    and capabilities_rel: "upd_capabilities_consumed P3 now (pg_db s) = Inr (y3, d) \<Longrightarrow>
      (\<And>c. P3 c \<Longrightarrow> ca_consumed_at c = None) \<Longrightarrow> R s (s\<lparr>pg_db := d\<rparr>)"
    and ceremonies_rel: "upd_ceremonies_consumed P4 now (pg_db s) = Inr (y4, d) \<Longrightarrow>
      (\<And>e. P4 e \<Longrightarrow> ce_consumed_at e = None) \<Longrightarrow> R s (s\<lparr>pg_db := d\<rparr>)"
    and sessions_rel: "upd_sessions_revoked P5 now (pg_db s) = Inr (y5, d) \<Longrightarrow>
      (\<And>n. P5 n \<Longrightarrow> se_revoked_at n = None) \<Longrightarrow> R s (s\<lparr>pg_db := d\<rparr>)"
    and seen_rel: "upd_session_seen sid csrf idle now (pg_db s) = Inr (y5, d) \<Longrightarrow> R s (s\<lparr>pg_db := d\<rparr>)"
    and approved_rel: "upd_recoveries_approved P6 now operator (pg_db s) = Inr (y6, d) \<Longrightarrow>
      (\<And>q. P6 q \<Longrightarrow> recovery_pending q) \<Longrightarrow> R s (s\<lparr>pg_db := d\<rparr>)"
    and issued_rel: "upd_recoveries_issued P6 now (pg_db s) = Inr (y6, d) \<Longrightarrow>
      (\<And>q. P6 q \<Longrightarrow> re_approved_at q \<noteq> None \<and> re_setup_issued_at q = None) \<Longrightarrow> R s (s\<lparr>pg_db := d\<rparr>)"
    and completed_rel: "upd_recoveries_completed P6 now (pg_db s) = Inr (y6, d) \<Longrightarrow>
      (\<And>q. P6 q \<Longrightarrow> re_approved_at q \<noteq> None \<and> re_completed_at q = None) \<Longrightarrow> R s (s\<lparr>pg_db := d\<rparr>)"
begin

lemmas ins_rels = ins_credential_rel ins_capability_rel ins_ceremony_rel ins_session_rel
  ins_audit_rel epoch_rel used_rel seen_rel

lemma ins_tx:
  "op_rel R (exec_tx (ins_credential k))"
  "op_rel R (exec_tx (ins_capability c))"
  "op_rel R (exec_tx (ins_session n))"
  "op_rel R (exec_tx (ins_audit a))"
  "op_rel R (exec_tx (upd_users_epoch P1 now))"
  "op_rel R (exec_tx (upd_credentials_used P2 data now))"
  "op_rel R (exec_tx (upd_session_seen sid csrf idle now))"
  by (rule exec_tx_rel, erule ins_rels)+

lemma ins_pool:
  "op_rel R (exec_pool (ins_capability c))"
  "op_rel R (exec_pool (ins_ceremony e))"
  by (rule exec_pool_rel, erule ins_rels)+

lemma recovery_pool: "recovery_row_new q \<Longrightarrow> op_rel R (exec_pool (ins_recovery q))"
  by (rule exec_pool_rel) (rule ins_recovery_rel)

lemma user_tx: "user_row_ok r \<Longrightarrow> op_rel R (exec_tx (ins_user r))"
  by (rule exec_tx_rel) (rule ins_user_rel)

lemma revoked_tx:
  "(\<And>d k. P d k \<Longrightarrow> cr_revoked_at k = None) \<Longrightarrow> op_rel R (exec_tx (\<lambda>d. upd_credentials_revoked (P d) now d))"
  by (rule exec_tx_rel) (rule revoked_rel)

lemma capabilities_tx:
  "(\<And>c. P c \<Longrightarrow> ca_consumed_at c = None) \<Longrightarrow> op_rel R (exec_tx (upd_capabilities_consumed P now))"
  by (rule exec_tx_rel) (rule capabilities_rel)

lemma ceremonies_tx:
  "(\<And>e. P e \<Longrightarrow> ce_consumed_at e = None) \<Longrightarrow> op_rel R (exec_tx (upd_ceremonies_consumed P now))"
  by (rule exec_tx_rel) (rule ceremonies_rel)

lemma sessions_tx:
  "(\<And>n. P n \<Longrightarrow> se_revoked_at n = None) \<Longrightarrow> op_rel R (exec_tx (upd_sessions_revoked P now))"
  by (rule exec_tx_rel) (rule sessions_rel)

lemma sessions_pool:
  "(\<And>n. P n \<Longrightarrow> se_revoked_at n = None) \<Longrightarrow> op_rel R (exec_pool (upd_sessions_revoked P now))"
  by (rule exec_pool_rel) (rule sessions_rel)

lemma approved_tx:
  "(\<And>q. P q \<Longrightarrow> recovery_pending q) \<Longrightarrow> op_rel R (exec_tx (upd_recoveries_approved P now operator))"
  by (rule exec_tx_rel) (rule approved_rel)

lemma issued_tx:
  "(\<And>q. P q \<Longrightarrow> re_approved_at q \<noteq> None \<and> re_setup_issued_at q = None) \<Longrightarrow>
     op_rel R (exec_tx (upd_recoveries_issued P now))"
  by (rule exec_tx_rel) (rule issued_rel)

lemma completed_tx:
  "(\<And>q. P q \<Longrightarrow> re_approved_at q \<noteq> None \<and> re_completed_at q = None) \<Longrightarrow>
     op_rel R (exec_tx (upd_recoveries_completed P now))"
  by (rule exec_tx_rel) (rule completed_rel)

lemma db_now_rel: "op_rel R db_now"
  by (simp add: op_rel_def db_now_def refl)

lemma decode_returning_1_rel: "op_rel R (decode_returning_1 rows)"
  by (auto simp: op_rel_def decode_returning_1_def refl split: if_splits)

lemmas stmt_intros = rel_return rel_fail rel_lift rel_bind op_rel_map_err op_rel_then op_rel_void
  op_rel_store_err op_rel_cases select_tx select_pool ins_tx ins_pool recovery_pool revoked_tx capabilities_tx
  ceremonies_tx sessions_tx sessions_pool approved_tx issued_tx completed_tx
  db_now_rel decode_returning_1_rel

lemma insert_audit_rel: "op_rel R (insert_audit event now)"
  unfolding insert_audit_def by (intro stmt_intros)

lemma insert_capability_tx_rel: "op_rel R (insert_capability_tx c)"
  unfolding insert_capability_tx_def by (intro stmt_intros)

lemma insert_user_tx_rel: "user_ok u \<Longrightarrow> op_rel R (insert_user_tx u now)"
  unfolding insert_user_tx_def by (intro stmt_intros user_tx user_to_row_ok)

lemma consume_ceremony_rel: "op_rel R (consume_ceremony i now)"
  unfolding consume_ceremony_def by (intro stmt_intros) simp

lemma check_bootstrap_rel: "op_rel R (check_bootstrap k)"
  unfolding check_bootstrap_def by (intro stmt_intros)

lemma consume_capability_rel: "op_rel R (consume_capability h now)"
  unfolding consume_capability_def by (intro stmt_intros) simp

lemma insert_credential_rel: "op_rel R (insert_credential new_id i credential now)"
  unfolding insert_credential_def by (intro stmt_intros)

lemma complete_recoveries_rel: "op_rel R (complete_recoveries subject now)"
  unfolding complete_recoveries_def by (intro stmt_intros) simp

lemma invalidate_user_auth_rel: "op_rel R (invalidate_user_auth i now)"
  unfolding invalidate_user_auth_def by (intro stmt_intros) simp_all

lemmas part_intros = stmt_intros insert_audit_rel insert_capability_tx_rel insert_user_tx_rel
  consume_ceremony_rel check_bootstrap_rel consume_capability_rel invalidate_user_auth_rel
  insert_credential_rel complete_recoveries_rel

section \<open>Every function of the store\<close>

lemma insert_user_rel: "user_ok u \<Longrightarrow> op_rel R (insert_user u now audit)"
  unfolding insert_user_def by (intro transaction_rel part_intros)

lemma approve_user_with_setup_rel: "user_ok u \<Longrightarrow> op_rel R (approve_user_with_setup u c operator now)"
  unfolding approve_user_with_setup_def by (intro transaction_rel part_intros)

lemma rotate_all_auth_epochs_rel: "op_rel R (rotate_all_auth_epochs now reason)"
  unfolding rotate_all_auth_epochs_def by (intro transaction_rel part_intros)

lemma complete_registration_rel: "op_rel R (complete_registration new_id i h credential now audit)"
  unfolding complete_registration_def by (intro transaction_rel part_intros)

lemma complete_authentication_rel: "op_rel R (complete_authentication i v n now audit)"
  unfolding complete_authentication_def by (intro transaction_rel part_intros) simp

lemma touch_session_rel: "op_rel R (touch_session h csrf now idle)"
  unfolding touch_session_def by (intro transaction_rel part_intros)

lemma approve_recovery_rel: "op_rel R (approve_recovery i operator now)"
  unfolding approve_recovery_def by (intro transaction_rel part_intros) (simp add: recovery_pending_def)

lemma issue_recovery_setup_rel: "op_rel R (issue_recovery_setup i c operator now)"
  unfolding issue_recovery_setup_def by (intro transaction_rel part_intros) simp

lemma break_glass_rel: "op_rel R (break_glass i c now reason)"
  unfolding break_glass_def by (intro transaction_rel part_intros) simp

lemmas tx_rels = insert_user_rel approve_user_with_setup_rel rotate_all_auth_epochs_rel
  complete_registration_rel complete_authentication_rel touch_session_rel approve_recovery_rel
  issue_recovery_setup_rel break_glass_rel

lemma read_rels:
  "op_rel R (user_by_id i)" "op_rel R (user_by_handle h)" "op_rel R (credentials_for_user i)"
  "op_rel R operator_without_credential" "op_rel R operator_exists"
  "op_rel R (operator_recovery_window now)" "op_rel R (capability th purpose now)"
  "op_rel R (ceremony cid k now)" "op_rel R pending_recoveries"
  unfolding user_by_id_def user_by_handle_def credentials_for_user_def operator_without_credential_def
    operator_exists_def operator_recovery_window_def capability_def ceremony_def pending_recoveries_def
  by (intro stmt_intros)+

lemma pool_rels:
  "op_rel R (insert_capability c)" "op_rel R (insert_ceremony e)" "op_rel R (create_recovery new_id i now)"
  "op_rel R (delete_session th)" "op_rel R (session th now idle)" "op_rel R (rotate_session_csrf th csrf now idle)"
  unfolding insert_capability_def insert_ceremony_def create_recovery_def delete_session_def
    session_def rotate_session_csrf_def
  by (intro stmt_intros touch_session_rel, (simp add: recovery_row_new_def)?)+

lemma store_call_rel: "store_call f \<Longrightarrow> op_rel R f"
  by (induction rule: store_call.induct) (intro op_rel_void read_rels pool_rels tx_rels; assumption)+

end

end
