(* ===== verification/Pg_Invariants.thy ===== *)
theory Pg_Invariants
  imports Pg_Relations
begin

text \<open>
  Three relations every call of the store respects: the constraints of the schema are kept
  (\<open>db_wf\<close>), the database only evolves forward (\<open>db_evolves\<close>: rows are never deleted, what is
  consumed, revoked, approved or completed stays so, authentication epochs never decrease, the
  audit log is only appended to), and the network schedule is only used up.
\<close>

section \<open>Well-formed databases\<close>

definition users_wf :: "human_user list \<Rightarrow> bool" where
  "users_wf us \<longleftrightarrow> distinct (map ur_id us) \<and> distinct (map ur_webauthn_handle us)
     \<and> distinct (map ur_email us)
     \<and> (\<forall>u\<in>set us. ur_role u \<in> set role_names \<and> 0 < ur_auth_epoch u \<and> ur_auth_epoch u \<le> i64_max
          \<and> valid_opaque_id (ur_id u))"

definition credentials_wf :: "db \<Rightarrow> bool" where
  "credentials_wf d \<longleftrightarrow> distinct (map cr_id (db_credentials d))
     \<and> distinct (map cr_credential_id (db_credentials d))
     \<and> (\<forall>k\<in>set (db_credentials d). user_exists d (cr_user_id k))"

definition capabilities_wf :: "db \<Rightarrow> bool" where
  "capabilities_wf d \<longleftrightarrow> distinct (map ca_id (db_capabilities d))
     \<and> distinct (map ca_token_hash (db_capabilities d))
     \<and> (\<forall>c\<in>set (db_capabilities d). user_exists d (ca_user_id c)
          \<and> ca_purpose c \<in> set purpose_names \<and> length (ca_token_hash c) = 32)"

definition ceremonies_wf :: "db \<Rightarrow> bool" where
  "ceremonies_wf d \<longleftrightarrow> distinct (map ce_id (db_ceremonies d))
     \<and> (\<forall>e\<in>set (db_ceremonies d). opt_user_exists d (ce_user_id e) \<and> ce_kind e \<in> set kind_names
          \<and> (case ce_capability_hash e of None \<Rightarrow> True | Some h \<Rightarrow> length h = 32))"

definition sessions_wf :: "db \<Rightarrow> bool" where
  "sessions_wf d \<longleftrightarrow> distinct (map se_id (db_sessions d))
     \<and> distinct (map se_token_hash (db_sessions d))
     \<and> (\<forall>s\<in>set (db_sessions d). user_exists d (se_user_id s)
          \<and> length (se_token_hash s) = 32 \<and> length (se_csrf_hash s) = 32)"

definition recoveries_wf :: "db \<Rightarrow> bool" where
  "recoveries_wf d \<longleftrightarrow> distinct (map re_id (db_recoveries d))
     \<and> distinct (map re_user_id (filter recovery_pending (db_recoveries d)))
     \<and> (\<forall>q\<in>set (db_recoveries d). user_exists d (re_user_id q) \<and> opt_user_exists d (re_approved_by q)
          \<and> (re_setup_issued_at q \<noteq> None \<longrightarrow> re_approved_at q \<noteq> None)
          \<and> (re_completed_at q \<noteq> None \<longrightarrow> re_approved_at q \<noteq> None))"

definition audit_wf :: "db \<Rightarrow> bool" where
  "audit_wf d \<longleftrightarrow> (\<forall>a\<in>set (db_audit d). opt_user_exists d (au_actor_user_id a)
     \<and> opt_user_exists d (au_subject_user_id a))"

definition db_wf :: "db \<Rightarrow> bool" where
  "db_wf d \<longleftrightarrow> users_wf (db_users d) \<and> credentials_wf d \<and> capabilities_wf d \<and> ceremonies_wf d
     \<and> sessions_wf d \<and> recoveries_wf d \<and> audit_wf d"

lemmas table_wf_defs = users_wf_def credentials_wf_def capabilities_wf_def ceremonies_wf_def
  sessions_wf_def recoveries_wf_def audit_wf_def

lemma update_where_simps [simp]:
  "length (update_where P f xs) = length xs"
  "update_where P f [] = []"
  by (simp_all add: update_where_def)

lemma map_update_where:
  "(\<And>x. g (f x) = g x) \<Longrightarrow> map g (update_where P f xs) = map g xs"
  by (simp add: update_where_def comp_def if_distrib)

lemma set_update_where: "set (update_where P f xs) = (\<lambda>r. if P r then f r else r) ` set xs"
  by (simp add: update_where_def)

lemma update_where_ball:
  "(\<And>x. x \<in> set xs \<Longrightarrow> Q x) \<Longrightarrow> (\<And>x. Q x \<Longrightarrow> P x \<Longrightarrow> Q (f x)) \<Longrightarrow> y \<in> set (update_where P f xs) \<Longrightarrow> Q y"
  by (auto simp: update_where_def)

lemma user_exists_cong:
  "map ur_id (db_users d') = map ur_id (db_users d) \<Longrightarrow> user_exists d' i = user_exists d i"
  by (metis list.set_map user_exists_def)

lemma opt_user_exists_mono:
  "(\<And>i. user_exists d i \<Longrightarrow> user_exists d' i) \<Longrightarrow> opt_user_exists d i \<Longrightarrow> opt_user_exists d' i"
  by (auto simp: opt_user_exists_def split: option.splits)

text \<open>A statement on one table keeps the other tables well-formed, and new users disturb none.\<close>

lemma wf_ins_user:
  assumes "ins_user r d = Inr (x, d')" and "user_row_ok r" and "db_wf d"
  shows "db_wf d'"
proof -
  have d': "d' = d\<lparr>db_users := db_users d @ [r]\<rparr>" and fresh: "ur_id r \<notin> ur_id ` set (db_users d)"
      "ur_webauthn_handle r \<notin> ur_webauthn_handle ` set (db_users d)" "ur_email r \<notin> ur_email ` set (db_users d)"
      and ok: "ur_role r \<in> set role_names" "0 < ur_auth_epoch r"
    using assms(1) by (auto simp: ins_user_def split: if_splits)
  have mono: "user_exists d i \<Longrightarrow> user_exists d' i" for i by (auto simp: user_exists_def d')
  note opt = opt_user_exists_mono [OF mono]
  have "users_wf (db_users d')"
    using assms(2,3) fresh ok by (auto simp: db_wf_def users_wf_def d' user_row_ok_def epoch_ok_def)
  moreover have "credentials_wf d'" "capabilities_wf d'" "ceremonies_wf d'" "sessions_wf d'"
      "recoveries_wf d'" "audit_wf d'"
    using assms(3) mono opt by (simp_all add: db_wf_def table_wf_defs d')
  ultimately show ?thesis by (simp add: db_wf_def)
qed

text \<open>Changing one table other than the users leaves the references of the others in place.\<close>

lemma user_exists_frame [simp]:
  "user_exists (d\<lparr>db_credentials := ks\<rparr>) = user_exists d"
  "user_exists (d\<lparr>db_capabilities := cs\<rparr>) = user_exists d"
  "user_exists (d\<lparr>db_ceremonies := es\<rparr>) = user_exists d"
  "user_exists (d\<lparr>db_sessions := ss\<rparr>) = user_exists d"
  "user_exists (d\<lparr>db_recoveries := qs\<rparr>) = user_exists d"
  "user_exists (d\<lparr>db_audit := as\<rparr>) = user_exists d"
  by (simp_all add: user_exists_def fun_eq_iff)

lemma opt_user_exists_frame [simp]:
  "opt_user_exists (d\<lparr>db_credentials := ks\<rparr>) = opt_user_exists d"
  "opt_user_exists (d\<lparr>db_capabilities := cs\<rparr>) = opt_user_exists d"
  "opt_user_exists (d\<lparr>db_ceremonies := es\<rparr>) = opt_user_exists d"
  "opt_user_exists (d\<lparr>db_sessions := ss\<rparr>) = opt_user_exists d"
  "opt_user_exists (d\<lparr>db_recoveries := qs\<rparr>) = opt_user_exists d"
  "opt_user_exists (d\<lparr>db_audit := as\<rparr>) = opt_user_exists d"
  unfolding opt_user_exists_def by simp_all

lemma db_wf_frame:
  "db_wf d \<Longrightarrow> (credentials_wf d \<Longrightarrow> credentials_wf (d\<lparr>db_credentials := ks\<rparr>)) \<Longrightarrow> db_wf (d\<lparr>db_credentials := ks\<rparr>)"
  "db_wf d \<Longrightarrow> (capabilities_wf d \<Longrightarrow> capabilities_wf (d\<lparr>db_capabilities := cs\<rparr>)) \<Longrightarrow> db_wf (d\<lparr>db_capabilities := cs\<rparr>)"
  "db_wf d \<Longrightarrow> (ceremonies_wf d \<Longrightarrow> ceremonies_wf (d\<lparr>db_ceremonies := es\<rparr>)) \<Longrightarrow> db_wf (d\<lparr>db_ceremonies := es\<rparr>)"
  "db_wf d \<Longrightarrow> (sessions_wf d \<Longrightarrow> sessions_wf (d\<lparr>db_sessions := ss\<rparr>)) \<Longrightarrow> db_wf (d\<lparr>db_sessions := ss\<rparr>)"
  "db_wf d \<Longrightarrow> (recoveries_wf d \<Longrightarrow> recoveries_wf (d\<lparr>db_recoveries := qs\<rparr>)) \<Longrightarrow> db_wf (d\<lparr>db_recoveries := qs\<rparr>)"
  "db_wf d \<Longrightarrow> (audit_wf d \<Longrightarrow> audit_wf (d\<lparr>db_audit := as\<rparr>)) \<Longrightarrow> db_wf (d\<lparr>db_audit := as\<rparr>)"
  by (simp_all add: db_wf_def table_wf_defs)

lemma wf_ins_credential: "ins_credential k d = Inr (x, d') \<Longrightarrow> db_wf d \<Longrightarrow> db_wf d'"
  by (auto simp: ins_credential_def credentials_wf_def split: if_splits intro!: db_wf_frame(1))

lemma wf_ins_capability: "ins_capability c d = Inr (x, d') \<Longrightarrow> db_wf d \<Longrightarrow> db_wf d'"
  by (auto simp: ins_capability_def capabilities_wf_def split: if_splits intro!: db_wf_frame(2))

lemma wf_ins_ceremony: "ins_ceremony e d = Inr (x, d') \<Longrightarrow> db_wf d \<Longrightarrow> db_wf d'"
  by (auto simp: ins_ceremony_def ceremonies_wf_def split: if_splits option.splits intro!: db_wf_frame(3))

lemma wf_ins_session: "ins_session s d = Inr (x, d') \<Longrightarrow> db_wf d \<Longrightarrow> db_wf d'"
  by (auto simp: ins_session_def sessions_wf_def split: if_splits intro!: db_wf_frame(4))

lemma wf_ins_audit: "ins_audit a d = Inr (x, d') \<Longrightarrow> db_wf d \<Longrightarrow> db_wf d'"
  by (auto simp: ins_audit_def audit_wf_def split: if_splits intro!: db_wf_frame(6))

lemma wf_upd_credentials_used: "upd_credentials_used P data now d = Inr (x, d') \<Longrightarrow> db_wf d \<Longrightarrow> db_wf d'"
  by (auto simp: upd_credentials_used_def credentials_wf_def map_update_where set_update_where
      split: if_splits intro!: db_wf_frame(1))

lemma wf_upd_credentials_revoked: "upd_credentials_revoked P now d = Inr (x, d') \<Longrightarrow> db_wf d \<Longrightarrow> db_wf d'"
  by (auto simp: upd_credentials_revoked_def credentials_wf_def map_update_where set_update_where
      split: if_splits intro!: db_wf_frame(1))

lemma wf_upd_capabilities: "upd_capabilities_consumed P now d = Inr (x, d') \<Longrightarrow> db_wf d \<Longrightarrow> db_wf d'"
  by (auto simp: upd_capabilities_consumed_def capabilities_wf_def map_update_where set_update_where
      split: if_splits intro!: db_wf_frame(2))

lemma wf_upd_ceremonies: "upd_ceremonies_consumed P now d = Inr (x, d') \<Longrightarrow> db_wf d \<Longrightarrow> db_wf d'"
  by (auto simp: upd_ceremonies_consumed_def ceremonies_wf_def map_update_where set_update_where
      split: if_splits intro!: db_wf_frame(3))

lemma wf_upd_sessions: "upd_sessions_revoked P now d = Inr (x, d') \<Longrightarrow> db_wf d \<Longrightarrow> db_wf d'"
  by (auto simp: upd_sessions_revoked_def sessions_wf_def map_update_where set_update_where
      split: if_splits intro!: db_wf_frame(4))

lemma wf_upd_session_seen: "upd_session_seen sid csrf idle now d = Inr (x, d') \<Longrightarrow> db_wf d \<Longrightarrow> db_wf d'"
  by (cases csrf) (auto simp: upd_session_seen_def sessions_wf_def map_update_where set_update_where
      split: if_splits intro!: db_wf_frame(4))

lemma filter_update_where_pending:
  assumes "\<And>q. P q \<Longrightarrow> \<not> recovery_pending (f q)"
  shows "filter recovery_pending (update_where P f qs) = filter recovery_pending (filter (\<lambda>q. \<not> P q) qs)"
  using assms by (induction qs) (auto simp: update_where_def)

lemma distinct_filter_sub:
  "distinct (map g (filter Q xs)) \<Longrightarrow> distinct (map g (filter (\<lambda>x. R x \<and> Q x) xs))"
  by (induction xs) (auto split: if_splits)

lemma wf_ins_recovery:
  assumes "ins_recovery q d = Inr (x, d')" and "recovery_row_new q" and "db_wf d"
  shows "db_wf d'"
proof -
  from assms(2) have pending: "recovery_pending q" by (simp add: recovery_row_new_def recovery_pending_def)
  show ?thesis
    using assms pending
    by (auto simp: ins_recovery_def recoveries_wf_def recovery_row_new_def opt_user_exists_def
        split: if_splits intro!: db_wf_frame(5))
qed

lemma wf_recoveries_update:
  assumes "db_wf d" and "\<And>q. re_id (f q) = re_id q \<and> re_user_id (f q) = re_user_id q"
    and "\<And>q. P q \<Longrightarrow> \<not> recovery_pending (f q)"
    and "\<And>q. P q \<Longrightarrow> q \<in> set (db_recoveries d) \<Longrightarrow> opt_user_exists d (re_approved_by q) \<Longrightarrow>
      opt_user_exists d (re_approved_by (f q)) \<and> re_approved_at (f q) \<noteq> None"
  shows "db_wf (d\<lparr>db_recoveries := update_where P f (db_recoveries d)\<rparr>)"
  using assms
  by (auto simp: recoveries_wf_def map_update_where set_update_where filter_update_where_pending
      intro!: db_wf_frame(5) distinct_filter_sub)

lemma wf_upd_recoveries_approved:
  "upd_recoveries_approved P now operator d = Inr (x, d') \<Longrightarrow> db_wf d \<Longrightarrow> db_wf d'"
  by (auto simp: upd_recoveries_approved_def recovery_pending_def opt_user_exists_def list_ex_iff
      split: if_splits intro!: wf_recoveries_update)

lemma wf_upd_recoveries_issued:
  "upd_recoveries_issued P now d = Inr (x, d') \<Longrightarrow> (\<And>q. P q \<Longrightarrow> re_approved_at q \<noteq> None) \<Longrightarrow> db_wf d \<Longrightarrow> db_wf d'"
  by (fastforce simp: upd_recoveries_issued_def recovery_pending_def intro!: wf_recoveries_update)

lemma wf_upd_recoveries_completed:
  "upd_recoveries_completed P now d = Inr (x, d') \<Longrightarrow> (\<And>q. P q \<Longrightarrow> re_approved_at q \<noteq> None) \<Longrightarrow> db_wf d \<Longrightarrow> db_wf d'"
  by (auto simp: upd_recoveries_completed_def recovery_pending_def intro!: wf_recoveries_update)

lemma wf_upd_users_epoch:
  assumes "upd_users_epoch P now d = Inr (x, d')" and "db_wf d"
  shows "db_wf d'"
proof -
  let ?us = "update_where P (\<lambda>u. u\<lparr>ur_auth_epoch := ur_auth_epoch u + 1, hu_updated_at := now\<rparr>) (db_users d)"
  have d': "d' = d\<lparr>db_users := ?us\<rparr>" and room: "\<forall>u\<in>set (db_users d). P u \<longrightarrow> ur_auth_epoch u \<noteq> i64_max"
    using assms(1) by (auto simp: upd_users_epoch_def Let_def list_ex_iff split: if_splits)
  have "users_wf ?us"
    using assms(2) room by (fastforce simp: db_wf_def users_wf_def map_update_where set_update_where)
  moreover have ids: "map ur_id (db_users d') = map ur_id (db_users d)" by (simp add: d' map_update_where)
  have "user_exists d' = user_exists d" using user_exists_cong [OF ids] by blast
  moreover from this have "opt_user_exists d' = opt_user_exists d"
    unfolding opt_user_exists_def by simp
  ultimately show ?thesis using assms(2) by (simp add: db_wf_def table_wf_defs d')
qed

definition keeps_wf :: "pg \<Rightarrow> pg \<Rightarrow> bool" where
  "keeps_wf s s' \<longleftrightarrow> (db_wf (pg_db s) \<longrightarrow> db_wf (pg_db s'))"

lemma pg_db_round_trip [simp]: "pg_db (snd (round_trip s)) = pg_db s"
  by (simp add: round_trip_def split: list.split)

interpretation wf: store_relation keeps_wf
  by unfold_locales
    (auto simp: keeps_wf_def intro: wf_ins_user wf_ins_credential wf_ins_capability wf_ins_ceremony
      wf_ins_session wf_ins_recovery wf_ins_audit wf_upd_credentials_used wf_upd_credentials_revoked
      wf_upd_capabilities wf_upd_ceremonies wf_upd_sessions wf_upd_session_seen
      wf_upd_recoveries_approved wf_upd_recoveries_issued wf_upd_recoveries_completed wf_upd_users_epoch)

section \<open>The database only evolves forward\<close>

text \<open>The rows of a table stay in place and evolve, and new rows come after them.\<close>

definition grows :: "('r \<Rightarrow> 'r \<Rightarrow> bool) \<Rightarrow> 'r list \<Rightarrow> 'r list \<Rightarrow> bool" where
  "grows rel xs ys \<longleftrightarrow> list_all2 rel xs (take (length xs) ys)"

text \<open>A timestamp that is set stays what it is.\<close>

definition sticks :: "'a option \<Rightarrow> 'a option \<Rightarrow> bool" where
  "sticks x y \<longleftrightarrow> x = None \<or> y = x"

definition user_evolves :: "human_user \<Rightarrow> human_user \<Rightarrow> bool" where
  "user_evolves u v \<longleftrightarrow> ur_id v = ur_id u \<and> ur_webauthn_handle v = ur_webauthn_handle u
     \<and> ur_email v = ur_email u \<and> ur_display_name v = ur_display_name u
     \<and> ur_role v = ur_role u \<and> ur_enabled v = ur_enabled u
     \<and> hu_created_at v = hu_created_at u
     \<and> ur_auth_epoch u \<le> ur_auth_epoch v"

definition credential_evolves :: "passkey_credential \<Rightarrow> passkey_credential \<Rightarrow> bool" where
  "credential_evolves k l \<longleftrightarrow> cr_id l = cr_id k \<and> cr_user_id l = cr_user_id k
     \<and> cr_credential_id l = cr_credential_id k \<and> pk_created_at l = pk_created_at k
     \<and> sticks (cr_revoked_at k) (cr_revoked_at l)"

definition capability_evolves :: "auth_capability \<Rightarrow> auth_capability \<Rightarrow> bool" where
  "capability_evolves c e \<longleftrightarrow> ca_id e = ca_id c \<and> ca_user_id e = ca_user_id c
     \<and> ca_purpose e = ca_purpose c \<and> ca_token_hash e = ca_token_hash c
     \<and> ca_expires_at e = ca_expires_at c \<and> ca_created_at e = ca_created_at c
     \<and> sticks (ca_consumed_at c) (ca_consumed_at e)"

definition ceremony_evolves :: "auth_ceremony \<Rightarrow> auth_ceremony \<Rightarrow> bool" where
  "ceremony_evolves c e \<longleftrightarrow> ce_id e = ce_id c \<and> ce_kind e = ce_kind c
     \<and> ce_user_id e = ce_user_id c \<and> ce_capability_hash e = ce_capability_hash c
     \<and> ce_state e = ce_state c \<and> ce_expires_at e = ce_expires_at c
     \<and> ce_created_at e = ce_created_at c
     \<and> sticks (ce_consumed_at c) (ce_consumed_at e)"

definition session_evolves :: "auth_session \<Rightarrow> auth_session \<Rightarrow> bool" where
  "session_evolves s t \<longleftrightarrow> se_id t = se_id s \<and> se_user_id t = se_user_id s
     \<and> se_token_hash t = se_token_hash s \<and> se_auth_epoch t = se_auth_epoch s
     \<and> se_absolute_expires_at t = se_absolute_expires_at s \<and> se_created_at t = se_created_at s
     \<and> sticks (se_revoked_at s) (se_revoked_at t)"

definition recovery_evolves :: "recovery_request_row \<Rightarrow> recovery_request_row \<Rightarrow> bool" where
  "recovery_evolves q r \<longleftrightarrow> re_id r = re_id q \<and> re_user_id r = re_user_id q
     \<and> re_requested_at r = re_requested_at q
     \<and> sticks (re_approved_at q) (re_approved_at r) \<and> sticks (re_setup_issued_at q) (re_setup_issued_at r)
     \<and> sticks (re_completed_at q) (re_completed_at r)"

definition db_evolves :: "db \<Rightarrow> db \<Rightarrow> bool" where
  "db_evolves d d' \<longleftrightarrow>
     grows user_evolves (db_users d) (db_users d')
     \<and> grows credential_evolves (db_credentials d) (db_credentials d')
     \<and> grows capability_evolves (db_capabilities d) (db_capabilities d')
     \<and> grows ceremony_evolves (db_ceremonies d) (db_ceremonies d')
     \<and> grows session_evolves (db_sessions d) (db_sessions d')
     \<and> grows recovery_evolves (db_recoveries d) (db_recoveries d')
     \<and> prefix (db_audit d) (db_audit d')"

lemmas row_evolves_defs = user_evolves_def credential_evolves_def capability_evolves_def
  ceremony_evolves_def session_evolves_def recovery_evolves_def sticks_def

lemma grows_length: "grows rel xs ys \<Longrightarrow> length xs \<le> length ys"
  unfolding grows_def by (drule list_all2_lengthD) simp

lemma grows_iff_nth:
  "grows rel xs ys \<longleftrightarrow> length xs \<le> length ys \<and> (\<forall>i<length xs. rel (xs ! i) (ys ! i))"
  by (auto simp: grows_def list_all2_conv_all_nth min_def)

lemma grows_refl: "(\<And>x. rel x x) \<Longrightarrow> grows rel xs xs"
  by (simp add: grows_iff_nth)

lemma grows_trans:
  "(\<And>x y z. rel x y \<Longrightarrow> rel y z \<Longrightarrow> rel x z) \<Longrightarrow> grows rel xs ys \<Longrightarrow> grows rel ys zs \<Longrightarrow> grows rel xs zs"
  unfolding grows_iff_nth by (meson le_trans less_le_trans)

lemma grows_append: "(\<And>x. rel x x) \<Longrightarrow> grows rel xs (xs @ ys)"
  by (simp add: grows_iff_nth nth_append)

lemma grows_update_where:
  "(\<And>x. rel x x) \<Longrightarrow> (\<And>x. P x \<Longrightarrow> rel x (f x)) \<Longrightarrow> grows rel xs (update_where P f xs)"
  by (simp add: grows_iff_nth update_where_def)

lemma grows_member: "grows rel xs ys \<Longrightarrow> x \<in> set xs \<Longrightarrow> \<exists>y\<in>set ys. rel x y"
  unfolding grows_iff_nth by (metis in_set_conv_nth less_le_trans)

lemma evolves_refl [simp]:
  "user_evolves u u" "credential_evolves k k" "capability_evolves c c" "ceremony_evolves e e"
  "session_evolves s s" "recovery_evolves q q"
  by (simp_all add: row_evolves_defs)

lemma db_evolves_refl [simp]: "db_evolves d d"
  by (simp add: db_evolves_def grows_refl)

lemma evolves_trans:
  "user_evolves u1 u2 \<Longrightarrow> user_evolves u2 u3 \<Longrightarrow> user_evolves u1 u3"
  "credential_evolves k1 k2 \<Longrightarrow> credential_evolves k2 k3 \<Longrightarrow> credential_evolves k1 k3"
  "capability_evolves c1 c2 \<Longrightarrow> capability_evolves c2 c3 \<Longrightarrow> capability_evolves c1 c3"
  "ceremony_evolves e1 e2 \<Longrightarrow> ceremony_evolves e2 e3 \<Longrightarrow> ceremony_evolves e1 e3"
  "session_evolves s1 s2 \<Longrightarrow> session_evolves s2 s3 \<Longrightarrow> session_evolves s1 s3"
  "recovery_evolves q1 q2 \<Longrightarrow> recovery_evolves q2 q3 \<Longrightarrow> recovery_evolves q1 q3"
  by (auto simp: row_evolves_defs)

lemma user_table_trans:
  "grows user_evolves xs ys \<Longrightarrow> grows user_evolves ys zs \<Longrightarrow> grows user_evolves xs zs"
  by (rule grows_trans [of user_evolves]) (erule (1) evolves_trans(1))

lemma credential_table_trans:
  "grows credential_evolves xs ys \<Longrightarrow> grows credential_evolves ys zs \<Longrightarrow> grows credential_evolves xs zs"
  by (rule grows_trans [of credential_evolves]) (erule (1) evolves_trans(2))

lemma capability_table_trans:
  "grows capability_evolves xs ys \<Longrightarrow> grows capability_evolves ys zs \<Longrightarrow> grows capability_evolves xs zs"
  by (rule grows_trans [of capability_evolves]) (erule (1) evolves_trans(3))

lemma ceremony_table_trans:
  "grows ceremony_evolves xs ys \<Longrightarrow> grows ceremony_evolves ys zs \<Longrightarrow> grows ceremony_evolves xs zs"
  by (rule grows_trans [of ceremony_evolves]) (erule (1) evolves_trans(4))

lemma session_table_trans:
  "grows session_evolves xs ys \<Longrightarrow> grows session_evolves ys zs \<Longrightarrow> grows session_evolves xs zs"
  by (rule grows_trans [of session_evolves]) (erule (1) evolves_trans(5))

lemma recovery_table_trans:
  "grows recovery_evolves xs ys \<Longrightarrow> grows recovery_evolves ys zs \<Longrightarrow> grows recovery_evolves xs zs"
  by (rule grows_trans [of recovery_evolves]) (erule (1) evolves_trans(6))

lemma db_evolves_trans:
  assumes "db_evolves d e" and "db_evolves e f"
  shows "db_evolves d f"
  unfolding db_evolves_def
proof (intro conjI)
  note ev = assms [unfolded db_evolves_def]
  show "grows user_evolves (db_users d) (db_users f)" by (rule user_table_trans [of _ "db_users e"]) (simp_all add: ev)
  show "grows credential_evolves (db_credentials d) (db_credentials f)" by (rule credential_table_trans [of _ "db_credentials e"]) (simp_all add: ev)
  show "grows capability_evolves (db_capabilities d) (db_capabilities f)" by (rule capability_table_trans [of _ "db_capabilities e"]) (simp_all add: ev)
  show "grows ceremony_evolves (db_ceremonies d) (db_ceremonies f)" by (rule ceremony_table_trans [of _ "db_ceremonies e"]) (simp_all add: ev)
  show "grows session_evolves (db_sessions d) (db_sessions f)" by (rule session_table_trans [of _ "db_sessions e"]) (simp_all add: ev)
  show "grows recovery_evolves (db_recoveries d) (db_recoveries f)" by (rule recovery_table_trans [of _ "db_recoveries e"]) (simp_all add: ev)
  show "prefix (db_audit d) (db_audit f)" by (rule prefix_order.trans [of _ "db_audit e"]) (simp_all add: ev)
qed

lemmas stmt_defs = ins_user_def ins_credential_def ins_capability_def ins_ceremony_def ins_session_def
  ins_recovery_def ins_audit_def upd_users_epoch_def upd_credentials_used_def upd_credentials_revoked_def
  upd_capabilities_consumed_def upd_ceremonies_consumed_def upd_sessions_revoked_def upd_session_seen_def
  upd_recoveries_approved_def upd_recoveries_issued_def upd_recoveries_completed_def

definition keeps_history :: "pg \<Rightarrow> pg \<Rightarrow> bool" where
  "keeps_history s s' \<longleftrightarrow> db_evolves (pg_db s) (pg_db s')"

lemma db_evolves_frame:
  "db_evolves d (d\<lparr>db_users := us\<rparr>) = grows user_evolves (db_users d) us"
  "db_evolves d (d\<lparr>db_credentials := ks\<rparr>) = grows credential_evolves (db_credentials d) ks"
  "db_evolves d (d\<lparr>db_capabilities := cs\<rparr>) = grows capability_evolves (db_capabilities d) cs"
  "db_evolves d (d\<lparr>db_ceremonies := es\<rparr>) = grows ceremony_evolves (db_ceremonies d) es"
  "db_evolves d (d\<lparr>db_sessions := ss\<rparr>) = grows session_evolves (db_sessions d) ss"
  "db_evolves d (d\<lparr>db_recoveries := qs\<rparr>) = grows recovery_evolves (db_recoveries d) qs"
  "db_evolves d (d\<lparr>db_audit := as\<rparr>) = prefix (db_audit d) as"
  by (simp_all add: db_evolves_def grows_refl)

interpretation history: store_relation keeps_history
  by unfold_locales
    (auto simp: keeps_history_def stmt_defs db_evolves_frame Let_def row_evolves_defs recovery_pending_def
      split: if_splits option.splits
      intro: db_evolves_trans intro!: grows_append grows_update_where)

section \<open>The network schedule is used up\<close>

definition net_shrinks :: "pg \<Rightarrow> pg \<Rightarrow> bool" where
  "net_shrinks s s' \<longleftrightarrow> suffix (pg_net s') (pg_net s)"

interpretation net: store_relation net_shrinks
  by unfold_locales
    (auto simp: net_shrinks_def round_trip_def suffix_ConsI split: list.split intro: suffix_order.trans)

text \<open>Clock and driver stay what they are.\<close>

definition env_same :: "pg \<Rightarrow> pg \<Rightarrow> bool" where
  "env_same s s' \<longleftrightarrow> pg_clock s' = pg_clock s \<and> pg_int4_as_i64 s' = pg_int4_as_i64 s"

interpretation env: store_relation env_same
  by unfold_locales (auto simp: env_same_def round_trip_def split: list.split)

end
