(* ===== verification/Pg_Facts.thy ===== *)
theory Pg_Facts
  imports Pg_Invariants
begin

text \<open>
  The behaviour of the store: names of enumerations, decoding on well-formed databases, runs of
  calls, atomicity of failing calls, one-time use of ceremonies and capabilities, sessions and
  their invalidation, the operator bootstrap and the rotation of all epochs.
\<close>

section \<open>Decoding\<close>

lemma parse_role_iff: "parse_role s = Inr r \<longleftrightarrow> s = role_name r"
  by (cases r) (auto simp: parse_role_def)

lemma parse_purpose_iff: "parse_purpose s = Inr p \<longleftrightarrow> s = purpose_name p"
  by (cases p) (auto simp: parse_purpose_def)

lemma parse_ceremony_kind_iff: "parse_ceremony_kind s = Inr k \<longleftrightarrow> s = ceremony_name k"
  by (cases k) (auto simp: parse_ceremony_kind_def)

lemma decode_user_id_ok: "valid_opaque_id i \<Longrightarrow> decode_user_id i = Inr (UserId i)"
  by (simp add: decode_user_id_def UserId_new_def)

text \<open>The user a well-formed row stands for.\<close>

definition user_of_row :: "human_user \<Rightarrow> user" where
  "user_of_row r = \<lparr>u_id = UserId (ur_id r), u_webauthn_handle = ur_webauthn_handle r, u_email = ur_email r,
     u_display_name = ur_display_name r, u_role = (if ur_role r = ''operator'' then Operator else User),
     u_enabled = ur_enabled r, u_auth_epoch = ur_auth_epoch r\<rparr>"

lemma User_try_from_wf:
  assumes "db_wf d" and "r \<in> set (db_users d)"
  shows "User_try_from r = Inr (user_of_row r)"
proof -
  from assms have "valid_opaque_id (ur_id r)" and "ur_role r \<in> set role_names"
    by (auto simp: db_wf_def users_wf_def)
  then show ?thesis
    by (auto simp: User_try_from_def decode_user_id_ok user_of_row_def parse_role_def role_names_def)
qed

lemma role_of_user_of_row:
  "db_wf d \<Longrightarrow> r \<in> set (db_users d) \<Longrightarrow> role_name (u_role (user_of_row r)) = ur_role r"
  by (auto simp: user_of_row_def db_wf_def users_wf_def role_names_def)

section \<open>Statements that are served\<close>

lemma round_trip_served: "pg_net s = [] \<Longrightarrow> round_trip s = (Served, s)"
  by (simp add: round_trip_def)

lemma round_trip_db: "round_trip s = (o1, t) \<Longrightarrow> pg_db t = pg_db s"
  using pg_db_round_trip [of s] by simp

lemma exec_tx_Inr:
  "exec_tx st s = (Inr x, s') \<longleftrightarrow>
     (\<exists>t d. round_trip s = (Served, t) \<and> st (pg_db s) = Inr (x, d) \<and> s' = t\<lparr>pg_db := d\<rparr>)"
proof -
  obtain o1 t where rt: "round_trip s = (o1, t)" by fastforce
  then have "pg_db t = pg_db s" by (rule round_trip_db)
  with rt show ?thesis
    by (cases o1; cases "st (pg_db s)") (auto simp: exec_tx_def run_stmt_def)
qed

lemma exec_tx_Inl: "exec_tx st s = (Inl e, s') \<Longrightarrow> pg_db s' = pg_db s"
  by (auto simp: exec_tx_def run_stmt_def split: prod.splits outcome.splits sum.splits dest: round_trip_db)

lemma exec_pool_Inr:
  "exec_pool st s = (Inr x, s') \<longleftrightarrow>
     (\<exists>t d. round_trip s = (Served, t) \<and> st (pg_db s) = Inr (x, d) \<and> s' = t\<lparr>pg_db := d\<rparr>)"
proof -
  obtain o1 t where rt: "round_trip s = (o1, t)" by fastforce
  then have "pg_db t = pg_db s" by (rule round_trip_db)
  with rt show ?thesis
    by (cases o1; cases "st (pg_db s)") (auto simp: exec_pool_def run_stmt_def)
qed

lemma transaction_Inr:
  "transaction body s = (Inr x, s') \<longleftrightarrow>
     (\<exists>t u. round_trip s = (Served, t) \<and> body t = (Inr x, u) \<and> round_trip u = (Served, s'))"
  by (auto simp: transaction_def split: prod.splits outcome.splits sum.splits)

lemma transaction_db:
  assumes "transaction body s = (Inr x, s')"
  obtains t u where "pg_db t = pg_db s" and "body t = (Inr x, u)" and "pg_db s' = pg_db u"
  using assms pg_db_round_trip unfolding transaction_Inr by (metis snd_conv)

section \<open>Failing calls leave the database alone\<close>

definition fails_clean :: "(pg, 'e, 'a) op \<Rightarrow> bool" where
  "fails_clean f \<longleftrightarrow> (\<forall>s e s'. f s = (Inl e, s') \<longrightarrow> Answer_lost \<notin> set (pg_net s) \<longrightarrow>
     db_wf (pg_db s) \<longrightarrow> pg_db s' = pg_db s)"

lemma fails_cleanD:
  "fails_clean f \<Longrightarrow> f s = (Inl e, s') \<Longrightarrow> Answer_lost \<notin> set (pg_net s) \<Longrightarrow> db_wf (pg_db s) \<Longrightarrow> pg_db s' = pg_db s"
  by (auto simp: fails_clean_def)

lemma round_trip_lost:
  "Answer_lost \<notin> set (pg_net s) \<Longrightarrow> round_trip s = (o1, t) \<Longrightarrow> o1 \<noteq> Answer_lost \<and> Answer_lost \<notin> set (pg_net t)"
  by (auto simp: round_trip_def split: list.splits)

lemma fails_clean_exec_pool: "fails_clean (exec_pool st)"
  unfolding fails_clean_def
proof (intro allI impI)
  fix s e s' assume run: "exec_pool st s = (Inl e, s')" and lost: "Answer_lost \<notin> set (pg_net s)"
  obtain o1 t where rt: "round_trip s = (o1, t)" by fastforce
  then have "pg_db t = pg_db s" by (rule round_trip_db)
  with rt run round_trip_lost [OF lost rt] show "pg_db s' = pg_db s"
    by (cases o1; cases "st (pg_db s)") (auto simp: exec_pool_def run_stmt_def)
qed

lemma fails_clean_transaction:
  assumes "op_rel net_shrinks body"
  shows "fails_clean (transaction body)"
  unfolding fails_clean_def
proof (intro allI impI)
  fix s e s' assume run: "transaction body s = (Inl e, s')" and lost: "Answer_lost \<notin> set (pg_net s)"
  obtain o1 s1 where s1: "round_trip s = (o1, s1)" by fastforce
  obtain r2 s2 where s2: "body s1 = (r2, s2)" by fastforce
  obtain o3 s3 where s3: "round_trip s2 = (o3, s3)" by fastforce
  have "Answer_lost \<notin> set (pg_net s2)"
    using round_trip_lost [OF lost s1] op_relD [OF assms s2] set_mono_suffix by (auto simp: net_shrinks_def)
  from round_trip_lost [OF this s3] run s1 s2 s3 pg_db_round_trip [of s]
  show "pg_db s' = pg_db s"
    by (auto simp: transaction_def split: outcome.splits sum.splits)
qed

lemma fails_clean_map_err: "fails_clean m \<Longrightarrow> fails_clean (op_map_err h m)"
  by (auto simp: fails_clean_def op_map_err_Inl)

lemma fails_clean_store_err: "fails_clean m \<Longrightarrow> fails_clean (store_err m)"
  by (simp add: store_err_def fails_clean_map_err)

lemma fails_clean_void: "fails_clean m \<Longrightarrow> fails_clean (op_void m)"
  by (auto simp: fails_clean_def op_void_def map_ok_def split: prod.splits sum.splits)

lemma fails_clean_now: "(\<And>t. fails_clean (f t)) \<Longrightarrow> fails_clean (op_bind db_now f)"
  by (auto simp: fails_clean_def op_bind_def db_now_def)

lemma fails_clean_bind_return: "fails_clean m \<Longrightarrow> fails_clean (op_bind m (\<lambda>x. op_return (f x)))"
  by (auto simp: fails_clean_def op_bind_Inl op_return_eq)

lemma fails_clean_read: "fails_clean (op_then (store_err (exec_pool (select f))) g)"
proof -
  have "pg_db s' = pg_db s" if "exec_pool (select f) s = (r, s')" for s r s'
    using that by (auto simp: exec_pool_def select_def run_stmt_def split: prod.splits outcome.splits
        dest: round_trip_db)
  then show ?thesis
    by (auto simp: fails_clean_def op_then_Inl store_err_def op_map_err_Inl op_map_err_Inr)
qed

lemma fails_clean_operator_exists: "fails_clean operator_exists"
  unfolding operator_exists_def by (intro fails_clean_store_err fails_clean_exec_pool)

subsection \<open>Sessions found\<close>

lemma limit_1_Some: "limit_1 xs = Some x \<Longrightarrow> x \<in> set xs"
  by (auto simp: limit_1_def split: list.splits)

lemma limit_1_None: "limit_1 xs = None \<longleftrightarrow> xs = []"
  by (auto simp: limit_1_def split: list.splits)

lemma live_session_Some:
  assumes "live_session h now d = Some (s, u)"
  shows "s \<in> set (db_sessions d)" and "u \<in> set (db_users d)" and "se_token_hash s = as_bytes h"
    and "session_live now s u"
  using limit_1_Some [OF assms [unfolded live_session_def]] by auto

lemma live_session_None:
  "live_session h now d = None \<longleftrightarrow>
     \<not> (\<exists>s\<in>set (db_sessions d). \<exists>u\<in>set (db_users d). se_token_hash s = as_bytes h \<and> session_live now s u)"
  by (auto simp: live_session_def limit_1_None)

lemma touch_session_row:
  assumes "touch_session h csrf now idle s = (Inr row, s')"
  shows "row = live_session h now (pg_db s)"
proof -
  obtain t u where db: "pg_db t = pg_db s" and body: "op_bind (store_err (exec_tx (select (live_session h now))))
      (\<lambda>row. case row of None \<Rightarrow> op_return None
        | Some (s, u) \<Rightarrow> op_bind (store_err (exec_tx (upd_session_seen (se_id s) (map_option as_bytes csrf)
            (min idle (se_absolute_expires_at s)) now))) (\<lambda>_. op_return (Some (s, u)))) t = (Inr row, u)"
    using assms unfolding touch_session_def by (rule transaction_db)
  from body obtain x v where x: "exec_tx (select (live_session h now)) t = (Inr x, v)"
    and "row = x"
    by (auto simp: op_bind_Inr store_err_def op_map_err_Inr op_return_eq split: option.splits prod.splits)
      (metis not_Some_eq surj_pair)
  moreover from x have "x = live_session h now (pg_db s)"
    by (auto simp: exec_tx_Inr select_def db)
  ultimately show ?thesis by simp
qed

lemma fails_clean_touch_session: "fails_clean (touch_session h csrf now idle)"
  unfolding touch_session_def by (intro fails_clean_transaction net.part_intros)

text \<open>Decoding the row of a live session never fails on a well-formed database.\<close>

lemma fails_clean_session_then:
  assumes "\<And>d s u. db_wf d \<Longrightarrow> s \<in> set (db_sessions d) \<Longrightarrow> u \<in> set (db_users d) \<Longrightarrow> is_ok (f (Some (s, u)))"
    and "is_ok (f None)"
  shows "fails_clean (op_then (touch_session h csrf now idle) f)"
  unfolding fails_clean_def
proof (intro allI impI)
  fix s e s'
  assume run: "op_then (touch_session h csrf now idle) f s = (Inl e, s')"
    and lost: "Answer_lost \<notin> set (pg_net s)" and wf: "db_wf (pg_db s)"
  from run consider "touch_session h csrf now idle s = (Inl e, s')"
    | row where "touch_session h csrf now idle s = (Inr row, s')" and "f row = Inl e"
    by (auto simp: op_then_Inl)
  then show "pg_db s' = pg_db s"
  proof cases
    case 1
    from fails_clean_touch_session this lost wf show ?thesis by (rule fails_cleanD)
  next
    case (2 row)
    have "is_ok (f row)"
    proof (cases row)
      case (Some x)
      obtain n u where x: "x = (n, u)" by (cases x)
      with Some touch_session_row [OF 2(1)] have "live_session h now (pg_db s) = Some (n, u)" by simp
      from assms(1) [OF wf live_session_Some(1,2) [OF this]] show ?thesis by (simp add: Some x)
    qed (simp add: assms(2))
    with 2(2) show ?thesis by simp
  qed
qed

lemma fails_clean_session: "fails_clean (session h now idle)"
  unfolding session_def
  by (rule fails_clean_session_then)
    (auto simp: User_try_from_wf SecretHash_from_slice_def db_wf_def sessions_wf_def)

lemma fails_clean_rotate_session_csrf: "fails_clean (rotate_session_csrf h csrf now idle)"
  unfolding rotate_session_csrf_def by (rule fails_clean_session_then) (simp_all add: User_try_from_wf)

lemma store_call_fails_clean: "store_call f \<Longrightarrow> fails_clean f"
proof (induction rule: store_call.induct)
  case (call_complete_registration new_id cid oh credential now audit)
  show ?case unfolding complete_registration_def
    by (intro fails_clean_void fails_clean_transaction net.part_intros)
next
  case (call_complete_authentication cid v n now audit)
  show ?case unfolding complete_authentication_def
    by (intro fails_clean_void fails_clean_transaction net.part_intros) simp
next
  case (call_approve_recovery rid operator_id now)
  show ?case unfolding approve_recovery_def
    by (intro fails_clean_void fails_clean_transaction net.part_intros) (simp add: recovery_pending_def)
next
  case (call_issue_recovery_setup rid c operator_id now)
  show ?case unfolding issue_recovery_setup_def
    by (intro fails_clean_void fails_clean_transaction net.part_intros) simp
next
  case (call_break_glass kid c now reason)
  show ?case unfolding break_glass_def
    by (intro fails_clean_void fails_clean_transaction net.part_intros) simp
qed ((unfold user_by_id_def user_by_handle_def credentials_for_user_def operator_without_credential_def
      operator_recovery_window_def capability_def ceremony_def pending_recoveries_def
      insert_capability_def insert_ceremony_def create_recovery_def delete_session_def
      insert_user_def approve_user_with_setup_def rotate_all_auth_epochs_def)?,
    intro fails_clean_void fails_clean_read fails_clean_operator_exists fails_clean_now fails_clean_store_err
      fails_clean_bind_return fails_clean_map_err fails_clean_exec_pool fails_clean_session
      fails_clean_rotate_session_csrf fails_clean_transaction net.part_intros; assumption)+

section \<open>Runs\<close>

text \<open>
  The store between two moments: calls in any order, whatever they return, and in between the
  clock moves and the network changes as it likes.
\<close>

inductive store_step :: "pg \<Rightarrow> pg \<Rightarrow> bool" where
  step_call: "store_call f \<Longrightarrow> f s = (r, s') \<Longrightarrow> store_step s s'"
| step_world: "store_step s (s\<lparr>pg_clock := t, pg_net := n\<rparr>)"

definition store_run :: "pg \<Rightarrow> pg \<Rightarrow> bool" where
  "store_run = store_step\<^sup>*\<^sup>*"

lemma store_step_keeps: "store_step s s' \<Longrightarrow> keeps_wf s s' \<and> keeps_history s s'"
proof (induction rule: store_step.induct)
  case (step_call f s r s')
  from wf.store_call_rel [OF step_call(1)] history.store_call_rel [OF step_call(1)] step_call(2)
  show ?case by (blast dest: op_relD)
qed (simp add: keeps_wf_def keeps_history_def)

lemma store_run_keeps:
  assumes "store_run s s'"
  shows "db_wf (pg_db s) \<Longrightarrow> db_wf (pg_db s')" and "db_evolves (pg_db s) (pg_db s')"
proof -
  from assms [unfolded store_run_def] have "keeps_wf s s' \<and> keeps_history s s'"
  proof (induction rule: rtranclp_induct)
    case base
    show ?case by (simp add: wf.refl history.refl)
  next
    case (step y z)
    with store_step_keeps [OF step.hyps(2)] show ?case by (blast intro: wf.trans history.trans)
  qed
  then show "db_wf (pg_db s) \<Longrightarrow> db_wf (pg_db s')" and "db_evolves (pg_db s) (pg_db s')"
    by (simp_all add: keeps_wf_def keeps_history_def)
qed

lemma store_run_call: "store_call f \<Longrightarrow> f s = (r, s') \<Longrightarrow> store_run s s'"
  unfolding store_run_def by (blast intro: step_call)

lemma store_run_refl [simp]: "store_run s s"
  by (simp add: store_run_def)

lemma store_run_trans: "store_run s t \<Longrightarrow> store_run t u \<Longrightarrow> store_run s u"
  unfolding store_run_def by (rule rtranclp_trans)

text \<open>What a run leaves of a row.\<close>

lemma run_ceremony:
  "store_run s s' \<Longrightarrow> e \<in> set (db_ceremonies (pg_db s)) \<Longrightarrow> \<exists>e'\<in>set (db_ceremonies (pg_db s')). ceremony_evolves e e'"
  using store_run_keeps(2) [of s s'] by (auto simp: db_evolves_def dest: grows_member)

lemma run_capability:
  "store_run s s' \<Longrightarrow> c \<in> set (db_capabilities (pg_db s)) \<Longrightarrow> \<exists>c'\<in>set (db_capabilities (pg_db s')). capability_evolves c c'"
  using store_run_keeps(2) [of s s'] by (auto simp: db_evolves_def dest: grows_member)

lemma run_session:
  "store_run s s' \<Longrightarrow> n \<in> set (db_sessions (pg_db s)) \<Longrightarrow> \<exists>n'\<in>set (db_sessions (pg_db s')). session_evolves n n'"
  using store_run_keeps(2) [of s s'] by (auto simp: db_evolves_def dest: grows_member)

lemma run_user:
  "store_run s s' \<Longrightarrow> u \<in> set (db_users (pg_db s)) \<Longrightarrow> \<exists>u'\<in>set (db_users (pg_db s')). user_evolves u u'"
  using store_run_keeps(2) [of s s'] by (auto simp: db_evolves_def dest: grows_member)

lemma run_credential:
  "store_run s s' \<Longrightarrow> k \<in> set (db_credentials (pg_db s)) \<Longrightarrow> \<exists>k'\<in>set (db_credentials (pg_db s')). credential_evolves k k'"
  using store_run_keeps(2) [of s s'] by (auto simp: db_evolves_def dest: grows_member)

section \<open>What successful calls did\<close>

lemma exec_tx_db: "exec_tx st s = (Inr x, s') \<Longrightarrow> st (pg_db s) = Inr (x, pg_db s')"
  by (auto simp: exec_tx_Inr)

lemma store_err_exec_db: "store_err (exec_tx st) s = (Inr x, s') \<Longrightarrow> st (pg_db s) = Inr (x, pg_db s')"
  by (auto simp: store_err_def op_map_err_Inr dest: exec_tx_db)

lemma store_err_pool_db: "store_err (exec_pool st) s = (Inr x, s') \<Longrightarrow> st (pg_db s) = Inr (x, pg_db s')"
  by (auto simp: store_err_def op_map_err_Inr exec_pool_Inr)

lemma insert_audit_db:
  "insert_audit event now s = (Inr x, s') \<Longrightarrow>
     pg_db s' = (pg_db s)\<lparr>db_audit := db_audit (pg_db s) @ [audit_to_row event now]\<rparr>"
  unfolding insert_audit_def by (drule store_err_exec_db) (auto simp: ins_audit_def split: if_splits)

definition ceremony_open :: "uuid \<Rightarrow> time \<Rightarrow> auth_ceremony \<Rightarrow> bool" where
  "ceremony_open i now e \<longleftrightarrow> ce_id e = i \<and> ce_consumed_at e = None \<and> ce_expires_at e > now"

definition capability_open :: "secret_hash \<Rightarrow> time \<Rightarrow> auth_capability \<Rightarrow> bool" where
  "capability_open h now c \<longleftrightarrow> ca_token_hash c = as_bytes h \<and> ca_consumed_at c = None \<and> ca_expires_at c > now"

lemma filter_Cons_mem: "filter P xs = x # ys \<Longrightarrow> x \<in> set xs \<and> P x"
  by (auto simp: filter_eq_Cons_iff)

lemma consume_ceremony_db:
  assumes "consume_ceremony i now s = (Inr (u, k), s')"
  obtains e where "e \<in> set (db_ceremonies (pg_db s))" and "ceremony_open i now e"
    and "ce_user_id e = Some u" and "ce_kind e = k"
    and "pg_db s' = (pg_db s)\<lparr>db_ceremonies := update_where (ceremony_open i now)
      (\<lambda>e. e\<lparr>ce_consumed_at := Some now\<rparr>) (db_ceremonies (pg_db s))\<rparr>"
proof -
  have "ceremony_open i now = (\<lambda>c. ce_id c = i \<and> ce_consumed_at c = None \<and> now < ce_expires_at c)"
    by (auto simp: ceremony_open_def)
  with assms obtain rows t where
      "store_err (exec_tx (upd_ceremonies_consumed (ceremony_open i now) now)) s = (Inr rows, t)"
    and sel: "(case rows of [] \<Rightarrow> op_fail InvalidState
      | c # _ \<Rightarrow> (case ce_user_id c of None \<Rightarrow> op_fail Store | Some u \<Rightarrow> op_return (u, ce_kind c))) t = (Inr (u, k), s')"
    unfolding consume_ceremony_def by (auto simp: op_bind_Inr)
  then have rows: "rows = filter (ceremony_open i now) (db_ceremonies (pg_db s))"
    and db: "pg_db t = (pg_db s)\<lparr>db_ceremonies := update_where (ceremony_open i now)
      (\<lambda>e. e\<lparr>ce_consumed_at := Some now\<rparr>) (db_ceremonies (pg_db s))\<rparr>"
    by (auto dest!: store_err_exec_db simp: upd_ceremonies_consumed_def)
  from sel obtain e es where e: "rows = e # es" and "ce_user_id e = Some u" and "ce_kind e = k" and "s' = t"
    by (auto simp: op_return_eq op_fail_eq split: list.splits option.splits)
  moreover from e rows have "e \<in> set (db_ceremonies (pg_db s))" and "ceremony_open i now e"
    using filter_Cons_mem by metis+
  ultimately show ?thesis using that db by blast
qed

lemma check_bootstrap_db:
  assumes "check_bootstrap k s = (Inr x, s')"
  shows "pg_db s' = pg_db s" and "k = ''operator_bootstrap'' \<Longrightarrow> operator_credentials (pg_db s) = []"
  using assms unfolding check_bootstrap_def
  by (auto simp: op_bind_Inr op_return_eq op_fail_eq select_def split: if_splits dest!: store_err_exec_db)

lemma consume_capability_db:
  assumes "consume_capability oh now s = (Inr x, s')"
  shows "case oh of None \<Rightarrow> pg_db s' = pg_db s
    | Some h \<Rightarrow> (\<exists>c\<in>set (db_capabilities (pg_db s)). capability_open h now c)
        \<and> pg_db s' = (pg_db s)\<lparr>db_capabilities := update_where (capability_open h now)
            (\<lambda>c. c\<lparr>ca_consumed_at := Some now\<rparr>) (db_capabilities (pg_db s))\<rparr>"
proof (cases oh)
  case None
  with assms show ?thesis by (simp add: consume_capability_def op_return_eq)
next
  case (Some h)
  have "capability_open h now = (\<lambda>c. ca_token_hash c = as_bytes h \<and> ca_consumed_at c = None \<and> now < ca_expires_at c)"
    by (auto simp: capability_open_def)
  with assms Some have one: "length (filter (capability_open h now) (db_capabilities (pg_db s))) = 1"
    and db: "pg_db s' = (pg_db s)\<lparr>db_capabilities := update_where (capability_open h now)
            (\<lambda>c. c\<lparr>ca_consumed_at := Some now\<rparr>) (db_capabilities (pg_db s))\<rparr>"
    unfolding consume_capability_def
    by (auto simp: op_bind_Inr op_return_eq op_fail_eq upd_capabilities_consumed_def
        split: if_splits dest!: store_err_exec_db)
  from one have "filter (capability_open h now) (db_capabilities (pg_db s)) \<noteq> []" by auto
  with db Some show ?thesis by (auto simp: filter_empty_conv)
qed

lemma insert_credential_db:
  "insert_credential new_id u credential now s = (Inr x, s') \<Longrightarrow>
     pg_db s' = (pg_db s)\<lparr>db_credentials := db_credentials (pg_db s) @
       [\<lparr>cr_id = new_id, cr_user_id = u, cr_credential_id = vc_credential_id credential,
         cr_public_data = vc_public_data credential, cr_revoked_at = None,
         pk_created_at = now, pk_last_used_at = None\<rparr>]\<rparr>"
  by (auto simp: insert_credential_def op_map_err_Inr ins_credential_def split: if_splits dest!: exec_tx_db)

lemma complete_recoveries_db:
  assumes "complete_recoveries subject now s = (Inr x, s')"
  obtains qs where "pg_db s' = (pg_db s)\<lparr>db_recoveries := qs\<rparr>"
proof -
  from assms obtain y P where "store_err (exec_tx (upd_recoveries_completed P now)) s = (Inr y, s')"
    by (auto simp: complete_recoveries_def op_void_Inr)
  then have "upd_recoveries_completed P now (pg_db s) = Inr (y, pg_db s')" by (rule store_err_exec_db)
  then have "pg_db s' = (pg_db s)\<lparr>db_recoveries :=
      update_where P (\<lambda>r. r\<lparr>re_completed_at := Some now\<rparr>) (db_recoveries (pg_db s))\<rparr>"
    by (simp add: upd_recoveries_completed_def)
  then show ?thesis by (rule that)
qed

text \<open>The tables after a completed registration.\<close>

lemma complete_registration_db:
  assumes "complete_registration new_id i oh credential now audit s = (Inr (), s')"
  obtains e u where "e \<in> set (db_ceremonies (pg_db s))" and "ceremony_open i now e" and "ce_user_id e = Some u"
    and "ce_kind e = ''operator_bootstrap'' \<Longrightarrow> operator_credentials (pg_db s) = []"
    and "db_ceremonies (pg_db s') = update_where (ceremony_open i now)
      (\<lambda>e. e\<lparr>ce_consumed_at := Some now\<rparr>) (db_ceremonies (pg_db s))"
    and "case oh of None \<Rightarrow> db_capabilities (pg_db s') = db_capabilities (pg_db s)
      | Some h \<Rightarrow> (\<exists>c\<in>set (db_capabilities (pg_db s)). capability_open h now c)
          \<and> db_capabilities (pg_db s') = update_where (capability_open h now)
              (\<lambda>c. c\<lparr>ca_consumed_at := Some now\<rparr>) (db_capabilities (pg_db s))"
    and "db_credentials (pg_db s') = db_credentials (pg_db s) @
      [\<lparr>cr_id = new_id, cr_user_id = u, cr_credential_id = vc_credential_id credential,
        cr_public_data = vc_public_data credential, cr_revoked_at = None,
        pk_created_at = now, pk_last_used_at = None\<rparr>]"
    and "db_users (pg_db s') = db_users (pg_db s)" and "db_sessions (pg_db s') = db_sessions (pg_db s)"
    and "db_audit (pg_db s') = db_audit (pg_db s) @ [audit_to_row audit now]"
proof -
  from assms [unfolded complete_registration_def]
  obtain t z t1 u k t2 t3 t4 t5 t6 where t: "pg_db t = pg_db s" and z: "pg_db s' = pg_db z"
    and s1: "store_err (exec_tx (select (\<lambda>_. ()))) t = (Inr (), t1)"
    and s2: "consume_ceremony i now t1 = (Inr (u, k), t2)"
    and s3: "check_bootstrap k t2 = (Inr (), t3)"
    and s4: "consume_capability oh now t3 = (Inr (), t4)"
    and s5: "insert_credential new_id u credential now t4 = (Inr (), t5)"
    and s6: "complete_recoveries (ae_subject_user_id audit) now t5 = (Inr (), t6)"
    and s7: "insert_audit audit now t6 = (Inr (), z)"
    by (auto elim!: transaction_db op_bindE split: prod.splits)
  from store_err_exec_db [OF s1] t have d1: "pg_db t1 = pg_db s" by (simp add: select_def)
  obtain e where e: "e \<in> set (db_ceremonies (pg_db s))" "ceremony_open i now e" "ce_user_id e = Some u" "ce_kind e = k"
    and d2: "pg_db t2 = (pg_db s)\<lparr>db_ceremonies := update_where (ceremony_open i now)
      (\<lambda>e. e\<lparr>ce_consumed_at := Some now\<rparr>) (db_ceremonies (pg_db s))\<rparr>"
    using consume_ceremony_db [OF s2] unfolding d1 by blast
  obtain qs where d6: "pg_db t6 = (pg_db t5)\<lparr>db_recoveries := qs\<rparr>" using s6 by (rule complete_recoveries_db)
  note rest = check_bootstrap_db(1) [OF s3] consume_capability_db [OF s4] insert_credential_db [OF s5] d6
    insert_audit_db [OF s7]
  have boot: "operator_credentials (pg_db s) = []" if "ce_kind e = ''operator_bootstrap''"
    using check_bootstrap_db(2) [OF s3] that e(4) by (simp add: operator_credentials_def d2)
  show ?thesis
    by (rule that [OF e(1-3) boot]) (use rest in \<open>auto simp: z d2 split: option.splits\<close>)
qed

lemma complete_authentication_db:
  assumes "complete_authentication i v n now audit s = (Inr (), s')"
  obtains e where "e \<in> set (db_ceremonies (pg_db s))" and "ceremony_open i now e" and "ce_kind e = ''authentication''"
    and "\<exists>k\<in>set (db_credentials (pg_db s)). cr_user_id k = user_str (sr_user_id n)
      \<and> cr_credential_id k = av_credential_id v \<and> cr_revoked_at k = None"
    and "db_ceremonies (pg_db s') = update_where (\<lambda>e. ceremony_open i now e \<and> ce_kind e = ''authentication'')
      (\<lambda>e. e\<lparr>ce_consumed_at := Some now\<rparr>) (db_ceremonies (pg_db s))"
    and "db_sessions (pg_db s') = db_sessions (pg_db s) @ [session_to_row n now]"
    and "db_users (pg_db s') = db_users (pg_db s)"
    and "db_audit (pg_db s') = db_audit (pg_db s) @ [audit_to_row audit now]"
    and "hash_ok (sr_csrf_hash n)"
proof -
  let ?P = "\<lambda>e. ceremony_open i now e \<and> ce_kind e = ''authentication''"
  let ?Q = "\<lambda>k. cr_user_id k = user_str (sr_user_id n) \<and> cr_credential_id k = av_credential_id v \<and> cr_revoked_at k = None"
  have P: "(\<lambda>c. ce_id c = i \<and> ce_kind c = ''authentication'' \<and> ce_consumed_at c = None \<and> now < ce_expires_at c) = ?P"
    by (auto simp: ceremony_open_def)
  from assms [unfolded complete_authentication_def P]
  obtain t z rows t1 creds t2 t3 where t: "pg_db t = pg_db s" and z: "pg_db s' = pg_db z"
    and s1: "store_err (exec_tx (upd_ceremonies_consumed ?P now)) t = (Inr rows, t1)" and one: "length rows = 1"
    and s2: "store_err (exec_tx (upd_credentials_used ?Q (av_updated_public_data v) now)) t1 = (Inr creds, t2)"
    and two: "length creds = 1"
    and s3: "store_err (exec_tx (ins_session (session_to_row n now))) t2 = (Inr (), t3)"
    and s4: "insert_audit audit now t3 = (Inr (), z)"
    by (auto elim!: transaction_db op_bindE simp: op_fail_eq split: if_splits)
  have rows: "rows = filter ?P (db_ceremonies (pg_db s))" and d1: "pg_db t1 = (pg_db s)\<lparr>db_ceremonies :=
      update_where ?P (\<lambda>e. e\<lparr>ce_consumed_at := Some now\<rparr>) (db_ceremonies (pg_db s))\<rparr>"
    using store_err_exec_db [OF s1] t by (simp_all add: upd_ceremonies_consumed_def)
  have creds: "creds = filter ?Q (db_credentials (pg_db s))" and d2: "pg_db t2 = (pg_db t1)\<lparr>db_credentials :=
      update_where ?Q (\<lambda>c. c\<lparr>cr_public_data := av_updated_public_data v, pk_last_used_at := Some now\<rparr>)
        (db_credentials (pg_db t1))\<rparr>"
    using store_err_exec_db [OF s2] by (simp_all add: upd_credentials_used_def d1 split: if_splits)
  have d3: "pg_db t3 = (pg_db t2)\<lparr>db_sessions := db_sessions (pg_db t2) @ [session_to_row n now]\<rparr>"
    and hash: "hash_ok (sr_csrf_hash n)"
    using store_err_exec_db [OF s3] by (auto simp: ins_session_def hash_ok_def session_to_row_def split: if_splits)
  from one obtain e es where "filter ?P (db_ceremonies (pg_db s)) = e # es" unfolding rows by (cases "filter ?P (db_ceremonies (pg_db s))") auto
  then have e: "e \<in> set (db_ceremonies (pg_db s))" "ceremony_open i now e" "ce_kind e = ''authentication''"
    using filter_Cons_mem [of ?P "db_ceremonies (pg_db s)" e es] by auto
  from two have "filter ?Q (db_credentials (pg_db s)) \<noteq> []" unfolding creds by auto
  then have k: "\<exists>k\<in>set (db_credentials (pg_db s)). ?Q k" by (auto simp: filter_empty_conv)
  show ?thesis
    by (rule that [OF e k]) (use insert_audit_db [OF s4] hash in \<open>simp_all add: z d3 d2 d1\<close>)
qed

section \<open>One-time use\<close>

text \<open>A ceremony or capability that is consumed is never open again.\<close>

lemma distinct_map_eq: "distinct (map f xs) \<Longrightarrow> x \<in> set xs \<Longrightarrow> y \<in> set xs \<Longrightarrow> f x = f y \<Longrightarrow> x = y"
  by (simp add: distinct_map inj_on_def)

lemma consumed_ceremony_stays:
  assumes "store_run s s'" and "db_wf (pg_db s)"
    and "e \<in> set (db_ceremonies (pg_db s))" and "ce_consumed_at e \<noteq> None"
    and "e' \<in> set (db_ceremonies (pg_db s'))" and "ce_id e' = ce_id e"
  shows "ce_consumed_at e' \<noteq> None"
proof -
  obtain f where f: "f \<in> set (db_ceremonies (pg_db s'))" "ceremony_evolves e f"
    using run_ceremony [OF assms(1,3)] by blast
  have "distinct (map ce_id (db_ceremonies (pg_db s')))"
    using store_run_keeps(1) [OF assms(1,2)] by (simp add: db_wf_def ceremonies_wf_def)
  then have "f = e'"
    by (rule distinct_map_eq [OF _ f(1) assms(5)]) (use f(2) assms(6) in \<open>simp add: ceremony_evolves_def\<close>)
  with f(2) assms(4) show ?thesis by (auto simp: ceremony_evolves_def sticks_def)
qed

lemma consumed_capability_stays:
  assumes "store_run s s'" and "db_wf (pg_db s)"
    and "c \<in> set (db_capabilities (pg_db s))" and "ca_consumed_at c \<noteq> None"
    and "c' \<in> set (db_capabilities (pg_db s'))" and "ca_token_hash c' = ca_token_hash c"
  shows "ca_consumed_at c' \<noteq> None"
proof -
  obtain f where f: "f \<in> set (db_capabilities (pg_db s'))" "capability_evolves c f"
    using run_capability [OF assms(1,3)] by blast
  have "distinct (map ca_token_hash (db_capabilities (pg_db s')))"
    using store_run_keeps(1) [OF assms(1,2)] by (simp add: db_wf_def capabilities_wf_def)
  then have "f = c'"
    by (rule distinct_map_eq [OF _ f(1) assms(5)]) (use f(2) assms(6) in \<open>simp add: capability_evolves_def\<close>)
  with f(2) assms(4) show ?thesis by (auto simp: capability_evolves_def sticks_def)
qed

lemma update_where_image: "e \<in> set xs \<Longrightarrow> P e \<Longrightarrow> f e \<in> set (update_where P f xs)"
  by (auto simp: set_update_where)

text \<open>The ceremony a successful completion used is consumed afterwards.\<close>

definition ceremony_used :: "uuid \<Rightarrow> db \<Rightarrow> bool" where
  "ceremony_used i d \<longleftrightarrow> (\<exists>e\<in>set (db_ceremonies d). ce_id e = i \<and> ce_consumed_at e \<noteq> None)"

lemma complete_registration_uses:
  assumes "complete_registration new_id i oh credential now audit s = (Inr (), s')"
  shows "ceremony_used i (pg_db s')"
proof -
  obtain e where e: "e \<in> set (db_ceremonies (pg_db s))" "ceremony_open i now e"
    and "db_ceremonies (pg_db s') = update_where (ceremony_open i now)
      (\<lambda>e. e\<lparr>ce_consumed_at := Some now\<rparr>) (db_ceremonies (pg_db s))"
    using assms by (rule complete_registration_db)
  then have "e\<lparr>ce_consumed_at := Some now\<rparr> \<in> set (db_ceremonies (pg_db s'))" by (simp add: update_where_image)
  with e(2) show ?thesis unfolding ceremony_used_def
    by (intro bexI [of _ "e\<lparr>ce_consumed_at := Some now\<rparr>"]) (simp_all add: ceremony_open_def)
qed

lemma complete_authentication_uses:
  assumes "complete_authentication i v n now audit s = (Inr (), s')"
  shows "ceremony_used i (pg_db s')"
proof -
  let ?P = "\<lambda>e. ceremony_open i now e \<and> ce_kind e = ''authentication''"
  obtain e where e: "e \<in> set (db_ceremonies (pg_db s))" "ceremony_open i now e" "ce_kind e = ''authentication''"
    and "db_ceremonies (pg_db s') = update_where ?P (\<lambda>e. e\<lparr>ce_consumed_at := Some now\<rparr>) (db_ceremonies (pg_db s))"
    using assms by (rule complete_authentication_db)
  then have "e\<lparr>ce_consumed_at := Some now\<rparr> \<in> set (db_ceremonies (pg_db s'))"
    by (auto simp: set_update_where intro!: image_eqI [of _ _ e])
  with e(2) show ?thesis unfolding ceremony_used_def
    by (intro bexI [of _ "e\<lparr>ce_consumed_at := Some now\<rparr>"]) (simp_all add: ceremony_open_def)
qed

lemma ceremony_used_closed:
  assumes "ceremony_used i (pg_db s)" and "db_wf (pg_db s)" and "store_run s s'"
  shows "\<not> (\<exists>e\<in>set (db_ceremonies (pg_db s')). ceremony_open i now e)"
  using assms consumed_ceremony_stays [OF assms(3,2)] by (auto simp: ceremony_used_def ceremony_open_def)

end
