(* ===== verification/Pg_Cutoff.thy ===== *)
theory Pg_Cutoff
  imports Pg_Facts
begin

text \<open>
  Invalidation: approving a recovery, break glass and the rotation of all epochs end every session,
  ceremony and capability of the users they are about, for good.
\<close>

section \<open>Cutting off the authority of users\<close>

text \<open>
  \<open>cut_off I anon d d1\<close>: from \<open>d\<close> to \<open>d1\<close> the users selected by \<open>I\<close> moved to a later epoch, and
  their sessions, ceremonies and capabilities are revoked or consumed; with \<open>anon\<close> also the
  ceremonies that belong to no user yet.
\<close>

definition ceremony_of :: "(string \<Rightarrow> bool) \<Rightarrow> bool \<Rightarrow> auth_ceremony \<Rightarrow> bool" where
  "ceremony_of I anon e \<longleftrightarrow> (case ce_user_id e of None \<Rightarrow> anon | Some i \<Rightarrow> I i)"

definition cut_off :: "(string \<Rightarrow> bool) \<Rightarrow> bool \<Rightarrow> db \<Rightarrow> db \<Rightarrow> bool" where
  "cut_off I anon d d1 \<longleftrightarrow>
     (\<forall>u\<in>set (db_users d). I (ur_id u) \<longrightarrow>
        (\<exists>v\<in>set (db_users d1). ur_id v = ur_id u \<and> ur_auth_epoch u < ur_auth_epoch v))
     \<and> (\<forall>n\<in>set (db_sessions d). I (se_user_id n) \<longrightarrow>
        (\<exists>m\<in>set (db_sessions d1). se_id m = se_id n \<and> se_revoked_at m \<noteq> None))
     \<and> (\<forall>e\<in>set (db_ceremonies d). ceremony_of I anon e \<longrightarrow>
        (\<exists>f\<in>set (db_ceremonies d1). ce_id f = ce_id e \<and> ce_consumed_at f \<noteq> None))
     \<and> (\<forall>c\<in>set (db_capabilities d). I (ca_user_id c) \<longrightarrow>
        (\<exists>b\<in>set (db_capabilities d1). ca_token_hash b = ca_token_hash c \<and> ca_consumed_at b \<noteq> None))"

text \<open>
  \<open>authority_gone I anon d d2\<close>: nothing that gave the selected users access in \<open>d\<close> does so in \<open>d2\<close>.
  A session that is live there is a new one, of a later epoch.
\<close>

definition authority_gone :: "(string \<Rightarrow> bool) \<Rightarrow> bool \<Rightarrow> db \<Rightarrow> db \<Rightarrow> bool" where
  "authority_gone I anon d d2 \<longleftrightarrow>
     (\<forall>h now n u. live_session h now d2 = Some (n, u) \<and> I (se_user_id n) \<longrightarrow>
        se_id n \<notin> se_id ` set (db_sessions d)
        \<and> (\<forall>v\<in>set (db_users d). ur_id v = se_user_id n \<longrightarrow> ur_auth_epoch v < se_auth_epoch n))
     \<and> (\<forall>e\<in>set (db_ceremonies d). ceremony_of I anon e \<longrightarrow>
        (\<forall>f\<in>set (db_ceremonies d2). ce_id f = ce_id e \<longrightarrow> ce_consumed_at f \<noteq> None))
     \<and> (\<forall>c\<in>set (db_capabilities d). I (ca_user_id c) \<longrightarrow>
        (\<forall>b\<in>set (db_capabilities d2). ca_token_hash b = ca_token_hash c \<longrightarrow> ca_consumed_at b \<noteq> None))"

lemma revoked_session_stays:
  assumes "store_run s s'" and "db_wf (pg_db s)"
    and "n \<in> set (db_sessions (pg_db s))" and "se_revoked_at n \<noteq> None"
    and "n' \<in> set (db_sessions (pg_db s'))" and "se_id n' = se_id n"
  shows "se_revoked_at n' \<noteq> None"
proof -
  obtain f where f: "f \<in> set (db_sessions (pg_db s'))" "session_evolves n f"
    using run_session [OF assms(1,3)] by blast
  have "distinct (map se_id (db_sessions (pg_db s')))"
    using store_run_keeps(1) [OF assms(1,2)] by (simp add: db_wf_def sessions_wf_def)
  then have "f = n'"
    by (rule distinct_map_eq [OF _ f(1) assms(5)]) (use f(2) assms(6) in \<open>simp add: session_evolves_def\<close>)
  with f(2) assms(4) show ?thesis by (auto simp: session_evolves_def sticks_def)
qed

lemma epoch_never_decreases:
  assumes "store_run s s'" and "db_wf (pg_db s)"
    and "u \<in> set (db_users (pg_db s))" and "u' \<in> set (db_users (pg_db s'))" and "ur_id u' = ur_id u"
  shows "user_evolves u u'"
proof -
  obtain f where f: "f \<in> set (db_users (pg_db s'))" "user_evolves u f"
    using run_user [OF assms(1,3)] by blast
  have "distinct (map ur_id (db_users (pg_db s')))"
    using store_run_keeps(1) [OF assms(1,2)] by (simp add: db_wf_def users_wf_def)
  then have "f = u'"
    by (rule distinct_map_eq [OF _ f(1) assms(4)]) (use f(2) assms(5) in \<open>simp add: user_evolves_def\<close>)
  with f(2) show ?thesis by simp
qed

lemma same_session_evolves:
  assumes "store_run s s'" and "db_wf (pg_db s)" and "n \<in> set (db_sessions (pg_db s))"
    and "n' \<in> set (db_sessions (pg_db s'))" and "se_id n' = se_id n"
  shows "session_evolves n n'"
proof -
  obtain f where f: "f \<in> set (db_sessions (pg_db s'))" "session_evolves n f"
    using run_session [OF assms(1,3)] by blast
  have "distinct (map se_id (db_sessions (pg_db s')))"
    using store_run_keeps(1) [OF assms(1,2)] by (simp add: db_wf_def sessions_wf_def)
  then have "f = n'"
    by (rule distinct_map_eq [OF _ f(1) assms(4)]) (use f(2) assms(5) in \<open>simp add: session_evolves_def\<close>)
  with f(2) show ?thesis by simp
qed

lemma cut_off_sessions:
  assumes cut: "cut_off I anon (pg_db s0) (pg_db s)" and wf: "db_wf (pg_db s0)"
    and run: "store_run s0 s" "store_run s s'"
    and live: "live_session h now (pg_db s') = Some (n, u)" and I: "I (se_user_id n)"
  shows "se_id n \<notin> se_id ` set (db_sessions (pg_db s0))"
    and "v \<in> set (db_users (pg_db s0)) \<Longrightarrow> ur_id v = se_user_id n \<Longrightarrow> ur_auth_epoch v < se_auth_epoch n"
proof -
  have wfs: "db_wf (pg_db s)" using store_run_keeps(1) [OF run(1) wf] .
  have all: "store_run s0 s'" using run by (rule store_run_trans)
  note l = live_session_Some [OF live]
  show "se_id n \<notin> se_id ` set (db_sessions (pg_db s0))"
  proof
    assume "se_id n \<in> se_id ` set (db_sessions (pg_db s0))"
    then obtain m where m: "m \<in> set (db_sessions (pg_db s0))" "se_id n = se_id m" by auto
    then have "I (se_user_id m)"
      using same_session_evolves [OF all wf m(1) l(1) m(2)] I by (simp add: session_evolves_def)
    with cut m obtain k where k: "k \<in> set (db_sessions (pg_db s))" "se_id k = se_id m" "se_revoked_at k \<noteq> None"
      by (auto simp: cut_off_def)
    from revoked_session_stays [OF run(2) wfs k(1,3) l(1)] k(2) m(2) l(4) show False
      by (simp add: session_live_def)
  qed
  show "ur_auth_epoch v < se_auth_epoch n" if v: "v \<in> set (db_users (pg_db s0))" "ur_id v = se_user_id n"
  proof -
    from cut v I obtain w where w: "w \<in> set (db_users (pg_db s))" "ur_id w = ur_id v" "ur_auth_epoch v < ur_auth_epoch w"
      by (auto simp: cut_off_def)
    have "ur_id u = ur_id w" and "ur_auth_epoch u = se_auth_epoch n" using l(4) v w by (auto simp: session_live_def)
    with epoch_never_decreases [OF run(2) wfs w(1) l(2)] w(3) show ?thesis by (simp add: user_evolves_def)
  qed
qed

lemma cut_off_run:
  assumes cut: "cut_off I anon (pg_db s0) (pg_db s)" and wf: "db_wf (pg_db s0)"
    and run: "store_run s0 s" "store_run s s'"
  shows "authority_gone I anon (pg_db s0) (pg_db s')"
proof -
  have wfs: "db_wf (pg_db s)" using store_run_keeps(1) [OF run(1) wf] .
  have "ce_consumed_at f \<noteq> None" if "e \<in> set (db_ceremonies (pg_db s0))" "ceremony_of I anon e"
      "f \<in> set (db_ceremonies (pg_db s'))" "ce_id f = ce_id e" for e f
  proof -
    from cut that obtain g where "g \<in> set (db_ceremonies (pg_db s))" "ce_id g = ce_id e" "ce_consumed_at g \<noteq> None"
      by (auto simp: cut_off_def)
    with consumed_ceremony_stays [OF run(2) wfs, of g f] that show ?thesis by simp
  qed
  moreover have "ca_consumed_at b \<noteq> None" if "c \<in> set (db_capabilities (pg_db s0))" "I (ca_user_id c)"
      "b \<in> set (db_capabilities (pg_db s'))" "ca_token_hash b = ca_token_hash c" for c b
  proof -
    from cut that obtain g where "g \<in> set (db_capabilities (pg_db s))" "ca_token_hash g = ca_token_hash c"
        "ca_consumed_at g \<noteq> None"
      by (auto simp: cut_off_def)
    with consumed_capability_stays [OF run(2) wfs, of g b] that show ?thesis by simp
  qed
  ultimately show ?thesis
    unfolding authority_gone_def using cut_off_sessions [OF cut wf run] by blast
qed

text \<open>Setting a timestamp on the rows where it is missing leaves none of the selected rows without.\<close>

lemma update_where_sets:
  assumes "\<And>x. g (f x) \<noteq> None" and "\<And>x. key (f x) = key x" and "x \<in> set xs" and "Q x"
  shows "\<exists>y\<in>set (update_where (\<lambda>x. Q x \<and> g x = None) f xs). key y = key x \<and> g y \<noteq> None"
proof (cases "g x = None")
  case True
  then have "f x \<in> set (update_where (\<lambda>x. Q x \<and> g x = None) f xs)" using assms(3,4) by (simp add: update_where_image)
  then show ?thesis using assms(1,2) by blast
next
  case False
  then have "x \<in> set (update_where (\<lambda>x. Q x \<and> g x = None) f xs)"
    using assms(3) by (auto simp: set_update_where intro!: image_eqI [of _ _ x])
  with False show ?thesis by blast
qed

definition cut_tables :: "(string \<Rightarrow> bool) \<Rightarrow> bool \<Rightarrow> time \<Rightarrow> db \<Rightarrow> db" where
  "cut_tables I anon now d = d\<lparr>
     db_users := update_where (\<lambda>u. I (ur_id u))
       (\<lambda>u. u\<lparr>ur_auth_epoch := ur_auth_epoch u + 1, hu_updated_at := now\<rparr>) (db_users d),
     db_sessions := update_where (\<lambda>n. I (se_user_id n) \<and> se_revoked_at n = None)
       (\<lambda>n. n\<lparr>se_revoked_at := Some now\<rparr>) (db_sessions d),
     db_ceremonies := update_where (\<lambda>e. ceremony_of I anon e \<and> ce_consumed_at e = None)
       (\<lambda>e. e\<lparr>ce_consumed_at := Some now\<rparr>) (db_ceremonies d),
     db_capabilities := update_where (\<lambda>c. I (ca_user_id c) \<and> ca_consumed_at c = None)
       (\<lambda>c. c\<lparr>ca_consumed_at := Some now\<rparr>) (db_capabilities d)\<rparr>"

lemma cut_tables_cut_off: "cut_off I anon d (cut_tables I anon now d)"
  unfolding cut_off_def
proof (intro conjI ballI impI)
  fix u assume "u \<in> set (db_users d)" and "I (ur_id u)"
  then show "\<exists>v\<in>set (db_users (cut_tables I anon now d)). ur_id v = ur_id u \<and> ur_auth_epoch u < ur_auth_epoch v"
    by (intro bexI [of _ "u\<lparr>ur_auth_epoch := ur_auth_epoch u + 1, hu_updated_at := now\<rparr>"])
      (auto simp: cut_tables_def set_update_where intro!: image_eqI [of _ _ u])
qed (simp_all add: cut_tables_def update_where_sets update_where_sets [where Q = "\<lambda>n. I (se_user_id n)"]
    update_where_sets [where Q = "\<lambda>c. I (ca_user_id c)"] del: not_None_eq)

section \<open>The calls that cut off\<close>

lemma sessions_revoked_db:
  "store_err (exec_tx (upd_sessions_revoked P now)) s = (Inr x, s') \<Longrightarrow>
     pg_db s' = (pg_db s)\<lparr>db_sessions := update_where P (\<lambda>n. n\<lparr>se_revoked_at := Some now\<rparr>) (db_sessions (pg_db s))\<rparr>"
  by (drule store_err_exec_db) (simp add: upd_sessions_revoked_def)

lemma ceremonies_consumed_db:
  "store_err (exec_tx (upd_ceremonies_consumed P now)) s = (Inr x, s') \<Longrightarrow>
     pg_db s' = (pg_db s)\<lparr>db_ceremonies := update_where P (\<lambda>e. e\<lparr>ce_consumed_at := Some now\<rparr>) (db_ceremonies (pg_db s))\<rparr>"
  by (drule store_err_exec_db) (simp add: upd_ceremonies_consumed_def)

lemma capabilities_consumed_db:
  "store_err (exec_tx (upd_capabilities_consumed P now)) s = (Inr x, s') \<Longrightarrow>
     pg_db s' = (pg_db s)\<lparr>db_capabilities := update_where P (\<lambda>c. c\<lparr>ca_consumed_at := Some now\<rparr>) (db_capabilities (pg_db s))\<rparr>"
  by (drule store_err_exec_db) (simp add: upd_capabilities_consumed_def)

lemma invalidate_user_auth_db:
  assumes "invalidate_user_auth i now s = (Inr (), s')"
  shows "pg_db s' = cut_tables (\<lambda>j. j = i) False now (pg_db s)"
proof -
  have cer: "(\<lambda>c. ce_user_id c = Some i \<and> ce_consumed_at c = None)
      = (\<lambda>c. ceremony_of (\<lambda>j. j = i) False c \<and> ce_consumed_at c = None)"
    by (auto simp: ceremony_of_def split: option.splits)
  from assms [unfolded invalidate_user_auth_def] obtain x1 x2 x3 x4 t1 t2 t3 where
      s1: "store_err (exec_tx (upd_users_epoch (\<lambda>u. ur_id u = i) now)) s = (Inr x1, t1)"
    and s2: "store_err (exec_tx (upd_sessions_revoked (\<lambda>n. se_user_id n = i \<and> se_revoked_at n = None) now)) t1 = (Inr x2, t2)"
    and s3: "store_err (exec_tx (upd_ceremonies_consumed (\<lambda>c. ce_user_id c = Some i \<and> ce_consumed_at c = None) now)) t2 = (Inr x3, t3)"
    and s4: "store_err (exec_tx (upd_capabilities_consumed (\<lambda>c. ca_user_id c = i \<and> ca_consumed_at c = None) now)) t3 = (Inr x4, s')"
    by (auto elim!: op_bindE simp: op_void_Inr)
  have "pg_db t1 = (pg_db s)\<lparr>db_users := update_where (\<lambda>u. ur_id u = i)
      (\<lambda>u. u\<lparr>ur_auth_epoch := ur_auth_epoch u + 1, hu_updated_at := now\<rparr>) (db_users (pg_db s))\<rparr>"
    using store_err_exec_db [OF s1] by (simp add: upd_users_epoch_def Let_def split: if_splits)
  with sessions_revoked_db [OF s2] ceremonies_consumed_db [OF s3 [unfolded cer]] capabilities_consumed_db [OF s4]
  show ?thesis by (simp add: cut_tables_def)
qed

lemma approve_recovery_db:
  assumes "approve_recovery rid operator_id now s = (Inr (), s')"
  obtains q qs a where "q \<in> set (db_recoveries (pg_db s))" and "re_id q = rid" and "recovery_pending q"
    and "qs = update_where (\<lambda>r. re_id r = rid \<and> recovery_pending r)
      (\<lambda>r. r\<lparr>re_approved_at := Some now, re_approved_by := Some (user_str operator_id)\<rparr>) (db_recoveries (pg_db s))"
    and "pg_db s' = (cut_tables (\<lambda>j. j = re_user_id q) False now ((pg_db s)\<lparr>db_recoveries := qs\<rparr>))
      \<lparr>db_audit := db_audit (pg_db s) @ [a]\<rparr>"
    and "au_event_type a = ''recovery.approved''"
proof -
  let ?P = "\<lambda>r. re_id r = rid \<and> recovery_pending r"
  have P: "(\<lambda>r. re_id r = rid \<and> re_approved_at r = None \<and> re_completed_at r = None) = ?P"
    by (auto simp: recovery_pending_def)
  let ?qs = "update_where ?P (\<lambda>r. r\<lparr>re_approved_at := Some now, re_approved_by := Some (user_str operator_id)\<rparr>)
    (db_recoveries (pg_db s))"
  from assms [unfolded approve_recovery_def P] obtain t z rows t1 where t: "pg_db t = pg_db s" and z: "pg_db s' = pg_db z"
    and s1: "store_err (exec_tx (upd_recoveries_approved ?P now (user_str operator_id))) t = (Inr rows, t1)"
    and s2: "(case rows of [] \<Rightarrow> op_fail Conflict
      | r # _ \<Rightarrow> op_bind (invalidate_user_auth (re_user_id r) now) (\<lambda>_.
          op_bind (op_lift (decode_user_id (re_user_id r))) (\<lambda>subject.
            insert_audit \<lparr>ae_event_type = ''recovery.approved'', ae_actor_user_id = Some operator_id,
              ae_subject_user_id = Some subject,
              ae_data = JObject [(''recovery_id'', JString (uuid_str rid))]\<rparr> now))) t1 = (Inr (), z)"
    by (auto elim!: transaction_db op_bindE)
  have rows: "rows = filter ?P (db_recoveries (pg_db s))" and d1: "pg_db t1 = (pg_db s)\<lparr>db_recoveries := ?qs\<rparr>"
    using store_err_exec_db [OF s1] t by (simp_all add: upd_recoveries_approved_def split: if_splits)
  from s2 obtain q rs t2 event where q: "rows = q # rs" and s3: "invalidate_user_auth (re_user_id q) now t1 = (Inr (), t2)"
    and s4: "insert_audit event now t2 = (Inr (), z)" and ev: "ae_event_type event = ''recovery.approved''"
    by (cases rows) (auto elim!: op_bindE simp: op_fail_eq op_lift_eq)
  have "q \<in> set (db_recoveries (pg_db s))" and "?P q"
    using q rows filter_Cons_mem [of ?P "db_recoveries (pg_db s)" q rs] by auto
  moreover have "pg_db s' = (cut_tables (\<lambda>j. j = re_user_id q) False now ((pg_db s)\<lparr>db_recoveries := ?qs\<rparr>))
      \<lparr>db_audit := db_audit (pg_db s) @ [audit_to_row event now]\<rparr>"
    using insert_audit_db [OF s4] invalidate_user_auth_db [OF s3] by (simp add: z d1 cut_tables_def)
  ultimately show ?thesis
    using ev by (intro that [of q ?qs "audit_to_row event now"]) (simp_all add: audit_to_row_def)
qed

lemma insert_capability_tx_db:
  assumes "insert_capability_tx c s = (Inr (), s')"
  shows "pg_db s' = (pg_db s)\<lparr>db_capabilities := db_capabilities (pg_db s) @ [capability_to_row c (pg_clock s)]\<rparr>"
  using assms unfolding insert_capability_tx_def
  by (auto elim!: op_bindE simp: db_now_def ins_capability_def split: if_splits dest!: store_err_exec_db)

lemma break_glass_db:
  assumes "break_glass kid c now reason s = (Inr (), s')"
  obtains k d1 a clock where "k \<in> set (db_credentials (pg_db s))" and "cr_id k = kid" and "cr_revoked_at k = None"
    and "user_str (cp_user_id c) = cr_user_id k"
    and "\<exists>u\<in>set (db_users (pg_db s)). ur_id u = cr_user_id k \<and> ur_role u = ''operator''"
    and "d1 = cut_tables (\<lambda>j. j = cr_user_id k) False now ((pg_db s)\<lparr>db_credentials := update_where
        (\<lambda>k. cr_id k = kid \<and> list_ex (\<lambda>u. ur_id u = cr_user_id k \<and> ur_role u = ''operator'') (db_users (pg_db s))
          \<and> cr_revoked_at k = None) (\<lambda>k. k\<lparr>cr_revoked_at := Some now\<rparr>) (db_credentials (pg_db s))\<rparr>)"
    and "pg_db s' = d1\<lparr>db_capabilities := db_capabilities d1 @ [capability_to_row c clock],
      db_audit := db_audit (pg_db s) @ [a]\<rparr>"
    and "au_event_type a = ''operator.break_glass_opened''"
proof -
  let ?P = "\<lambda>k. cr_id k = kid \<and> list_ex (\<lambda>u. ur_id u = cr_user_id k \<and> ur_role u = ''operator'') (db_users (pg_db s))
    \<and> cr_revoked_at k = None"
  let ?d0 = "(pg_db s)\<lparr>db_credentials := update_where ?P (\<lambda>k. k\<lparr>cr_revoked_at := Some now\<rparr>) (db_credentials (pg_db s))\<rparr>"
  let ?event = "\<lparr>ae_event_type = ''operator.break_glass_opened'', ae_actor_user_id = None,
    ae_subject_user_id = Some (cp_user_id c),
    ae_data = JObject [(''credential_id'', JString (uuid_str kid)), (''reason'', JString reason)]\<rparr>"
  from assms [unfolded break_glass_def] obtain t z rows t1 where t: "pg_db t = pg_db s" and z: "pg_db s' = pg_db z"
    and s1: "store_err (exec_tx (\<lambda>d. upd_credentials_revoked (\<lambda>k. cr_id k = kid
        \<and> list_ex (\<lambda>u. ur_id u = cr_user_id k \<and> ur_role u = ''operator'') (db_users d)
        \<and> cr_revoked_at k = None) now d)) t = (Inr rows, t1)"
    and s2: "(case rows of [] \<Rightarrow> op_fail Conflict
      | k # _ \<Rightarrow> if user_str (cp_user_id c) \<noteq> cr_user_id k then op_fail Forbidden
          else op_bind (invalidate_user_auth (cr_user_id k) now) (\<lambda>_.
               op_bind (insert_capability_tx c) (\<lambda>_. insert_audit ?event now))) t1 = (Inr (), z)"
    by (auto elim!: transaction_db op_bindE)
  have rows: "rows = filter ?P (db_credentials (pg_db s))" and d0: "pg_db t1 = ?d0"
    using store_err_exec_db [OF s1] t by (simp_all add: upd_credentials_revoked_def)
  from s2 obtain k ks t2 t3 where k: "rows = k # ks" and own: "user_str (cp_user_id c) = cr_user_id k"
    and s3: "invalidate_user_auth (cr_user_id k) now t1 = (Inr (), t2)"
    and s4: "insert_capability_tx c t2 = (Inr (), t3)" and s5: "insert_audit ?event now t3 = (Inr (), z)"
    by (cases rows) (auto elim!: op_bindE simp: op_fail_eq split: if_splits)
  have kp: "k \<in> set (db_credentials (pg_db s))" "?P k"
    using k rows filter_Cons_mem [of ?P "db_credentials (pg_db s)" k ks] by auto
  let ?d1 = "cut_tables (\<lambda>j. j = cr_user_id k) False now ?d0"
  have "pg_db s' = ?d1\<lparr>db_capabilities := db_capabilities ?d1 @ [capability_to_row c (pg_clock t2)],
      db_audit := db_audit (pg_db s) @ [audit_to_row ?event now]\<rparr>"
    using insert_audit_db [OF s5] insert_capability_tx_db [OF s4] invalidate_user_auth_db [OF s3]
    by (simp add: z d0 cut_tables_def)
  with kp own show ?thesis
    by (intro that [of k ?d1 "audit_to_row ?event now" "pg_clock t2"]) (auto simp: list_ex_iff audit_to_row_def)
qed

lemma decode_returning_1_Inr:
  "decode_returning_1 rows s = (Inr n, s') \<longleftrightarrow> (rows = [] \<or> pg_int4_as_i64 s) \<and> n = length rows \<and> s' = s"
  by (auto simp: decode_returning_1_def)

text \<open>Where the rotation succeeds there is no user, or the driver reads \<open>RETURNING 1\<close> as the code does.\<close>

lemma rotate_all_auth_epochs_Inr:
  assumes "rotate_all_auth_epochs now reason s = (Inr n, s')"
  shows "db_users (pg_db s) = [] \<or> pg_int4_as_i64 s"
proof -
  obtain t t1 rows where rt: "round_trip s = (Served, t)"
    and s1: "store_err (exec_tx (upd_users_epoch (\<lambda>_. True) now)) t = (Inr rows, t1)"
    and ok: "rows = [] \<or> pg_int4_as_i64 t1"
    using assms unfolding rotate_all_auth_epochs_def transaction_Inr
    by (auto elim!: op_bindE simp: decode_returning_1_Inr)
  have "pg_db t = pg_db s" using rt by (rule round_trip_db)
  then have "rows = db_users (pg_db s)"
    using store_err_exec_db [OF s1] by (auto simp: upd_users_epoch_def Let_def split: if_splits)
  moreover have "env_same t t1" by (rule op_relD [OF op_rel_store_err [OF env.ins_tx(5)] s1])
  ultimately show ?thesis using ok rt by (auto simp: env_same_def round_trip_def split: list.splits)
qed

end
