(* ===== verification/Pg_Properties.thy ===== *)
theory Pg_Properties
  imports Pg_Cutoff
begin

text \<open>
  The properties of the PostgreSQL store, with witnesses on a small database: one operator with a
  passkey, a session, an open login ceremony and a pending recovery request.
\<close>

section \<open>A database for witnesses\<close>

definition demo_hash :: "nat \<Rightarrow> bytes" where
  "demo_hash n = replicate 31 0 @ [of_nat n]"

definition demo_operator :: human_user where
  "demo_operator = \<lparr>ur_id = ''operator'', ur_webauthn_handle = 7, ur_email = ''op@example.test'',
     ur_display_name = ''Operator'', ur_role = ''operator'', ur_enabled = True, ur_auth_epoch = 1,
     hu_created_at = 0, hu_updated_at = 0\<rparr>"

definition demo_passkey :: passkey_credential where
  "demo_passkey = \<lparr>cr_id = 11, cr_user_id = ''operator'', cr_credential_id = [1, 2, 3], cr_public_data = JNull,
     cr_revoked_at = None, pk_created_at = 0, pk_last_used_at = None\<rparr>"

definition demo_login :: auth_ceremony where
  "demo_login = \<lparr>ce_id = 21, ce_kind = ''authentication'', ce_user_id = None, ce_capability_hash = None,
     ce_state = JNull, ce_expires_at = 300, ce_consumed_at = None, ce_created_at = 0\<rparr>"

definition demo_session_row :: auth_session where
  "demo_session_row = \<lparr>se_id = 31, se_user_id = ''operator'', se_token_hash = demo_hash 1,
     se_csrf_hash = demo_hash 2, se_auth_epoch = 1, se_idle_expires_at = 200, se_absolute_expires_at = 1000,
     se_created_at = 0, se_last_seen_at = 0, se_revoked_at = None\<rparr>"

definition demo_setup :: auth_capability where
  "demo_setup = \<lparr>ca_id = 41, ca_user_id = ''operator'', ca_purpose = ''setup'', ca_token_hash = demo_hash 3,
     ca_expires_at = 300, ca_consumed_at = None, ca_created_at = 0\<rparr>"

definition demo_registration :: auth_ceremony where
  "demo_registration = \<lparr>ce_id = 22, ce_kind = ''registration'', ce_user_id = Some ''operator'',
     ce_capability_hash = Some (demo_hash 3), ce_state = JNull, ce_expires_at = 300,
     ce_consumed_at = None, ce_created_at = 0\<rparr>"

definition demo_recovery :: recovery_request_row where
  "demo_recovery = \<lparr>re_id = 51, re_user_id = ''operator'', re_requested_at = 0, re_approved_at = None,
     re_approved_by = None, re_setup_issued_at = None, re_completed_at = None\<rparr>"

definition demo_db :: db where
  "demo_db = \<lparr>db_users = [demo_operator], db_credentials = [demo_passkey], db_capabilities = [demo_setup],
     db_ceremonies = [demo_login, demo_registration], db_sessions = [demo_session_row],
     db_recoveries = [demo_recovery], db_audit = []\<rparr>"

definition demo_pg :: pg where
  "demo_pg = \<lparr>pg_db = demo_db, pg_clock = 100, pg_net = [], pg_int4_as_i64 = False\<rparr>"

lemmas demo_rows = demo_operator_def demo_passkey_def demo_login_def demo_session_row_def demo_setup_def
  demo_registration_def demo_recovery_def

lemma length_demo_hash [simp]: "length (demo_hash n) = 32"
  by (simp add: demo_hash_def)

lemma demo_hash_eq: "demo_hash m = demo_hash n \<longleftrightarrow> (of_nat m :: u8) = of_nat n"
  by (simp add: demo_hash_def)

lemma demo_db_wf: "db_wf demo_db"
  by (simp add: db_wf_def table_wf_defs demo_db_def demo_rows role_names_def purpose_names_def kind_names_def
      i64_max_def user_exists_def opt_user_exists_def id_char_def is_ascii_alphanumeric_def
      is_ascii_alphabetic_def is_ascii_digit_def recovery_pending_def)

lemma demo_pg_wf: "db_wf (pg_db demo_pg)"
  by (simp add: demo_pg_def demo_db_wf)

lemma hex_digit_nonzero: "d < 16 \<Longrightarrow> hex_digit d \<noteq> CHR 0x00"
proof
  assume "d < 16" and "hex_digit d = CHR 0x00"
  then have "(of_char (hex_digit d) :: nat) = 0" and "48 + d < 256" and "87 + d < 256" by simp_all
  then show False by (simp add: hex_digit_def split: if_splits)
qed

lemma set_byte_slice: "set (byte_slice a b s) \<subseteq> set s"
  unfolding byte_slice_def by (meson order_trans set_drop_subset set_take_subset)

lemma text_ok_uuid_str: "text_ok (uuid_str w)"
proof -
  have "CHR 0x00 \<notin> set (hex_digits 32 n)" for n
    using hex_digit_nonzero [of "n div 16 ^ i mod 16" for i] by (auto simp: hex_digits_def) (metis mod_less_divisor zero_less_numeral)
  then have "CHR 0x00 \<notin> set (byte_slice a b (hex_digits 32 n))" for a b n
    using set_byte_slice by blast
  then show ?thesis by (simp add: text_ok_def uuid_str_def Let_def)
qed

lemma valid_id_text_ok: "valid_opaque_id i \<Longrightarrow> text_ok i"
  by (cases i) (auto simp: text_ok_def id_char_def is_ascii_alphanumeric_def is_ascii_alphabetic_def is_ascii_digit_def list_all_iff)

text \<open>Evaluation of calls on a network that serves every request.\<close>

lemmas pg_eval = op_defs transaction_def round_trip_def exec_tx_def exec_pool_def run_stmt_def store_err_def
  select_def stmt_defs update_where_def user_exists_def opt_user_exists_def text_ok_def Let_def

section \<open>Invariants of the database\<close>

text \<open>
  C15: Whatever sequence of store calls the server makes from an empty database, whatever they
  return and whatever the network does to them, the database satisfies the schema: keys, public
  handles, emails, credential identifiers and token hashes are unique, every reference points to a
  user, roles, purposes and kinds are the known ones, hashes have 32 bytes, epochs are positive
  64-bit numbers, no user has two pending recoveries, and no setup was issued and no recovery
  completed without approval.
\<close>

theorem reachable_db_wf:
  assumes "pg_db s = db_empty" and "store_run s s'"
  shows "db_wf (pg_db s')"
  by (rule store_run_keeps(1) [OF assms(2)])
    (simp add: assms(1) db_empty_def db_wf_def table_wf_defs)

definition nothing_pg :: pg where
  "nothing_pg = \<lparr>pg_db = db_empty, pg_clock = 0, pg_net = [], pg_int4_as_i64 = False\<rparr>"

definition first_user :: user where
  "first_user = \<lparr>u_id = UserId ''op'', u_webauthn_handle = 7, u_email = ''a@b'', u_display_name = ''A'',
     u_role = Operator, u_enabled = True, u_auth_epoch = 1\<rparr>"

definition first_audit :: audit_event where
  "first_audit = \<lparr>ae_event_type = ''operator.seeded'', ae_actor_user_id = None, ae_subject_user_id = Some (UserId ''op''),
     ae_data = JObject []\<rparr>"

lemma insert_first_user:
  "\<exists>s1. op_void (insert_user first_user 100 first_audit) nothing_pg = (Inr (), s1) \<and> length (db_users (pg_db s1)) = 1"
  by (simp add: insert_user_def insert_user_tx_def user_to_row_def insert_audit_def audit_to_row_def pg_eval
      nothing_pg_def first_user_def first_audit_def db_empty_def role_names_def)

theorem reachable_db_wf_witness:
  "\<exists>s1. op_void (insert_user first_user 100 first_audit) nothing_pg = (Inr (), s1)
     \<and> length (db_users (pg_db s1)) = 1 \<and> db_wf (pg_db s1)"
proof -
  obtain s1 where run: "op_void (insert_user first_user 100 first_audit) nothing_pg = (Inr (), s1)"
    and users: "length (db_users (pg_db s1)) = 1"
    using insert_first_user by blast
  have "user_ok first_user"
    by (simp add: user_ok_def first_user_def user_id_ok_def epoch_ok_def i64_max_def id_char_def
        is_ascii_alphanumeric_def is_ascii_alphabetic_def)
  from reachable_db_wf [OF _ store_run_call [OF call_insert_user [OF this] run]] run users show ?thesis
    by (simp add: nothing_pg_def)
qed

text \<open>
  The database only moves forward.  Over any run no row disappears or changes what it is about;
  a consumed ceremony or capability, a revoked credential or session, and an approved, issued or
  completed recovery keep the time this happened; the epoch of a user never decreases; and the
  audit log is only appended to.
\<close>

theorem database_moves_forward:
  assumes "store_run s s'"
  shows "db_evolves (pg_db s) (pg_db s')"
  by (rule store_run_keeps(2) [OF assms])

theorem database_moves_forward_witness:
  "store_run demo_pg (snd (op_void (delete_session (SecretHash (demo_hash 1))) demo_pg))
   \<and> db_evolves demo_db (pg_db (snd (op_void (delete_session (SecretHash (demo_hash 1))) demo_pg)))"
proof -
  have run: "store_run demo_pg (snd (op_void (delete_session (SecretHash (demo_hash 1))) demo_pg))"
    by (rule store_run_call [OF call_delete_session]) (rule prod.collapse [symmetric])
  with database_moves_forward [OF run] show ?thesis by (simp add: demo_pg_def)
qed

text \<open>
  C16: A call that fails changes nothing.  On a well-formed database, every store call that returns
  an error leaves the database exactly as it was, unless the answer to one of its requests was lost
  on the way back: partial work of a transaction is never visible.
\<close>

theorem failed_call_changes_nothing:
  assumes "store_call f" and "f s = (Inl e, s')" and "db_wf (pg_db s)" and "Answer_lost \<notin> set (pg_net s)"
  shows "pg_db s' = pg_db s"
  using store_call_fails_clean [OF assms(1)] assms(2,4,3) by (rule fails_cleanD)

theorem failed_call_changes_nothing_witness:
  "\<exists>s'. op_void (approve_recovery 99 (UserId ''operator'') 100) demo_pg = (Inl Conflict, s') \<and> pg_db s' = pg_db demo_pg"
proof -
  obtain s' where run: "op_void (approve_recovery 99 (UserId ''operator'') 100) demo_pg = (Inl Conflict, s')"
    by (simp add: approve_recovery_def pg_eval demo_pg_def demo_db_def demo_rows)
  have "Answer_lost \<notin> set (pg_net demo_pg)" by (simp add: demo_pg_def)
  from failed_call_changes_nothing [OF call_approve_recovery run demo_pg_wf this] run show ?thesis by blast
qed

section \<open>One-time use\<close>

text \<open>The two ways to complete a ceremony.\<close>

inductive completes :: "uuid \<Rightarrow> unit pg_op \<Rightarrow> bool" where
  completes_registration: "completes i (complete_registration new_id i oh credential now audit)"
| completes_authentication: "completes i (complete_authentication i v n now audit)"

inductive_cases completesE: "completes i f"

lemma completes_uses: "completes i f \<Longrightarrow> f s = (Inr (), s') \<Longrightarrow> ceremony_used i (pg_db s')"
  by (erule completesE) (auto dest: complete_registration_uses complete_authentication_uses)

lemma completes_open:
  "completes i f \<Longrightarrow> f s = (Inr (), s') \<Longrightarrow> \<exists>now. \<exists>e\<in>set (db_ceremonies (pg_db s)). ceremony_open i now e"
  by (erule completesE) (blast elim: complete_registration_db complete_authentication_db)+

lemma completes_call: "completes i f \<Longrightarrow> store_call (op_void f)"
  by (erule completesE) (auto intro: call_complete_registration call_complete_authentication)

lemma store_run_void: "store_call (op_void f) \<Longrightarrow> f s = (r, s') \<Longrightarrow> store_run s s'"
  by (erule store_run_call [where r = "map_ok (\<lambda>_. ()) r"]) (simp add: op_void_def)

lemma completes_run: "completes i f \<Longrightarrow> f s = (r, s') \<Longrightarrow> store_run s s'"
  by (drule completes_call) (rule store_run_void)

text \<open>
  A ceremony completes at most once.  After a registration or a login has completed a ceremony,
  no later registration or login, after any sequence of calls, completes the same ceremony.
\<close>

theorem ceremony_completes_once:
  assumes "db_wf (pg_db s)" and "completes i f" and "f s = (Inr (), s1)" and "store_run s1 s2"
    and "completes i g" and "g s2 = (r, s3)"
  shows "\<not> is_ok r"
proof
  assume "is_ok r"
  then have "g s2 = (Inr (), s3)" using assms(6) by (cases r) simp_all
  from completes_open [OF assms(5) this] obtain now
    where "\<exists>e\<in>set (db_ceremonies (pg_db s2)). ceremony_open i now e" by blast
  moreover have "db_wf (pg_db s1)" using store_run_keeps(1) [OF completes_run [OF assms(2,3)] assms(1)] .
  ultimately show False
    using ceremony_used_closed [OF completes_uses [OF assms(2,3)] _ assms(4)] by blast
qed

definition demo_record :: session_record where
  "demo_record = \<lparr>sr_id = 32, sr_user_id = UserId ''operator'', sr_token_hash = SecretHash (demo_hash 5),
     sr_csrf_hash = SecretHash (demo_hash 6), sr_auth_epoch = 1, sr_idle_expires_at = 500,
     sr_absolute_expires_at = 1000\<rparr>"

definition demo_audit :: audit_event where
  "demo_audit = \<lparr>ae_event_type = ''session.created'', ae_actor_user_id = Some (UserId ''operator''),
     ae_subject_user_id = Some (UserId ''operator''), ae_data = JObject []\<rparr>"

definition demo_complete :: "unit pg_op" where
  "demo_complete = complete_authentication 21
     \<lparr>av_credential_id = [1, 2, 3], av_updated_public_data = JNull\<rparr> demo_record 100 demo_audit"

lemma demo_completes: "completes 21 demo_complete"
  unfolding demo_complete_def by (rule completes_authentication)

lemma demo_complete_ok: "\<exists>s1. demo_complete demo_pg = (Inr (), s1)"
  by (simp add: demo_complete_def complete_authentication_def insert_audit_def audit_to_row_def pg_eval demo_pg_def
      demo_db_def demo_rows demo_record_def demo_audit_def session_to_row_def demo_hash_eq)

theorem ceremony_completes_once_witness:
  "\<exists>s1 r s3. demo_complete demo_pg = (Inr (), s1) \<and> demo_complete s1 = (r, s3) \<and> \<not> is_ok r"
proof -
  obtain s1 where one: "demo_complete demo_pg = (Inr (), s1)" using demo_complete_ok by blast
  obtain r s3 where two: "demo_complete s1 = (r, s3)" by fastforce
  from ceremony_completes_once [OF demo_pg_wf demo_completes one store_run_refl demo_completes two] one two
  show ?thesis by blast
qed

lemma complete_registration_capability:
  assumes "complete_registration new_id i (Some h) credential now audit s = (Inr (), s')"
  shows "\<exists>c\<in>set (db_capabilities (pg_db s)). capability_open h now c"
    and "db_capabilities (pg_db s') = update_where (capability_open h now)
      (\<lambda>c. c\<lparr>ca_consumed_at := Some now\<rparr>) (db_capabilities (pg_db s))"
  using assms by (rule complete_registration_db, simp)+

text \<open>
  A setup or recovery token registers at most one passkey.  A registration that names a
  capability succeeds only while the capability is neither consumed nor expired, consumes it, and
  no later registration that names it succeeds.
\<close>

theorem capability_registers_once:
  assumes "db_wf (pg_db s)"
    and "complete_registration new_id i (Some h) credential now audit s = (Inr (), s1)"
    and "store_run s1 s2"
    and "complete_registration new_id' i' (Some h) credential' now' audit' s2 = (r, s3)"
  shows "(\<exists>c\<in>set (db_capabilities (pg_db s)). capability_open h now c) \<and> \<not> is_ok r"
proof
  note first = complete_registration_capability [OF assms(2)]
  from first(1) obtain c where c: "c \<in> set (db_capabilities (pg_db s))" "capability_open h now c" by blast
  with first(2) have used: "c\<lparr>ca_consumed_at := Some now\<rparr> \<in> set (db_capabilities (pg_db s1))"
    by (simp add: update_where_image)
  show "\<exists>c\<in>set (db_capabilities (pg_db s)). capability_open h now c" using c by blast
  show "\<not> is_ok r"
  proof
    assume "is_ok r"
    then have "complete_registration new_id' i' (Some h) credential' now' audit' s2 = (Inr (), s3)"
      using assms(4) by (cases r) simp_all
    from complete_registration_capability(1) [OF this]
    obtain b where b: "b \<in> set (db_capabilities (pg_db s2))" "capability_open h now' b" by blast
    have "db_wf (pg_db s1)"
      using store_run_keeps(1) [OF completes_run [OF completes_registration assms(2)] assms(1)] .
    from consumed_capability_stays [OF assms(3) this used _ b(1)] b(2) c(2) show False
      by (simp add: capability_open_def)
  qed
qed

definition demo_register :: "uuid \<Rightarrow> unit pg_op" where
  "demo_register new_id = complete_registration new_id 22 (Some (SecretHash (demo_hash 3)))
     \<lparr>vc_credential_id = [4, 5], vc_public_data = JNull\<rparr> 100 demo_audit"

lemma demo_register_ok: "\<exists>s1. demo_register 12 demo_pg = (Inr (), s1)"
  by (simp add: demo_register_def complete_registration_def consume_ceremony_def check_bootstrap_def
      consume_capability_def insert_credential_def complete_recoveries_def insert_audit_def audit_to_row_def
      pg_eval demo_pg_def demo_db_def demo_rows demo_audit_def)

theorem capability_registers_once_witness:
  "\<exists>s1 r s3. demo_register 12 demo_pg = (Inr (), s1) \<and> demo_register 13 s1 = (r, s3) \<and> \<not> is_ok r"
proof -
  obtain s1 where one: "demo_register 12 demo_pg = (Inr (), s1)" using demo_register_ok by blast
  obtain r s3 where two: "demo_register 13 s1 = (r, s3)" by fastforce
  from capability_registers_once [OF demo_pg_wf one [unfolded demo_register_def] store_run_refl
      two [unfolded demo_register_def]] one two
  show ?thesis by blast
qed

section \<open>Invalidation\<close>

lemma same_credential_evolves:
  assumes "store_run s s'" and "db_wf (pg_db s)" and "k \<in> set (db_credentials (pg_db s))"
    and "l \<in> set (db_credentials (pg_db s'))" and "cr_id l = cr_id k"
  shows "credential_evolves k l"
proof -
  obtain f where f: "f \<in> set (db_credentials (pg_db s'))" "credential_evolves k f"
    using run_credential [OF assms(1,3)] by blast
  have "distinct (map cr_id (db_credentials (pg_db s')))"
    using store_run_keeps(1) [OF assms(1,2)] by (simp add: db_wf_def credentials_wf_def)
  then have "f = l"
    by (rule distinct_map_eq [OF _ f(1) assms(4)]) (use f(2) assms(5) in \<open>simp add: credential_evolves_def\<close>)
  with f(2) show ?thesis by simp
qed

text \<open>
  C17: Approving a recovery ends all authority of the user, for good.  After any further run,
  a session of the user that is live was created later and carries a later epoch, so that also a login
  that read the user before, and finishes with the old epoch, yields no usable session; every ceremony
  of the user and every capability the user had is consumed.
\<close>

theorem recovery_approval_cuts_off:
  assumes "db_wf (pg_db s)" and "approve_recovery rid operator_id now s = (Inr (), s1)" and "store_run s1 s2"
  shows "\<exists>q\<in>set (db_recoveries (pg_db s)). re_id q = rid \<and> recovery_pending q
    \<and> authority_gone (\<lambda>i. i = re_user_id q) False (pg_db s) (pg_db s2)"
proof -
  obtain q qs a where q: "q \<in> set (db_recoveries (pg_db s))" "re_id q = rid" "recovery_pending q"
    and db: "pg_db s1 = (cut_tables (\<lambda>j. j = re_user_id q) False now ((pg_db s)\<lparr>db_recoveries := qs\<rparr>))
      \<lparr>db_audit := db_audit (pg_db s) @ [a]\<rparr>"
    using assms(2) by (rule approve_recovery_db)
  have "cut_off (\<lambda>i. i = re_user_id q) False (pg_db s) (pg_db s1)"
    using cut_tables_cut_off [of "\<lambda>i. i = re_user_id q" False "(pg_db s)\<lparr>db_recoveries := qs\<rparr>" now]
    by (simp add: cut_off_def db)
  from cut_off_run [OF this assms(1) store_run_void [OF call_approve_recovery assms(2)] assms(3)] q
  show ?thesis by blast
qed

lemma demo_approve_ok: "\<exists>s1. approve_recovery 51 (UserId ''operator'') 100 demo_pg = (Inr (), s1)"
  using text_ok_uuid_str [of 51]
  by (simp add: approve_recovery_def invalidate_user_auth_def insert_audit_def audit_to_row_def decode_user_id_def
      UserId_new_def id_char_def is_ascii_alphanumeric_def is_ascii_alphabetic_def pg_eval demo_pg_def demo_db_def
      demo_rows i64_max_def)

theorem recovery_approval_cuts_off_witness:
  "\<exists>s1. approve_recovery 51 (UserId ''operator'') 100 demo_pg = (Inr (), s1)
     \<and> authority_gone (\<lambda>i. i = ''operator'') False demo_db (pg_db s1)"
proof -
  obtain s1 where run: "approve_recovery 51 (UserId ''operator'') 100 demo_pg = (Inr (), s1)"
    using demo_approve_ok by blast
  from recovery_approval_cuts_off [OF demo_pg_wf run store_run_refl]
  have "authority_gone (\<lambda>i. i = ''operator'') False demo_db (pg_db s1)"
    by (simp add: demo_pg_def demo_db_def demo_recovery_def)
  with run show ?thesis by blast
qed

text \<open>
  C18: Break glass.  It succeeds only for a passkey that is not revoked, of an operator, and a
  capability for that operator; it revokes the passkey, ends all authority of the operator for good
  like an approved recovery, adds the capability and records one audit event.
\<close>

theorem break_glass_cuts_off:
  assumes "db_wf (pg_db s)" and "break_glass kid c now reason s = (Inr (), s1)" and "store_run s1 s2"
  shows "\<exists>k\<in>set (db_credentials (pg_db s)). cr_id k = kid \<and> cr_revoked_at k = None
    \<and> cr_user_id k = user_str (cp_user_id c)
    \<and> (\<exists>u\<in>set (db_users (pg_db s)). ur_id u = cr_user_id k \<and> ur_role u = ''operator'')
    \<and> (\<forall>l\<in>set (db_credentials (pg_db s2)). cr_id l = kid \<longrightarrow> cr_revoked_at l = Some now)
    \<and> authority_gone (\<lambda>i. i = cr_user_id k) False (pg_db s) (pg_db s2)
    \<and> (\<exists>clock. capability_to_row c clock \<in> set (db_capabilities (pg_db s1)))
    \<and> (\<exists>a. db_audit (pg_db s1) = db_audit (pg_db s) @ [a] \<and> au_event_type a = ''operator.break_glass_opened'')"
proof -
  let ?P = "\<lambda>k. cr_id k = kid \<and> list_ex (\<lambda>u. ur_id u = cr_user_id k \<and> ur_role u = ''operator'') (db_users (pg_db s))
    \<and> cr_revoked_at k = None"
  let ?ks = "update_where ?P (\<lambda>k. k\<lparr>cr_revoked_at := Some now\<rparr>) (db_credentials (pg_db s))"
  obtain k d1 a clock where k: "k \<in> set (db_credentials (pg_db s))" "cr_id k = kid" "cr_revoked_at k = None"
      "user_str (cp_user_id c) = cr_user_id k"
    and op: "\<exists>u\<in>set (db_users (pg_db s)). ur_id u = cr_user_id k \<and> ur_role u = ''operator''"
    and d1: "d1 = cut_tables (\<lambda>j. j = cr_user_id k) False now ((pg_db s)\<lparr>db_credentials := ?ks\<rparr>)"
    and db: "pg_db s1 = d1\<lparr>db_capabilities := db_capabilities d1 @ [capability_to_row c clock],
      db_audit := db_audit (pg_db s) @ [a]\<rparr>" and a: "au_event_type a = ''operator.break_glass_opened''"
    using assms(2) by (rule break_glass_db)
  have run1: "store_run s s1" by (rule store_run_void [OF call_break_glass assms(2)])
  have wf1: "db_wf (pg_db s1)" using store_run_keeps(1) [OF run1 assms(1)] .
  have "cut_off (\<lambda>i. i = cr_user_id k) False (pg_db s) (pg_db s1)"
    using cut_tables_cut_off [of "\<lambda>i. i = cr_user_id k" False "(pg_db s)\<lparr>db_credentials := ?ks\<rparr>" now]
    by (auto simp: cut_off_def db d1)
  from cut_off_run [OF this assms(1) run1 assms(3)]
  have gone: "authority_gone (\<lambda>i. i = cr_user_id k) False (pg_db s) (pg_db s2)" .
  have "?P k" using k op by (auto simp: list_ex_iff)
  then have "k\<lparr>cr_revoked_at := Some now\<rparr> \<in> set (db_credentials (pg_db s1))"
    using k(1) by (auto simp: db d1 cut_tables_def set_update_where intro!: image_eqI [of _ _ k])
  then have "cr_revoked_at l = Some now" if "l \<in> set (db_credentials (pg_db s2))" "cr_id l = kid" for l
    using same_credential_evolves [OF assms(3) wf1 _ that(1)] that(2) k(2)
    by (fastforce simp: credential_evolves_def sticks_def)
  then show ?thesis
    using k op gone a by (intro bexI [of _ k]) (auto simp: db d1 cut_tables_def)
qed

definition demo_window :: capability where
  "demo_window = \<lparr>cp_id = 42, cp_user_id = UserId ''operator'', cp_purpose = OperatorRecovery,
     cp_token_hash = SecretHash (demo_hash 8), cp_expires_at = 700\<rparr>"

lemma demo_break_glass_ok: "\<exists>s1. break_glass 11 demo_window 100 ''lost the passkey'' demo_pg = (Inr (), s1)"
  using text_ok_uuid_str [of 11]
  by (simp add: break_glass_def invalidate_user_auth_def insert_capability_tx_def db_now_def insert_audit_def
      audit_to_row_def capability_to_row_def pg_eval demo_pg_def demo_db_def demo_rows demo_window_def demo_hash_eq
      i64_max_def purpose_names_def)

theorem break_glass_cuts_off_witness:
  "\<exists>s1. break_glass 11 demo_window 100 ''lost the passkey'' demo_pg = (Inr (), s1)
     \<and> (\<exists>k\<in>set (db_credentials demo_db). authority_gone (\<lambda>i. i = cr_user_id k) False demo_db (pg_db s1))"
proof -
  obtain s1 where run: "break_glass 11 demo_window 100 ''lost the passkey'' demo_pg = (Inr (), s1)"
    using demo_break_glass_ok by blast
  have "pg_db demo_pg = demo_db" by (simp add: demo_pg_def)
  with break_glass_cuts_off [OF demo_pg_wf run store_run_refl] run show ?thesis by auto
qed

text \<open>
  C20: With a driver that refuses to decode an \<open>int4\<close> column as \<open>i64\<close>, the rotation of all epochs
  fails as soon as there is one user, and nothing is invalidated.
\<close>

theorem rotation_fails_on_strict_driver:
  assumes "\<not> pg_int4_as_i64 s" and "db_users (pg_db s) \<noteq> []" and "db_wf (pg_db s)"
    and "Answer_lost \<notin> set (pg_net s)" and "rotate_all_auth_epochs now reason s = (r, s')"
  shows "\<not> is_ok r \<and> pg_db s' = pg_db s"
proof (cases r)
  case (Inl e)
  then have "op_void (rotate_all_auth_epochs now reason) s = (Inl e, s')"
    using assms(5) by (simp add: op_void_def)
  from fails_cleanD [OF store_call_fails_clean [OF call_rotate] this assms(4,3)] Inl show ?thesis by simp
next
  case (Inr n)
  with rotate_all_auth_epochs_Inr [of now reason s n s'] assms show ?thesis by simp
qed

theorem rotation_fails_on_strict_driver_witness:
  "\<not> is_ok (fst (rotate_all_auth_epochs 100 ''restored'' demo_pg))"
proof -
  have "\<not> pg_int4_as_i64 demo_pg" and "db_users (pg_db demo_pg) \<noteq> []" and "db_wf (pg_db demo_pg)"
    and "Answer_lost \<notin> set (pg_net demo_pg)"
    using demo_pg_wf by (simp_all add: demo_pg_def demo_db_def)
  from rotation_fails_on_strict_driver [OF this prod.collapse [symmetric]] show ?thesis by blast
qed

section \<open>Sessions\<close>

lemma touch_session_served:
  assumes "pg_net s = []" and "live_session h now (pg_db s) = Some (n, u)"
    and "\<And>c. csrf = Some c \<Longrightarrow> hash_ok c"
  shows "touch_session h csrf now idle s = (Inr (Some (n, u)),
    s\<lparr>pg_db := (pg_db s)\<lparr>db_sessions := update_where (\<lambda>m. se_id m = se_id n)
       (\<lambda>m. (case csrf of None \<Rightarrow> m | Some c \<Rightarrow> m\<lparr>se_csrf_hash := as_bytes c\<rparr>)
          \<lparr>se_idle_expires_at := min idle (se_absolute_expires_at n), se_last_seen_at := now\<rparr>)
       (db_sessions (pg_db s))\<rparr>\<rparr>)"
  using assms
  by (cases csrf) (simp_all add: touch_session_def op_defs transaction_def round_trip_def exec_tx_def run_stmt_def
      store_err_def select_def upd_session_seen_def hash_ok_def)


text \<open>
  The session query on a served connection, as a function of the database: the principal, and the
  database with the idle expiry pushed forward but never beyond the absolute one.
\<close>

definition principal_of :: "auth_session \<Rightarrow> human_user \<Rightarrow> session_principal" where
  "principal_of n u = \<lparr>sp_session_id = se_id n, sp_user = user_of_row u, sp_csrf_hash = SecretHash (se_csrf_hash n),
     sp_absolute_expires_at = se_absolute_expires_at n\<rparr>"

definition session_seen :: "auth_session \<Rightarrow> time \<Rightarrow> time \<Rightarrow> db \<Rightarrow> db" where
  "session_seen n now idle d = d\<lparr>db_sessions := update_where (\<lambda>m. se_id m = se_id n)
     (\<lambda>m. m\<lparr>se_idle_expires_at := min idle (se_absolute_expires_at n), se_last_seen_at := now\<rparr>) (db_sessions d)\<rparr>"

lemma touch_session_absent:
  "pg_net s = [] \<Longrightarrow> live_session h now (pg_db s) = None \<Longrightarrow> touch_session h csrf now idle s = (Inr None, s)"
  by (simp add: touch_session_def op_defs transaction_def round_trip_def exec_tx_def run_stmt_def
      store_err_def select_def)

lemma session_served:
  assumes "db_wf (pg_db s)" and "pg_net s = []"
  shows "session h now idle s =
    (case live_session h now (pg_db s) of
       None \<Rightarrow> (Inr None, s)
     | Some (n, u) \<Rightarrow> (Inr (Some (principal_of n u)), s\<lparr>pg_db := session_seen n now idle (pg_db s)\<rparr>))"
proof (cases "live_session h now (pg_db s)")
  case None
  with assms show ?thesis by (simp add: session_def op_then_def touch_session_absent)
next
  case (Some x)
  obtain n u where x: "x = (n, u)" by (cases x)
  note live = live_session_Some [OF Some [unfolded x]]
  have "User_try_from u = Inr (user_of_row u)" using assms(1) live(2) by (rule User_try_from_wf)
  moreover have "SecretHash_from_slice (se_csrf_hash n) = Inr (SecretHash (se_csrf_hash n))"
    using assms(1) live(1) by (auto simp: SecretHash_from_slice_def db_wf_def sessions_wf_def)
  moreover have "touch_session h None now idle s = (Inr (Some (n, u)), s\<lparr>pg_db := session_seen n now idle (pg_db s)\<rparr>)"
    using touch_session_served [OF assms(2) Some [unfolded x], of None idle] by (simp add: session_seen_def)
  ultimately show ?thesis by (simp add: Some x session_def op_then_def principal_of_def)
qed

text \<open>
  C21: The session lookup is exact.  On a well-formed database and a connection that serves it never
  fails; it returns nothing, and changes nothing, exactly when no row with that token hash is
  unrevoked, unexpired on both clocks, of an enabled user and of the user's current epoch; otherwise
  it returns that session with its user, and moves the idle expiry of this session alone to the
  requested time, capped by the absolute expiry.
\<close>

theorem session_lookup_exact:
  assumes "db_wf (pg_db s)" and "pg_net s = []" and "session h now idle s = (r, s')"
  shows "(r = Inr None \<and> s' = s
      \<and> \<not> (\<exists>n\<in>set (db_sessions (pg_db s)). \<exists>u\<in>set (db_users (pg_db s)).
            se_token_hash n = as_bytes h \<and> session_live now n u))
    \<or> (\<exists>n\<in>set (db_sessions (pg_db s)). \<exists>u\<in>set (db_users (pg_db s)).
         se_token_hash n = as_bytes h \<and> session_live now n u
         \<and> r = Inr (Some (principal_of n u)) \<and> s' = s\<lparr>pg_db := session_seen n now idle (pg_db s)\<rparr>)"
proof (cases "live_session h now (pg_db s)")
  case None
  with session_served [OF assms(1,2), of h now idle] assms(3) have "r = Inr None" and "s' = s" by simp_all
  with None [unfolded live_session_None] show ?thesis by blast
next
  case (Some x)
  obtain n u where x: "x = (n, u)" by (cases x)
  with session_served [OF assms(1,2), of h now idle] assms(3) Some
  have "r = Inr (Some (principal_of n u))" and "s' = s\<lparr>pg_db := session_seen n now idle (pg_db s)\<rparr>" by simp_all
  with live_session_Some [OF Some [unfolded x]] show ?thesis by blast
qed

theorem session_lookup_exact_witness:
  "\<exists>s'. session (SecretHash (demo_hash 1)) 100 2000 demo_pg = (Inr (Some (principal_of demo_session_row demo_operator)), s')
     \<and> pg_db s' = session_seen demo_session_row 100 2000 demo_db"
proof -
  obtain r s' where run: "session (SecretHash (demo_hash 1)) 100 2000 demo_pg = (r, s')" by fastforce
  have "pg_net demo_pg = []" by (simp add: demo_pg_def)
  from session_lookup_exact [OF demo_pg_wf this run] run show ?thesis
    by (auto simp: demo_pg_def demo_db_def demo_rows session_live_def)
qed

section \<open>The first operator\<close>

text \<open>
  The bootstrap works once.  A ceremony of kind \<open>operator_bootstrap\<close> completes only while no
  operator has a passkey that is not revoked; it registers exactly one passkey, for the user of the
  ceremony, and touches neither users nor sessions.
\<close>

theorem bootstrap_only_without_operator_passkey:
  assumes "complete_registration new_id i oh credential now audit s = (Inr (), s')"
    and "\<forall>e\<in>set (db_ceremonies (pg_db s)). ce_id e = i \<longrightarrow> ce_kind e = ''operator_bootstrap''"
  shows "operator_credentials (pg_db s) = []
    \<and> (\<exists>e\<in>set (db_ceremonies (pg_db s)). \<exists>u k. ceremony_open i now e \<and> ce_user_id e = Some u
         \<and> db_credentials (pg_db s') = db_credentials (pg_db s) @ [k] \<and> cr_user_id k = u
         \<and> cr_credential_id k = vc_credential_id credential \<and> cr_revoked_at k = None)
    \<and> db_users (pg_db s') = db_users (pg_db s) \<and> db_sessions (pg_db s') = db_sessions (pg_db s)"
  using assms(1)
proof (rule complete_registration_db)
  fix e u
  assume e: "e \<in> set (db_ceremonies (pg_db s))" "ceremony_open i now e" "ce_user_id e = Some u"
    and boot: "ce_kind e = ''operator_bootstrap'' \<Longrightarrow> operator_credentials (pg_db s) = []"
    and "db_users (pg_db s') = db_users (pg_db s)" and "db_sessions (pg_db s') = db_sessions (pg_db s)"
    and k: "db_credentials (pg_db s') = db_credentials (pg_db s) @
      [\<lparr>cr_id = new_id, cr_user_id = u, cr_credential_id = vc_credential_id credential,
        cr_public_data = vc_public_data credential, cr_revoked_at = None,
        pk_created_at = now, pk_last_used_at = None\<rparr>]"
  moreover have "operator_credentials (pg_db s) = []" using boot e(1,2) assms(2) by (simp add: ceremony_open_def)
  ultimately show ?thesis by auto
qed

definition fresh_pg :: pg where
  "fresh_pg = demo_pg\<lparr>pg_db := demo_db\<lparr>db_credentials := [], db_ceremonies :=
     [demo_registration\<lparr>ce_kind := ''operator_bootstrap'', ce_capability_hash := None\<rparr>]\<rparr>\<rparr>"

lemma fresh_register_ok:
  "\<exists>s1. complete_registration 12 22 None \<lparr>vc_credential_id = [4, 5], vc_public_data = JNull\<rparr> 100 demo_audit fresh_pg
     = (Inr (), s1)"
  by (simp add: complete_registration_def consume_ceremony_def check_bootstrap_def operator_credentials_def
      consume_capability_def insert_credential_def complete_recoveries_def insert_audit_def audit_to_row_def
      pg_eval fresh_pg_def demo_pg_def demo_db_def demo_rows demo_audit_def)

theorem bootstrap_only_without_operator_passkey_witness:
  "\<exists>s1. complete_registration 12 22 None \<lparr>vc_credential_id = [4, 5], vc_public_data = JNull\<rparr> 100 demo_audit fresh_pg
      = (Inr (), s1) \<and> operator_credentials (pg_db fresh_pg) = []"
proof -
  obtain s1 where run: "complete_registration 12 22 None \<lparr>vc_credential_id = [4, 5], vc_public_data = JNull\<rparr> 100
      demo_audit fresh_pg = (Inr (), s1)"
    using fresh_register_ok by blast
  have "\<forall>e\<in>set (db_ceremonies (pg_db fresh_pg)). ce_id e = 22 \<longrightarrow> ce_kind e = ''operator_bootstrap''"
    by (simp add: fresh_pg_def)
  from bootstrap_only_without_operator_passkey [OF run this] run show ?thesis by blast
qed

section \<open>Recovery requests\<close>

text \<open>
  What a recovery request answers on a connection that serves: a conflict when the identifier
  is taken or the user already has a request that nobody approved, a store error when there is no
  such user, and otherwise the pending request, added at the end of the table.
\<close>

theorem create_recovery_answers:
  assumes "pg_net s = []" and "user_id_ok i"
  shows "create_recovery new_id i now s =
    (if new_id \<in> re_id ` set (db_recoveries (pg_db s))
        \<or> (\<exists>q\<in>set (db_recoveries (pg_db s)). re_user_id q = user_str i \<and> recovery_pending q)
     then (Inl Conflict, s)
     else if \<not> user_exists (pg_db s) (user_str i) then (Inl Store, s)
     else (Inr \<lparr>rq_id = new_id, rq_user_id = i, rq_requested_at = now, rq_approved_at = None\<rparr>,
           s\<lparr>pg_db := (pg_db s)\<lparr>db_recoveries := db_recoveries (pg_db s) @
             [\<lparr>re_id = new_id, re_user_id = user_str i, re_requested_at = now, re_approved_at = None,
               re_approved_by = None, re_setup_issued_at = None, re_completed_at = None\<rparr>]\<rparr>\<rparr>))"
proof -
  have "text_ok (user_str i)" using assms(2) by (simp add: user_id_ok_def valid_id_text_ok)
  with assms(1) show ?thesis
    by (simp add: create_recovery_def op_defs exec_pool_def round_trip_def run_stmt_def ins_recovery_def
        conflict_if_unique_def recovery_pending_def)
qed

theorem create_recovery_answers_witness:
  "create_recovery 52 (UserId ''operator'') 100 demo_pg = (Inl Conflict, demo_pg)"
  using create_recovery_answers [of demo_pg "UserId ''operator''" 52 100]
  by (simp add: demo_pg_def demo_db_def demo_rows user_id_ok_def recovery_pending_def id_char_def
      is_ascii_alphanumeric_def is_ascii_alphabetic_def)

end
