(* ===== verification/Auth_Service.thy ===== *)
theory Auth_Service
  imports Pg_Properties
begin

text \<open>
  \<open>AuthService\<close> of \<open>auth/src/lib.rs\<close>, generic in the store (trait \<open>AuthStore\<close>) and the ceremony
  engine (trait \<open>CeremonyEngine\<close>) as the code is.  What a call draws at random is an argument:
  \<open>seed\<close> for the engine, \<open>new_id\<close> for \<open>Uuid::new_v4\<close>, tokens for \<open>SecretToken::generate\<close>; an
  identifier the store draws itself is an argument of that function of the store.

  The locale \<open>auth_store_steps\<close> states that every function of a store moves its state along a
  preorder and carries the same to the service; it is interpreted on the PostgreSQL store with
  \<open>store_run\<close>, so that whatever holds of every run of the store holds of the service.
\<close>

section \<open>The traits\<close>

record ceremony_engine =
  en_start_registration :: "bytes \<Rightarrow> user \<Rightarrow> stored_credential list \<Rightarrow> auth_error + json \<times> json"
  en_finish_registration :: "json \<Rightarrow> json \<Rightarrow> auth_error + verified_credential"
  en_start_authentication :: "bytes \<Rightarrow> auth_error + json \<times> json"
  en_authentication_user_handle :: "json \<Rightarrow> auth_error + uuid"
  en_finish_authentication :: "json \<Rightarrow> json \<Rightarrow> stored_credential list \<Rightarrow> auth_error + authentication_verification"

type_synonym ('s, 'a) store_op = "('s, auth_error, 'a) op"

record 's auth_store =
  as_user_by_id :: "user_id \<Rightarrow> ('s, user option) store_op"
  as_user_by_handle :: "uuid \<Rightarrow> ('s, user option) store_op"
  as_credentials_for_user :: "user_id \<Rightarrow> ('s, stored_credential list) store_op"
  as_operator_without_credential :: "('s, user option) store_op"
  as_operator_exists :: "('s, bool) store_op"
  as_operator_recovery_window :: "time \<Rightarrow> ('s, (user \<times> secret_hash) option) store_op"
  as_capability :: "secret_hash \<Rightarrow> capability_purpose \<Rightarrow> time \<Rightarrow> ('s, capability option) store_op"
  as_insert_capability :: "capability \<Rightarrow> ('s, unit) store_op"
  as_insert_user :: "user \<Rightarrow> time \<Rightarrow> audit_event \<Rightarrow> ('s, unit) store_op"
  as_approve_user_with_setup :: "user \<Rightarrow> capability \<Rightarrow> user_id \<Rightarrow> time \<Rightarrow> ('s, unit) store_op"
  as_rotate_all_auth_epochs :: "time \<Rightarrow> string \<Rightarrow> ('s, u64) store_op"
  as_insert_ceremony :: "ceremony \<Rightarrow> ('s, unit) store_op"
  as_ceremony :: "uuid \<Rightarrow> ceremony_kind \<Rightarrow> time \<Rightarrow> ('s, ceremony option) store_op"
  as_complete_registration ::
    "uuid \<Rightarrow> uuid \<Rightarrow> secret_hash option \<Rightarrow> verified_credential \<Rightarrow> time \<Rightarrow> audit_event \<Rightarrow> ('s, unit) store_op"
  as_complete_authentication ::
    "uuid \<Rightarrow> authentication_verification \<Rightarrow> session_record \<Rightarrow> time \<Rightarrow> audit_event \<Rightarrow> ('s, unit) store_op"
  as_session :: "secret_hash \<Rightarrow> time \<Rightarrow> time \<Rightarrow> ('s, session_principal option) store_op"
  as_rotate_session_csrf ::
    "secret_hash \<Rightarrow> secret_hash \<Rightarrow> time \<Rightarrow> time \<Rightarrow> ('s, session_principal option) store_op"
  as_delete_session :: "secret_hash \<Rightarrow> ('s, unit) store_op"
  as_create_recovery :: "uuid \<Rightarrow> user_id \<Rightarrow> time \<Rightarrow> ('s, recovery_request) store_op"
  as_pending_recoveries :: "('s, recovery_request list) store_op"
  as_approve_recovery :: "uuid \<Rightarrow> user_id \<Rightarrow> time \<Rightarrow> ('s, unit) store_op"
  as_issue_recovery_setup :: "uuid \<Rightarrow> capability \<Rightarrow> user_id \<Rightarrow> time \<Rightarrow> ('s, unit) store_op"
  as_break_glass :: "uuid \<Rightarrow> capability \<Rightarrow> time \<Rightarrow> string \<Rightarrow> ('s, unit) store_op"

text \<open>\<open>crypto\<close> is what the tokens use of other crates.\<close>

record 's auth_service =
  sv_store :: "'s auth_store"
  sv_engine :: ceremony_engine
  sv_config :: auth_config
  sv_crypto :: crypto

definition service_hash :: "'s auth_service \<Rightarrow> secret_token \<Rightarrow> secret_hash" where
  "service_hash sv token = token_hash (sv_crypto sv) token"

text \<open>\<open>.await?.ok_or(e)?\<close> and \<open>.await?.filter(|user| user.enabled).ok_or(e)?\<close>.\<close>

definition op_some :: "'e \<Rightarrow> ('s, 'e, 'a option) op \<Rightarrow> ('s, 'e, 'a) op" where
  "op_some e m = op_then m (ok_or e)"

definition enabled_user :: "user option \<Rightarrow> user option" where
  "enabled_user x = (case x of None \<Rightarrow> None | Some u \<Rightarrow> if u_enabled u then Some u else None)"

section \<open>Registration\<close>

definition start_setup_registration ::
    "'s auth_service \<Rightarrow> bytes \<Rightarrow> uuid \<Rightarrow> secret_token \<Rightarrow> capability_purpose \<Rightarrow> time \<Rightarrow> ('s, uuid \<times> json) store_op" where
  "start_setup_registration sv seed new_id token purpose now =
     op_bind (op_some InvalidToken (as_capability (sv_store sv) (service_hash sv token) purpose now)) (\<lambda>capability.
     op_bind (op_then (as_user_by_id (sv_store sv) (cp_user_id capability))
               (\<lambda>user. ok_or InvalidToken (enabled_user user))) (\<lambda>user.
     op_bind (as_credentials_for_user (sv_store sv) (u_id user)) (\<lambda>credentials.
     op_bind (op_lift (en_start_registration (sv_engine sv) seed user credentials)) (\<lambda>(challenge, state).
     op_bind (as_insert_ceremony (sv_store sv)
       \<lparr>cm_id = new_id, cm_kind = Registration, cm_user_id = Some (u_id user),
        cm_capability_hash = Some (cp_token_hash capability), cm_state = state,
        cm_expires_at = now + ac_ceremony_ttl (sv_config sv)\<rparr>) (\<lambda>_.
     op_return (new_id, challenge))))))"

definition bootstrap_subject ::
    "'s auth_service \<Rightarrow> time \<Rightarrow> ('s, user \<times> secret_hash option \<times> ceremony_kind) store_op" where
  "bootstrap_subject sv now =
     op_bind (as_operator_recovery_window (sv_store sv) now) (\<lambda>window.
       case window of
         Some (user, hash) \<Rightarrow> op_return (user, Some hash, OperatorRecoveryCeremony)
       | None \<Rightarrow>
           op_bind (op_some Conflict (as_operator_without_credential (sv_store sv))) (\<lambda>user.
             op_return (user, None, OperatorBootstrap)))"

definition start_operator_bootstrap ::
    "'s auth_service \<Rightarrow> bytes \<Rightarrow> uuid \<Rightarrow> time \<Rightarrow> ('s, uuid \<times> json \<times> ceremony_kind) store_op" where
  "start_operator_bootstrap sv seed new_id now =
     op_bind (bootstrap_subject sv now) (\<lambda>(user, capability_hash, kind).
     op_bind (op_lift (en_start_registration (sv_engine sv) seed user [])) (\<lambda>(challenge, state).
     op_bind (as_insert_ceremony (sv_store sv)
       \<lparr>cm_id = new_id, cm_kind = kind, cm_user_id = Some (u_id user), cm_capability_hash = capability_hash,
        cm_state = state, cm_expires_at = now + ac_ceremony_ttl (sv_config sv)\<rparr>) (\<lambda>_.
     op_return (new_id, challenge, kind))))"

definition finish_registration ::
    "'s auth_service \<Rightarrow> uuid \<Rightarrow> uuid \<Rightarrow> ceremony_kind \<Rightarrow> json \<Rightarrow> time \<Rightarrow> ('s, unit) store_op" where
  "finish_registration sv new_id ceremony_id kind response now =
     op_bind (op_some InvalidState (as_ceremony (sv_store sv) ceremony_id kind now)) (\<lambda>ceremony.
     op_bind (op_lift (en_finish_registration (sv_engine sv) response (cm_state ceremony))) (\<lambda>credential.
     op_bind (op_lift (ok_or InvalidState (cm_user_id ceremony))) (\<lambda>user_id.
     as_complete_registration (sv_store sv) new_id (cm_id ceremony) (cm_capability_hash ceremony) credential now
       \<lparr>ae_event_type = ''passkey.registered'', ae_actor_user_id = Some user_id, ae_subject_user_id = Some user_id,
        ae_data = JObject [(''ceremony_kind'', ceremony_kind_json kind)]\<rparr>)))"

section \<open>Authentication\<close>

definition start_authentication :: "'s auth_service \<Rightarrow> bytes \<Rightarrow> uuid \<Rightarrow> time \<Rightarrow> ('s, uuid \<times> json) store_op" where
  "start_authentication sv seed new_id now =
     op_bind (op_lift (en_start_authentication (sv_engine sv) seed)) (\<lambda>(challenge, state).
     op_bind (as_insert_ceremony (sv_store sv)
       \<lparr>cm_id = new_id, cm_kind = Authentication, cm_user_id = None, cm_capability_hash = None, cm_state = state,
        cm_expires_at = now + ac_ceremony_ttl (sv_config sv)\<rparr>) (\<lambda>_.
     op_return (new_id, challenge)))"

definition login_record ::
    "'s auth_service \<Rightarrow> uuid \<Rightarrow> secret_token \<Rightarrow> secret_token \<Rightarrow> user \<Rightarrow> time \<Rightarrow> session_record" where
  "login_record sv new_id token csrf user now =
     \<lparr>sr_id = new_id, sr_user_id = u_id user, sr_token_hash = service_hash sv token,
      sr_csrf_hash = service_hash sv csrf, sr_auth_epoch = u_auth_epoch user,
      sr_idle_expires_at = now + ac_session_idle_ttl (sv_config sv),
      sr_absolute_expires_at = now + ac_session_absolute_ttl (sv_config sv)\<rparr>"

definition finish_authentication ::
    "'s auth_service \<Rightarrow> uuid \<Rightarrow> secret_token \<Rightarrow> secret_token \<Rightarrow> uuid \<Rightarrow> json \<Rightarrow> time
       \<Rightarrow> ('s, session_grant \<times> user) store_op" where
  "finish_authentication sv new_id token csrf ceremony_id response now =
     op_bind (op_some InvalidState (as_ceremony (sv_store sv) ceremony_id Authentication now)) (\<lambda>ceremony.
     op_bind (op_lift (en_authentication_user_handle (sv_engine sv) response)) (\<lambda>handle.
     op_bind (op_then (as_user_by_handle (sv_store sv) handle)
               (\<lambda>user. ok_or Unauthenticated (enabled_user user))) (\<lambda>user.
     op_bind (as_credentials_for_user (sv_store sv) (u_id user)) (\<lambda>credentials.
     op_bind (op_lift (en_finish_authentication (sv_engine sv) response (cm_state ceremony) credentials)) (\<lambda>verification.
     op_bind (as_complete_authentication (sv_store sv) ceremony_id verification
       (login_record sv new_id token csrf user now) now
       \<lparr>ae_event_type = ''session.created'', ae_actor_user_id = Some (u_id user),
        ae_subject_user_id = Some (u_id user), ae_data = JObject []\<rparr>) (\<lambda>_.
     op_return (\<lparr>sg_token = token, sg_csrf = csrf, sg_record = login_record sv new_id token csrf user now\<rparr>, user)))))))"

section \<open>Sessions\<close>

definition authenticate_session ::
    "'s auth_service \<Rightarrow> secret_token \<Rightarrow> secret_token option \<Rightarrow> time \<Rightarrow> ('s, session_principal) store_op" where
  "authenticate_session sv token csrf now =
     op_bind (op_some Unauthenticated
       (as_session (sv_store sv) (service_hash sv token) now (now + ac_session_idle_ttl (sv_config sv)))) (\<lambda>principal.
     case csrf of
       Some c \<Rightarrow> if service_hash sv c \<noteq> sp_csrf_hash principal then op_fail Forbidden else op_return principal
     | None \<Rightarrow> op_return principal)"

definition issue_session_csrf ::
    "'s auth_service \<Rightarrow> secret_token \<Rightarrow> secret_token \<Rightarrow> time \<Rightarrow> ('s, session_principal \<times> secret_token) store_op" where
  "issue_session_csrf sv csrf token now =
     op_bind (op_some Unauthenticated
       (as_rotate_session_csrf (sv_store sv) (service_hash sv token) (service_hash sv csrf) now
          (now + ac_session_idle_ttl (sv_config sv)))) (\<lambda>principal.
     op_return (principal, csrf))"

definition logout :: "'s auth_service \<Rightarrow> secret_token \<Rightarrow> ('s, unit) store_op" where
  "logout sv token = as_delete_session (sv_store sv) (service_hash sv token)"

section \<open>Recovery and administration\<close>

definition request_recovery :: "'s auth_service \<Rightarrow> uuid \<Rightarrow> user_id \<Rightarrow> time \<Rightarrow> ('s, recovery_request) store_op" where
  "request_recovery sv new_id user_id now = as_create_recovery (sv_store sv) new_id user_id now"

definition service_pending_recoveries :: "'s auth_service \<Rightarrow> ('s, recovery_request list) store_op" where
  "service_pending_recoveries sv = as_pending_recoveries (sv_store sv)"

definition service_approve_recovery :: "'s auth_service \<Rightarrow> uuid \<Rightarrow> user_id \<Rightarrow> time \<Rightarrow> ('s, unit) store_op" where
  "service_approve_recovery sv recovery_id operator_id now =
     as_approve_recovery (sv_store sv) recovery_id operator_id now"

definition service_issue_recovery_setup ::
    "'s auth_service \<Rightarrow> uuid \<Rightarrow> secret_token \<Rightarrow> uuid \<Rightarrow> user_id \<Rightarrow> user_id \<Rightarrow> time \<Rightarrow> ('s, secret_token) store_op" where
  "service_issue_recovery_setup sv new_id token recovery_id operator_id user_id now =
     op_bind (as_issue_recovery_setup (sv_store sv) recovery_id
       \<lparr>cp_id = new_id, cp_user_id = user_id, cp_purpose = RecoverySetup, cp_token_hash = service_hash sv token,
        cp_expires_at = now + ac_capability_ttl (sv_config sv)\<rparr> operator_id now) (\<lambda>_.
     op_return token)"

definition profile_ok :: "string \<Rightarrow> string \<Rightarrow> bool" where
  "profile_ok email display_name \<longleftrightarrow> \<not> (email = [] \<or> CHR ''@'' \<notin> set email \<or> display_name = [])"

definition new_user :: "user_id \<Rightarrow> uuid \<Rightarrow> string \<Rightarrow> string \<Rightarrow> role \<Rightarrow> user" where
  "new_user user_id handle email display_name role =
     \<lparr>u_id = user_id, u_webauthn_handle = handle, u_email = email, u_display_name = display_name,
      u_role = role, u_enabled = True, u_auth_epoch = 1\<rparr>"

definition approve_user_and_issue_setup ::
    "'s auth_service \<Rightarrow> uuid \<Rightarrow> uuid \<Rightarrow> secret_token \<Rightarrow> user_id \<Rightarrow> user_id \<Rightarrow> string \<Rightarrow> string \<Rightarrow> time
       \<Rightarrow> ('s, secret_token) store_op" where
  "approve_user_and_issue_setup sv handle new_id token operator_id user_id email display_name now =
     (if \<not> profile_ok (trim email) (trim display_name) then op_fail InvalidInput
      else op_bind (as_user_by_id (sv_store sv) user_id) (\<lambda>known.
        if known \<noteq> None then op_fail Conflict
        else op_bind (as_approve_user_with_setup (sv_store sv)
               (new_user user_id handle (trim email) (trim display_name) User)
               \<lparr>cp_id = new_id, cp_user_id = user_id, cp_purpose = Setup, cp_token_hash = service_hash sv token,
                cp_expires_at = now + ac_capability_ttl (sv_config sv)\<rparr> operator_id now) (\<lambda>_.
             op_return token)))"

definition seed_operator ::
    "'s auth_service \<Rightarrow> uuid \<Rightarrow> user_id \<Rightarrow> string \<Rightarrow> string \<Rightarrow> time \<Rightarrow> ('s, unit) store_op" where
  "seed_operator sv handle user_id email display_name now =
     (if \<not> profile_ok (trim email) (trim display_name) then op_fail InvalidInput
      else op_bind (as_user_by_id (sv_store sv) user_id) (\<lambda>known.
        if known \<noteq> None then op_fail Conflict
        else op_bind (as_operator_exists (sv_store sv)) (\<lambda>exists.
          if exists then op_fail Conflict
          else as_insert_user (sv_store sv) (new_user user_id handle (trim email) (trim display_name) Operator) now
                 \<lparr>ae_event_type = ''operator.seeded'', ae_actor_user_id = None,
                  ae_subject_user_id = Some user_id, ae_data = JObject []\<rparr>)))"

definition service_rotate_all_auth_epochs :: "'s auth_service \<Rightarrow> time \<Rightarrow> string \<Rightarrow> ('s, u64) store_op" where
  "service_rotate_all_auth_epochs sv now reason =
     (if length (trim reason) < 12 then op_fail InvalidInput
      else as_rotate_all_auth_epochs (sv_store sv) now (trim reason))"

section \<open>The PostgreSQL store as an \<open>AuthStore\<close>\<close>

definition pg_auth_store :: "pg auth_store" where
  "pg_auth_store =
     \<lparr>as_user_by_id = user_by_id, as_user_by_handle = user_by_handle,
      as_credentials_for_user = credentials_for_user,
      as_operator_without_credential = operator_without_credential, as_operator_exists = operator_exists,
      as_operator_recovery_window = operator_recovery_window, as_capability = Pg_Store.capability,
      as_insert_capability = insert_capability, as_insert_user = insert_user,
      as_approve_user_with_setup = approve_user_with_setup, as_rotate_all_auth_epochs = rotate_all_auth_epochs,
      as_insert_ceremony = insert_ceremony, as_ceremony = Pg_Store.ceremony,
      as_complete_registration = complete_registration, as_complete_authentication = complete_authentication,
      as_session = session, as_rotate_session_csrf = rotate_session_csrf, as_delete_session = delete_session,
      as_create_recovery = create_recovery, as_pending_recoveries = pending_recoveries,
      as_approve_recovery = approve_recovery, as_issue_recovery_setup = issue_recovery_setup,
      as_break_glass = break_glass\<rparr>"

lemma pg_auth_store_simps [simp]:
  "as_user_by_id pg_auth_store = user_by_id"
  "as_user_by_handle pg_auth_store = user_by_handle"
  "as_credentials_for_user pg_auth_store = credentials_for_user"
  "as_operator_without_credential pg_auth_store = operator_without_credential"
  "as_operator_exists pg_auth_store = operator_exists"
  "as_operator_recovery_window pg_auth_store = operator_recovery_window"
  "as_capability pg_auth_store = Pg_Store.capability"
  "as_insert_capability pg_auth_store = insert_capability"
  "as_insert_user pg_auth_store = insert_user"
  "as_approve_user_with_setup pg_auth_store = approve_user_with_setup"
  "as_rotate_all_auth_epochs pg_auth_store = rotate_all_auth_epochs"
  "as_insert_ceremony pg_auth_store = insert_ceremony"
  "as_ceremony pg_auth_store = Pg_Store.ceremony"
  "as_complete_registration pg_auth_store = complete_registration"
  "as_complete_authentication pg_auth_store = complete_authentication"
  "as_session pg_auth_store = session"
  "as_rotate_session_csrf pg_auth_store = rotate_session_csrf"
  "as_delete_session pg_auth_store = delete_session"
  "as_create_recovery pg_auth_store = create_recovery"
  "as_pending_recoveries pg_auth_store = pending_recoveries"
  "as_approve_recovery pg_auth_store = approve_recovery"
  "as_issue_recovery_setup pg_auth_store = issue_recovery_setup"
  "as_break_glass pg_auth_store = break_glass"
  by (simp_all add: pg_auth_store_def)

section \<open>Every service call is a run of the store\<close>

locale auth_store_steps = step_relation R for R :: "'s \<Rightarrow> 's \<Rightarrow> bool" +
  fixes store :: "'s auth_store"
  assumes reads: "op_rel R (as_user_by_id store i)" "op_rel R (as_user_by_handle store w)"
      "op_rel R (as_credentials_for_user store i)" "op_rel R (as_operator_without_credential store)"
      "op_rel R (as_operator_exists store)" "op_rel R (as_operator_recovery_window store now)"
      "op_rel R (as_capability store h purpose now)" "op_rel R (as_ceremony store w k now)"
      "op_rel R (as_pending_recoveries store)"
    and writes: "op_rel R (as_insert_capability store c)" "op_rel R (as_insert_ceremony store e)"
      "op_rel R (as_complete_registration store w x oh credential now audit)"
      "op_rel R (as_complete_authentication store w v n now audit)"
      "op_rel R (as_session store h now idle)" "op_rel R (as_rotate_session_csrf store h csrf now idle)"
      "op_rel R (as_delete_session store h)" "op_rel R (as_create_recovery store w i now)"
      "op_rel R (as_approve_recovery store w i now)" "op_rel R (as_issue_recovery_setup store w c i now)"
      "op_rel R (as_break_glass store w c now reason)" "op_rel R (as_rotate_all_auth_epochs store now reason)"
    and creates: "user_ok u \<Longrightarrow> op_rel R (as_insert_user store u now audit)"
      "user_ok u \<Longrightarrow> op_rel R (as_approve_user_with_setup store u c i now)"
begin

lemma rel_some: "op_rel R m \<Longrightarrow> op_rel R (op_some e m)"
  unfolding op_some_def by (rule op_rel_then)

lemmas service_intros = rel_return rel_fail rel_lift rel_bind op_rel_map_err op_rel_then op_rel_void
  rel_some op_rel_cases reads writes creates

lemma new_user_ok: "user_id_ok i \<Longrightarrow> user_ok (new_user i w email name r)"
  by (simp add: user_ok_def new_user_def epoch_ok_def i64_max_def)

lemma service_rel:
  assumes "sv_store sv = store"
  shows "op_rel R (start_setup_registration sv seed new_id token purpose now)"
    and "op_rel R (start_operator_bootstrap sv seed new_id now)"
    and "op_rel R (finish_registration sv new_id w k response now)"
    and "op_rel R (start_authentication sv seed new_id now)"
    and "op_rel R (finish_authentication sv new_id token csrf w response now)"
    and "op_rel R (authenticate_session sv token ocsrf now)"
    and "op_rel R (issue_session_csrf sv csrf token now)"
    and "op_rel R (logout sv token)"
    and "op_rel R (request_recovery sv new_id i now)"
    and "op_rel R (service_pending_recoveries sv)"
    and "op_rel R (service_approve_recovery sv w i now)"
    and "op_rel R (service_issue_recovery_setup sv new_id token w i j now)"
    and "op_rel R (service_rotate_all_auth_epochs sv now reason)"
  unfolding start_setup_registration_def bootstrap_subject_def start_operator_bootstrap_def finish_registration_def
    start_authentication_def finish_authentication_def authenticate_session_def issue_session_csrf_def
    logout_def request_recovery_def service_pending_recoveries_def service_approve_recovery_def
    service_issue_recovery_setup_def service_rotate_all_auth_epochs_def assms
  by (intro service_intros)+

lemma service_creates_rel:
  assumes "sv_store sv = store" and "user_id_ok i"
  shows "op_rel R (approve_user_and_issue_setup sv handle new_id token operator_id i email name now)"
    and "op_rel R (seed_operator sv handle i email name now)"
  unfolding approve_user_and_issue_setup_def seed_operator_def assms(1)
  by (intro service_intros new_user_ok assms(2))+

end

lemma op_rel_store_run: "store_call (op_void f) \<Longrightarrow> op_rel store_run f"
  by (rule op_relI) (rule store_run_void)

interpretation run: auth_store_steps store_run pg_auth_store
  by unfold_locales
    (auto intro: store_run_trans op_rel_store_run store_call.intros)

end
