(* ===== verification/Auth_Sessions.thy ===== *)
theory Auth_Sessions
  imports Auth_Service
begin

text \<open>
  Sessions as the service promises them: an abstract machine over a map from token hashes to
  sessions, the contract \<open>session_store\<close> under which a store implements it, the client's lemmas on
  logging in, authenticating and logging out, and the interpretation on the PostgreSQL store.
\<close>

section \<open>The abstract session machine\<close>

record session_entry =
  en_principal :: session_principal
  en_idle :: time
  en_absolute :: time

type_synonym sessions = "secret_hash \<Rightarrow> session_entry option"

definition entry_live :: "session_entry \<Rightarrow> time \<Rightarrow> bool" where
  "entry_live v now \<longleftrightarrow> now < en_idle v \<and> now < en_absolute v"

definition sessions_lookup :: "sessions \<Rightarrow> secret_hash \<Rightarrow> time \<Rightarrow> session_principal option" where
  "sessions_lookup m h now =
     (case m h of None \<Rightarrow> None | Some v \<Rightarrow> if entry_live v now then Some (en_principal v) else None)"

definition sessions_touch :: "sessions \<Rightarrow> secret_hash \<Rightarrow> secret_hash option \<Rightarrow> time \<Rightarrow> time \<Rightarrow> sessions" where
  "sessions_touch m h csrf now idle =
     (case m h of
        None \<Rightarrow> m
      | Some v \<Rightarrow>
          if entry_live v now
          then m(h \<mapsto> v\<lparr>en_idle := min idle (en_absolute v),
                        en_principal := (case csrf of None \<Rightarrow> en_principal v
                                         | Some c \<Rightarrow> (en_principal v)\<lparr>sp_csrf_hash := c\<rparr>)\<rparr>)
          else m)"

definition sessions_logout :: "sessions \<Rightarrow> secret_hash \<Rightarrow> sessions" where
  "sessions_logout m h = m(h := None)"

definition sessions_login :: "sessions \<Rightarrow> session_record \<Rightarrow> user \<Rightarrow> sessions" where
  "sessions_login m r u =
     m(sr_token_hash r \<mapsto>
        \<lparr>en_principal = \<lparr>sp_session_id = sr_id r, sp_user = u, sp_csrf_hash = sr_csrf_hash r,
                         sp_absolute_expires_at = sr_absolute_expires_at r\<rparr>,
         en_idle = sr_idle_expires_at r, en_absolute = sr_absolute_expires_at r\<rparr>)"

section \<open>The contract of a session store\<close>

lemma op_some_Inr: "op_some e m s = (Inr x, s') \<longleftrightarrow> m s = (Inr (Some x), s')"
  by (auto simp: op_some_def op_then_Inr ok_or_eq_iff)

lemma op_lift_Inr: "op_lift q s = (Inr x, s') \<longleftrightarrow> q = Inr x \<and> s' = s"
  by (auto simp: op_lift_def)

lemma finish_authentication_steps:
  assumes "finish_authentication sv new_id token csrf i response now s = (Inr (g, u), s')"
  obtains c s1 w ou s2 cs s3 v audit where
      "as_ceremony (sv_store sv) i Authentication now s = (Inr (Some c), s1)"
    and "en_authentication_user_handle (sv_engine sv) response = Inr w"
    and "as_user_by_handle (sv_store sv) w s1 = (Inr ou, s2)" and "enabled_user ou = Some u"
    and "as_credentials_for_user (sv_store sv) (u_id u) s2 = (Inr cs, s3)"
    and "en_finish_authentication (sv_engine sv) response (cm_state c) cs = Inr v"
    and "as_complete_authentication (sv_store sv) i v (login_record sv new_id token csrf u now) now audit s3 = (Inr (), s')"
    and "g = \<lparr>sg_token = token, sg_csrf = csrf, sg_record = login_record sv new_id token csrf u now\<rparr>"
proof (rule op_bindE [OF assms [unfolded finish_authentication_def]])
  fix c s1
  assume c: "op_some InvalidState (as_ceremony (sv_store sv) i Authentication now) s = (Inr c, s1)"
  assume rest: "op_bind (op_lift (en_authentication_user_handle (sv_engine sv) response)) (\<lambda>handle.
     op_bind (op_then (as_user_by_handle (sv_store sv) handle)
               (\<lambda>user. ok_or Unauthenticated (enabled_user user))) (\<lambda>user.
     op_bind (as_credentials_for_user (sv_store sv) (u_id user)) (\<lambda>credentials.
     op_bind (op_lift (en_finish_authentication (sv_engine sv) response (cm_state c) credentials)) (\<lambda>verification.
     op_bind (as_complete_authentication (sv_store sv) i verification
       (login_record sv new_id token csrf user now) now
       \<lparr>ae_event_type = ''session.created'', ae_actor_user_id = Some (u_id user),
        ae_subject_user_id = Some (u_id user), ae_data = JObject []\<rparr>) (\<lambda>_.
     op_return (\<lparr>sg_token = token, sg_csrf = csrf, sg_record = login_record sv new_id token csrf user now\<rparr>, user))))))
     s1 = (Inr (g, u), s')"
  from rest show thesis
    by (elim op_bindE) (use c in \<open>auto simp: op_some_Inr op_then_Inr op_lift_Inr op_return_eq ok_or_eq_iff intro: that\<close>)
qed

text \<open>
  \<open>ok\<close> holds of the states in which the store answers; \<open>view\<close> is its abstract content and \<open>known\<close>
  the users it has.
\<close>

locale session_store =
  fixes store :: "'s auth_store" and ok :: "'s \<Rightarrow> bool" and view :: "'s \<Rightarrow> sessions"
    and known :: "'s \<Rightarrow> user_id \<Rightarrow> user option"
  assumes session_law: "ok s \<Longrightarrow> as_session store h now idle s = (r, s') \<Longrightarrow>
      r = Inr (sessions_lookup (view s) h now) \<and> view s' = sessions_touch (view s) h None now idle \<and> ok s'"
    and csrf_law: "ok s \<Longrightarrow> hash_ok c \<Longrightarrow> as_rotate_session_csrf store h c now idle s = (r, s') \<Longrightarrow>
      r = Inr (map_option (\<lambda>p. p\<lparr>sp_csrf_hash := c\<rparr>) (sessions_lookup (view s) h now))
      \<and> view s' = sessions_touch (view s) h (Some c) now idle \<and> ok s'"
    and logout_law: "ok s \<Longrightarrow> as_delete_session store h s = (r0, s') \<Longrightarrow>
      r0 = Inr () \<and> view s' = sessions_logout (view s) h \<and> ok s'"
    and login_law: "ok s \<Longrightarrow> as_complete_authentication store i v n now audit s = (Inr (), s') \<Longrightarrow>
      known s (sr_user_id n) = Some u \<Longrightarrow> u_enabled u \<Longrightarrow> u_auth_epoch u = sr_auth_epoch n \<Longrightarrow>
      view s' = sessions_login (view s) n u \<and> ok s'"
    and read_laws: "ok s \<Longrightarrow> as_ceremony store i k now s = (r1, s') \<Longrightarrow> s' = s"
      "ok s \<Longrightarrow> as_credentials_for_user store j s = (r2, s') \<Longrightarrow> s' = s"
      "ok s \<Longrightarrow> as_user_by_handle store w s = (r3, s') \<Longrightarrow> s' = s"
    and user_law: "ok s \<Longrightarrow> as_user_by_handle store w s = (Inr (Some u), s') \<Longrightarrow> known s (u_id u) = Some u"
begin

text \<open>What \<open>authenticate_session\<close> answers, and what it leaves: also a wrong CSRF token counts as use.\<close>

lemma authenticate_session_exact:
  assumes "sv_store sv = store" and "ok s" and "authenticate_session sv token csrf now s = (r, s')"
  shows "r = (case sessions_lookup (view s) (service_hash sv token) now of
      None \<Rightarrow> Inl Unauthenticated
    | Some p \<Rightarrow> if \<exists>c. csrf = Some c \<and> service_hash sv c \<noteq> sp_csrf_hash p then Inl Forbidden else Inr p)"
    and "view s' = sessions_touch (view s) (service_hash sv token) None now (now + ac_session_idle_ttl (sv_config sv))"
    and "ok s'"
proof -
  obtain q t where run: "as_session store (service_hash sv token) now (now + ac_session_idle_ttl (sv_config sv)) s = (q, t)"
    by fastforce
  from session_law [OF assms(2) run] have q: "q = Inr (sessions_lookup (view s) (service_hash sv token) now)"
    and v: "view t = sessions_touch (view s) (service_hash sv token) None now (now + ac_session_idle_ttl (sv_config sv))"
    and t: "ok t" by simp_all
  have "s' = t \<and> r = (case sessions_lookup (view s) (service_hash sv token) now of
      None \<Rightarrow> Inl Unauthenticated
    | Some p \<Rightarrow> if \<exists>c. csrf = Some c \<and> service_hash sv c \<noteq> sp_csrf_hash p then Inl Forbidden else Inr p)"
    using assms(3) run q
    by (auto simp: authenticate_session_def assms(1) op_some_def op_defs split: option.splits if_splits)
  with v t show "r = (case sessions_lookup (view s) (service_hash sv token) now of
      None \<Rightarrow> Inl Unauthenticated
    | Some p \<Rightarrow> if \<exists>c. csrf = Some c \<and> service_hash sv c \<noteq> sp_csrf_hash p then Inl Forbidden else Inr p)"
    and "view s' = sessions_touch (view s) (service_hash sv token) None now (now + ac_session_idle_ttl (sv_config sv))"
    and "ok s'" by simp_all
qed

lemma finish_authentication_view:
  assumes "sv_store sv = store" and "ok s"
    and "finish_authentication sv new_id token csrf i response now s = (Inr (g, u), s')"
  shows "view s' = sessions_login (view s) (login_record sv new_id token csrf u now) u" and "ok s'"
    and "g = \<lparr>sg_token = token, sg_csrf = csrf, sg_record = login_record sv new_id token csrf u now\<rparr>"
    and "u_enabled u" and "known s (u_id u) = Some u"
proof -
  let ?n = "login_record sv new_id token csrf u now"
  obtain c s1 w ou s2 cs s3 v audit where
      c: "as_ceremony store i Authentication now s = (Inr (Some c), s1)"
    and "en_authentication_user_handle (sv_engine sv) response = Inr w"
    and h: "as_user_by_handle store w s1 = (Inr ou, s2)" and u: "enabled_user ou = Some u"
    and k: "as_credentials_for_user store (u_id u) s2 = (Inr cs, s3)"
    and "en_finish_authentication (sv_engine sv) response (cm_state c) cs = Inr v"
    and l: "as_complete_authentication store i v ?n now audit s3 = (Inr (), s')"
    and g: "g = \<lparr>sg_token = token, sg_csrf = csrf, sg_record = ?n\<rparr>"
    using finish_authentication_steps [OF assms(3), unfolded assms(1)] .
  have "s1 = s" using read_laws(1) [OF assms(2) c] .
  with h have h': "as_user_by_handle store w s = (Inr ou, s2)" by simp
  have "s2 = s" using read_laws(3) [OF assms(2) h'] .
  with k have "s3 = s" using read_laws(2) [OF assms(2)] by simp
  with l have l': "as_complete_authentication store i v ?n now audit s = (Inr (), s')" by simp
  from u have ou: "ou = Some u" and en: "u_enabled u" by (auto simp: enabled_user_def split: option.splits if_splits)
  have known: "known s (u_id u) = Some u" using user_law [OF assms(2)] h' ou by simp
  have "known s (sr_user_id ?n) = Some u" and "u_auth_epoch u = sr_auth_epoch ?n"
    by (simp_all add: login_record_def known)
  from login_law [OF assms(2) l' this(1) en this(2)]
  show "view s' = sessions_login (view s) ?n u" and "ok s'" by (rule conjunct1, rule conjunct2)
  show "g = \<lparr>sg_token = token, sg_csrf = csrf, sg_record = ?n\<rparr>" and "u_enabled u" and "known s (u_id u) = Some u"
    using g en known by simp_all
qed

text \<open>The fresh session is good until the idle limit, with its own CSRF token.\<close>

lemma login_then_authenticate:
  assumes "sv_store sv = store" and "ok s"
    and "finish_authentication sv new_id token csrf i response now s = (Inr (g, u), s1)"
    and "authenticate_session sv token ocsrf t s1 = (r, s2)"
  shows "r = (if t < now + ac_session_idle_ttl (sv_config sv) \<and> t < now + ac_session_absolute_ttl (sv_config sv)
      then if \<exists>c. ocsrf = Some c \<and> service_hash sv c \<noteq> service_hash sv csrf then Inl Forbidden
           else Inr \<lparr>sp_session_id = new_id, sp_user = u, sp_csrf_hash = service_hash sv csrf,
                     sp_absolute_expires_at = now + ac_session_absolute_ttl (sv_config sv)\<rparr>
      else Inl Unauthenticated)"
proof -
  note login = finish_authentication_view [OF assms(1-3)]
  show ?thesis
    using authenticate_session_exact(1) [OF assms(1) login(2) assms(4)]
    by (auto simp: login(1) sessions_login_def sessions_lookup_def entry_live_def login_record_def)
qed

end

section \<open>The sessions of the database\<close>

definition session_valid :: "auth_session \<Rightarrow> human_user \<Rightarrow> bool" where
  "session_valid n u \<longleftrightarrow> ur_id u = se_user_id n \<and> se_revoked_at n = None \<and> ur_enabled u
     \<and> se_auth_epoch n = ur_auth_epoch u"

definition entry_of :: "auth_session \<Rightarrow> human_user \<Rightarrow> session_entry" where
  "entry_of n u = \<lparr>en_principal = principal_of n u, en_idle = se_idle_expires_at n,
     en_absolute = se_absolute_expires_at n\<rparr>"

definition session_view :: "db \<Rightarrow> sessions" where
  "session_view d h = limit_1 [entry_of n u. n \<leftarrow> db_sessions d, u \<leftarrow> db_users d,
     se_token_hash n = as_bytes h \<and> session_valid n u]"

lemma session_live_valid:
  "session_live now n u \<longleftrightarrow> session_valid n u \<and> now < se_idle_expires_at n \<and> now < se_absolute_expires_at n"
  by (auto simp: session_live_def session_valid_def)

lemma limit_1_eq_Some: "x \<in> set xs \<Longrightarrow> (\<And>y. y \<in> set xs \<Longrightarrow> y = x) \<Longrightarrow> limit_1 xs = Some x"
proof (cases xs)
  case (Cons y ys)
  assume "\<And>y. y \<in> set xs \<Longrightarrow> y = x"
  from this [of y] Cons show ?thesis by (simp add: limit_1_def)
qed simp

lemma wf_session_unique:
  assumes "db_wf d" and "n \<in> set (db_sessions d)" and "m \<in> set (db_sessions d)" and "se_token_hash n = se_token_hash m"
  shows "n = m"
  by (rule distinct_map_eq [where f = se_token_hash, OF _ assms(2-4)]) (use assms(1) in \<open>simp add: db_wf_def sessions_wf_def\<close>)

lemma wf_user_unique:
  assumes "db_wf d" and "u \<in> set (db_users d)" and "v \<in> set (db_users d)" and "ur_id u = ur_id v"
  shows "u = v"
  by (rule distinct_map_eq [where f = ur_id, OF _ assms(2-4)]) (use assms(1) in \<open>simp add: db_wf_def users_wf_def\<close>)

lemma session_view_Some:
  assumes "db_wf d"
  shows "session_view d h = Some v \<longleftrightarrow>
    (\<exists>n\<in>set (db_sessions d). \<exists>u\<in>set (db_users d). se_token_hash n = as_bytes h \<and> session_valid n u \<and> v = entry_of n u)"
    (is "?L \<longleftrightarrow> ?R")
proof
  assume ?L
  from limit_1_Some [OF this [unfolded session_view_def]] show ?R by auto
next
  assume ?R
  then obtain n u where nu: "n \<in> set (db_sessions d)" "u \<in> set (db_users d)" "se_token_hash n = as_bytes h"
    "session_valid n u" and v: "v = entry_of n u" by blast
  have "m = n \<and> w = u" if "m \<in> set (db_sessions d)" "w \<in> set (db_users d)" "se_token_hash m = as_bytes h"
    "session_valid m w" for m w
  proof -
    have "m = n" using wf_session_unique [OF assms that(1) nu(1)] that(3) nu(3) by simp
    moreover from this have "w = u"
      using wf_user_unique [OF assms that(2) nu(2)] that(4) nu(4) by (simp add: session_valid_def)
    ultimately show ?thesis by simp
  qed
  then have "y = entry_of n u" if "y \<in> set [entry_of n u. n \<leftarrow> db_sessions d, u \<leftarrow> db_users d,
      se_token_hash n = as_bytes h \<and> session_valid n u]" for y
    using that by auto
  with nu show ?L unfolding session_view_def v by (intro limit_1_eq_Some) (simp, blast)
qed

lemma session_view_None:
  "session_view d h = None \<longleftrightarrow>
    \<not> (\<exists>n\<in>set (db_sessions d). \<exists>u\<in>set (db_users d). se_token_hash n = as_bytes h \<and> session_valid n u)"
  by (auto simp: session_view_def limit_1_None)

lemma live_session_view:
  assumes "db_wf d"
  shows "live_session h now d = None \<Longrightarrow> sessions_lookup (session_view d) h now = None \<and>
      sessions_touch (session_view d) h csrf now idle = session_view d"
    and "live_session h now d = Some (n, u) \<Longrightarrow> session_view d h = Some (entry_of n u) \<and> entry_live (entry_of n u) now"
proof -
  assume none: "live_session h now d = None"
  have "\<not> entry_live v now" if "session_view d h = Some v" for v
    using none that by (auto simp: live_session_None session_view_Some [OF assms] entry_live_def entry_of_def session_live_valid)
  then show "sessions_lookup (session_view d) h now = None \<and> sessions_touch (session_view d) h csrf now idle = session_view d"
    by (auto simp: sessions_lookup_def sessions_touch_def split: option.splits)
next
  assume some: "live_session h now d = Some (n, u)"
  from live_session_Some [OF this]
  show "session_view d h = Some (entry_of n u) \<and> entry_live (entry_of n u) now"
    by (auto simp: session_view_Some [OF assms] session_live_valid entry_live_def entry_of_def)
qed


section \<open>The PostgreSQL store implements the machine\<close>

lemma option_eqI: "(\<And>v. x = Some v \<longleftrightarrow> y = Some v) \<Longrightarrow> x = y"
  by (cases x; cases y) auto

lemma as_bytes_inject: "as_bytes g = as_bytes h \<longleftrightarrow> g = h"
  by (cases g; cases h) auto

text \<open>Two databases with the same users whose sessions differ in one row.\<close>

lemma session_view_other:
  assumes "db_wf d" and "db_wf d'" and "db_users d' = db_users d"
    and "\<And>n. se_token_hash n = as_bytes g \<Longrightarrow> n \<in> set (db_sessions d') \<longleftrightarrow> n \<in> set (db_sessions d)"
  shows "session_view d' g = session_view d g"
  by (rule option_eqI) (use assms(3,4) in \<open>auto simp: session_view_Some [OF assms(1)] session_view_Some [OF assms(2)]\<close>)

lemma session_view_replace:
  assumes "db_wf d" and "db_wf d'" and "db_users d' = db_users d"
    and "db_sessions d' = update_where (\<lambda>m. se_id m = se_id n) f (db_sessions d)"
    and n: "n \<in> set (db_sessions d)" "se_token_hash n = as_bytes h" and u: "u \<in> set (db_users d)"
    and f: "\<And>m. se_token_hash (f m) = se_token_hash m" and valid: "session_valid (f n) u"
  shows "session_view d' = (session_view d)(h \<mapsto> entry_of (f n) u)"
proof
  fix g
  have same: "m = n" if "m \<in> set (db_sessions d)" "se_id m = se_id n" for m
    by (rule distinct_map_eq [where f = se_id, OF _ that(1) n(1) that(2)])
      (use assms(1) in \<open>simp add: db_wf_def sessions_wf_def\<close>)
  show "session_view d' g = ((session_view d)(h \<mapsto> entry_of (f n) u)) g"
  proof (cases "g = h")
    case True
    have "f n \<in> set (db_sessions d')" using n(1) by (auto simp: assms(4) set_update_where)
    with n(2) u valid have "session_view d' h = Some (entry_of (f n) u)"
      by (subst session_view_Some [OF assms(2)]) (auto simp: f assms(3) intro!: bexI [of _ "f n"] bexI [of _ u])
    with True show ?thesis by simp
  next
    case False
    have "m \<in> set (db_sessions d') \<longleftrightarrow> m \<in> set (db_sessions d)" if "se_token_hash m = as_bytes g" for m
    proof -
      have "m \<noteq> n" and "m \<noteq> f n" using that False n(2) f [of n] by (auto simp: as_bytes_inject)
      then show ?thesis using same by (auto simp: assms(4) set_update_where)
    qed
    with session_view_other [OF assms(1-3)] False show ?thesis by simp
  qed
qed

definition store_ok :: "pg \<Rightarrow> bool" where
  "store_ok s \<longleftrightarrow> db_wf (pg_db s) \<and> pg_net s = []"

definition pg_view :: "pg \<Rightarrow> sessions" where
  "pg_view s = session_view (pg_db s)"

definition known_user :: "pg \<Rightarrow> user_id \<Rightarrow> user option" where
  "known_user s i = map_option user_of_row (List.find (\<lambda>u. ur_id u = user_str i) (db_users (pg_db s)))"

lemma store_ok_call:
  assumes "store_ok s" and "store_call (op_void f)" and "f s = (r, s')"
  shows "store_ok s'"
proof -
  have "net_shrinks s s'"
    using net.store_call_rel [OF assms(2)] assms(3) by (auto simp: op_rel_def op_void_def split: prod.splits)
  moreover have "db_wf (pg_db s')"
    using store_run_keeps(1) [OF store_run_void [OF assms(2,3)]] assms(1) by (simp add: store_ok_def)
  ultimately show ?thesis using assms(1) by (auto simp: store_ok_def net_shrinks_def)
qed

lemma touch_session_view:
  assumes "store_ok s" and "live_session h now (pg_db s) = Some (n, u)" and "db_wf d'"
    and "d' = (pg_db s)\<lparr>db_sessions := update_where (\<lambda>m. se_id m = se_id n)
       (\<lambda>m. (case csrf of None \<Rightarrow> m | Some c \<Rightarrow> m\<lparr>se_csrf_hash := as_bytes c\<rparr>)
          \<lparr>se_idle_expires_at := min idle (se_absolute_expires_at n), se_last_seen_at := now\<rparr>)
       (db_sessions (pg_db s))\<rparr>"
  shows "session_view d' = sessions_touch (session_view (pg_db s)) h csrf now idle"
proof -
  let ?f = "\<lambda>m. (case csrf of None \<Rightarrow> m | Some c \<Rightarrow> m\<lparr>se_csrf_hash := as_bytes c\<rparr>)
          \<lparr>se_idle_expires_at := min idle (se_absolute_expires_at n), se_last_seen_at := now\<rparr>"
  have wf: "db_wf (pg_db s)" using assms(1) by (simp add: store_ok_def)
  note live = live_session_Some [OF assms(2)]
  have "session_view d' = (session_view (pg_db s))(h \<mapsto> entry_of (?f n) u)"
    by (rule session_view_replace [OF wf assms(3) _ _ live(1,3,2)])
      (use live(4) in \<open>auto simp: assms(4) session_live_valid session_valid_def split: option.splits\<close>)
  moreover have "entry_of (?f n) u = (entry_of n u)\<lparr>en_idle := min idle (en_absolute (entry_of n u)),
      en_principal := (case csrf of None \<Rightarrow> en_principal (entry_of n u)
        | Some c \<Rightarrow> (en_principal (entry_of n u))\<lparr>sp_csrf_hash := c\<rparr>)\<rparr>"
    by (cases csrf) (simp_all add: entry_of_def principal_of_def)
  ultimately show ?thesis using live_session_view(2) [OF wf assms(2)] by (simp add: sessions_touch_def)
qed

lemma pg_session_law:
  assumes "store_ok s" and "session h now idle s = (r, s')"
  shows "r = Inr (sessions_lookup (pg_view s) h now) \<and> pg_view s' = sessions_touch (pg_view s) h None now idle \<and> store_ok s'"
proof -
  have wf: "db_wf (pg_db s)" and net: "pg_net s = []" using assms(1) by (simp_all add: store_ok_def)
  have ok: "store_ok s'" using store_ok_call [OF assms(1) call_session assms(2)] .
  show ?thesis
  proof (cases "live_session h now (pg_db s)")
    case None
    with session_served [OF wf net, of h now idle] assms(2) have "r = Inr None" and "s' = s" by simp_all
    with live_session_view(1) [OF wf None] ok show ?thesis by (simp add: pg_view_def)
  next
    case (Some x)
    obtain n u where x: "x = (n, u)" by (cases x)
    with session_served [OF wf net, of h now idle] assms(2) Some
    have r: "r = Inr (Some (principal_of n u))" and s': "pg_db s' = session_seen n now idle (pg_db s)" by auto
    have "pg_view s' = sessions_touch (pg_view s) h None now idle"
      unfolding pg_view_def using touch_session_view [OF assms(1) Some [unfolded x], where csrf = None and idle = idle] ok
      by (simp add: s' session_seen_def store_ok_def)
    with r ok live_session_view(2) [OF wf Some [unfolded x]] show ?thesis
      by (simp add: sessions_lookup_def pg_view_def entry_of_def)
  qed
qed

lemma pg_csrf_law:
  assumes "store_ok s" and "hash_ok c" and "rotate_session_csrf h c now idle s = (r, s')"
  shows "r = Inr (map_option (\<lambda>p. p\<lparr>sp_csrf_hash := c\<rparr>) (sessions_lookup (pg_view s) h now))
    \<and> pg_view s' = sessions_touch (pg_view s) h (Some c) now idle \<and> store_ok s'"
proof -
  have wf: "db_wf (pg_db s)" and net: "pg_net s = []" using assms(1) by (simp_all add: store_ok_def)
  have ok: "store_ok s'" using store_ok_call [OF assms(1) call_rotate_session_csrf assms(3)] .
  show ?thesis
  proof (cases "live_session h now (pg_db s)")
    case None
    with assms(3) have "r = Inr None" and "s' = s"
      by (simp_all add: rotate_session_csrf_def op_then_def touch_session_absent net)
    with live_session_view(1) [OF wf None] ok show ?thesis by (simp add: pg_view_def)
  next
    case (Some x)
    obtain n u where x: "x = (n, u)" by (cases x)
    note live = live_session_Some [OF Some [unfolded x]]
    note touched = touch_session_served [OF net Some [unfolded x], of "Some c" idle]
    from touched assms(2,3) have r: "r = Inr (Some ((principal_of n u)\<lparr>sp_csrf_hash := c\<rparr>))"
      and s': "pg_db s' = (pg_db s)\<lparr>db_sessions := update_where (\<lambda>m. se_id m = se_id n)
       (\<lambda>m. m\<lparr>se_csrf_hash := as_bytes c, se_idle_expires_at := min idle (se_absolute_expires_at n), se_last_seen_at := now\<rparr>)
       (db_sessions (pg_db s))\<rparr>"
      by (auto simp: rotate_session_csrf_def op_then_def User_try_from_wf [OF wf live(2)] principal_of_def)
    have "pg_view s' = sessions_touch (pg_view s) h (Some c) now idle"
      unfolding pg_view_def using touch_session_view [OF assms(1) Some [unfolded x], where csrf = "Some c" and idle = idle] ok
      by (simp add: s' store_ok_def)
    with r ok live_session_view(2) [OF wf Some [unfolded x]] show ?thesis
      by (simp add: sessions_lookup_def pg_view_def entry_of_def)
  qed
qed

lemma delete_session_served:
  "pg_net s = [] \<Longrightarrow> delete_session h s = (Inr (), s\<lparr>pg_db := (pg_db s)\<lparr>db_sessions := update_where
     (\<lambda>n. se_token_hash n = as_bytes h \<and> se_revoked_at n = None) (\<lambda>n. n\<lparr>se_revoked_at := Some (pg_clock s)\<rparr>)
     (db_sessions (pg_db s))\<rparr>\<rparr>)"
  by (simp add: delete_session_def db_now_def op_defs exec_pool_def round_trip_def run_stmt_def store_err_def
      upd_sessions_revoked_def)

lemma pg_logout_law:
  assumes "store_ok s" and "delete_session h s = (r, s')"
  shows "r = Inr () \<and> pg_view s' = sessions_logout (pg_view s) h \<and> store_ok s'"
proof -
  have wf: "db_wf (pg_db s)" and net: "pg_net s = []" using assms(1) by (simp_all add: store_ok_def)
  have ok: "store_ok s'" using store_ok_call [OF assms(1) call_delete_session assms(2)] .
  then have wf': "db_wf (pg_db s')" by (simp add: store_ok_def)
  have r: "r = Inr ()" and rows: "db_sessions (pg_db s') = update_where
     (\<lambda>n. se_token_hash n = as_bytes h \<and> se_revoked_at n = None) (\<lambda>n. n\<lparr>se_revoked_at := Some (pg_clock s)\<rparr>)
     (db_sessions (pg_db s))" and users: "db_users (pg_db s') = db_users (pg_db s)"
    using delete_session_served [OF net, of h] assms(2) by auto
  have "session_view (pg_db s') g = (sessions_logout (session_view (pg_db s)) h) g" for g
  proof (cases "g = h")
    case True
    have "session_view (pg_db s') h = None"
      by (auto simp: session_view_None rows users set_update_where session_valid_def split: if_splits)
    with True show ?thesis by (simp add: sessions_logout_def)
  next
    case False
    have "n \<in> set (db_sessions (pg_db s')) \<longleftrightarrow> n \<in> set (db_sessions (pg_db s))" if "se_token_hash n = as_bytes g" for n
      using that False by (auto simp: rows set_update_where as_bytes_inject split: if_splits)
    with session_view_other [OF wf wf' users] False show ?thesis by (simp add: sessions_logout_def)
  qed
  then show ?thesis using r ok by (auto simp: pg_view_def)
qed

lemma find_SomeD: "List.find P xs = Some x \<Longrightarrow> x \<in> set xs \<and> P x"
  by (auto simp: find_Some_iff)

lemma known_user_row:
  assumes "known_user s i = Some u"
  obtains r where "r \<in> set (db_users (pg_db s))" and "ur_id r = user_str i" and "u = user_of_row r"
  using assms by (auto simp: known_user_def dest: find_SomeD)

lemma pg_login_law:
  assumes "store_ok s" and "complete_authentication i v n now audit s = (Inr (), s')"
    and "known_user s (sr_user_id n) = Some u" and "u_enabled u" and "u_auth_epoch u = sr_auth_epoch n"
  shows "pg_view s' = sessions_login (pg_view s) n u \<and> store_ok s'"
proof -
  have wf: "db_wf (pg_db s)" using assms(1) by (simp add: store_ok_def)
  have ok: "store_ok s'" using store_ok_call [OF assms(1) call_complete_authentication assms(2)] .
  then have wf': "db_wf (pg_db s')" by (simp add: store_ok_def)
  have rows: "db_sessions (pg_db s') = db_sessions (pg_db s) @ [session_to_row n now]"
    and users: "db_users (pg_db s') = db_users (pg_db s)"
    using complete_authentication_db [OF assms(2)] by blast+
  obtain x where x: "x \<in> set (db_users (pg_db s))" "ur_id x = user_str (sr_user_id n)" "u = user_of_row x"
    using assms(3) by (rule known_user_row)
  have "session_valid (session_to_row n now) x"
    using assms(4,5) x by (simp add: session_valid_def session_to_row_def user_of_row_def)
  then have new: "session_view (pg_db s') (sr_token_hash n) = Some (entry_of (session_to_row n now) x)"
    using x(1) by (subst session_view_Some [OF wf'])
      (auto simp: rows users session_to_row_def intro!: bexI [of _ x])
  have "session_view (pg_db s') g = sessions_login (session_view (pg_db s)) n u g" for g
  proof (cases "g = sr_token_hash n")
    case True
    with new show ?thesis by (simp add: sessions_login_def entry_of_def principal_of_def session_to_row_def x(3))
  next
    case False
    then have "m \<in> set (db_sessions (pg_db s')) \<longleftrightarrow> m \<in> set (db_sessions (pg_db s))" if "se_token_hash m = as_bytes g" for m
      using that by (auto simp: rows session_to_row_def as_bytes_inject)
    with session_view_other [OF wf wf' users] False show ?thesis by (simp add: sessions_login_def)
  qed
  then show ?thesis using ok by (auto simp: pg_view_def)
qed

lemma read_served:
  "pg_net s = [] \<Longrightarrow> op_then (store_err (exec_pool (select f))) g s = (g (f (pg_db s)), s)"
  by (simp add: op_defs exec_pool_def round_trip_def run_stmt_def store_err_def select_def)

lemma user_by_handle_known:
  assumes "store_ok s" and "user_by_handle w s = (Inr (Some u), s')"
  shows "known_user s (u_id u) = Some u"
proof -
  have wf: "db_wf (pg_db s)" and net: "pg_net s = []" using assms(1) by (simp_all add: store_ok_def)
  from assms(2) obtain x where "List.find (\<lambda>u. ur_webauthn_handle u = w) (db_users (pg_db s)) = Some x"
    and u: "User_try_from x = Inr u"
    by (cases "List.find (\<lambda>u. ur_webauthn_handle u = w) (db_users (pg_db s))")
      (auto simp: user_by_handle_def read_served [OF net] transpose_res_def split: sum.splits)
  then have x: "x \<in> set (db_users (pg_db s))" by (auto simp: find_Some_iff)
  with User_try_from_wf [OF wf] u have u: "u = user_of_row x" by simp
  then have "ur_id x = user_str (u_id u)" by (simp add: user_of_row_def)
  with x obtain y where y: "List.find (\<lambda>v. ur_id v = user_str (u_id u)) (db_users (pg_db s)) = Some y"
    by (cases "List.find (\<lambda>v. ur_id v = user_str (u_id u)) (db_users (pg_db s))") (auto simp: find_None_iff)
  then have "y \<in> set (db_users (pg_db s))" and "ur_id y = user_str (u_id u)" by (auto simp: find_Some_iff)
  then have "y = x" using wf_user_unique [OF wf _ x] \<open>ur_id x = user_str (u_id u)\<close> by simp
  with y u show ?thesis by (simp add: known_user_def)
qed

lemma pg_reads_keep:
  "store_ok s \<Longrightarrow> Pg_Store.ceremony i k now s = (r1, s') \<Longrightarrow> s' = s"
  "store_ok s \<Longrightarrow> credentials_for_user j s = (r2, s') \<Longrightarrow> s' = s"
  "store_ok s \<Longrightarrow> user_by_handle w s = (r3, s') \<Longrightarrow> s' = s"
  unfolding store_ok_def Pg_Store.ceremony_def credentials_for_user_def user_by_handle_def
  by (auto simp: read_served)

interpretation pgs: session_store pg_auth_store store_ok pg_view known_user
  by (unfold_locales; unfold pg_auth_store_simps)
    (erule (1) pg_session_law | erule (2) pg_csrf_law | erule (1) pg_logout_law | erule (4) pg_login_law
      | erule (1) pg_reads_keep | erule (1) user_by_handle_known)+

end
