(* ===== verification/Auth_Properties.thy ===== *)
theory Auth_Properties
  imports Auth_Sessions
begin

text \<open>
  The properties of the authentication service on the PostgreSQL store: sessions implement their
  abstract machine, a login is good exactly until its limits, a logout is final, a setup token
  leads to one passkey of its user, and there is one first operator.
\<close>

section \<open>A service for witnesses\<close>

definition demo_crypto :: crypto where
  "demo_crypto = \<lparr>cr_b64_encode = map (\<lambda>b. char_of (unat b)), cr_b64_decode = (\<lambda>s. Some (map (\<lambda>c. of_nat (of_char c)) s)),
     cr_sha256 = (\<lambda>bs. take 32 (bs @ replicate 32 0))\<rparr>"

definition demo_engine :: ceremony_engine where
  "demo_engine = \<lparr>en_start_registration = (\<lambda>_ _ _. Inr (JNull, JNull)),
     en_finish_registration = (\<lambda>_ _. Inr \<lparr>vc_credential_id = [4, 5], vc_public_data = JNull\<rparr>),
     en_start_authentication = (\<lambda>_. Inr (JNull, JNull)), en_authentication_user_handle = (\<lambda>_. Inr 7),
     en_finish_authentication = (\<lambda>_ _ _. Inr \<lparr>av_credential_id = [1, 2, 3], av_updated_public_data = JNull\<rparr>)\<rparr>"

definition demo_service :: "pg auth_service" where
  "demo_service = \<lparr>sv_store = pg_auth_store, sv_engine = demo_engine, sv_config = AuthConfig_default,
     sv_crypto = demo_crypto\<rparr>"

definition demo_token :: "nat \<Rightarrow> secret_token" where
  "demo_token n = SecretToken (demo_hash n)"

lemma demo_service_simps [simp]:
  "sv_store demo_service = pg_auth_store"
  "sv_engine demo_service = demo_engine"
  "sv_config demo_service = AuthConfig_default"
  "service_hash demo_service (demo_token n) = SecretHash (demo_hash n)"
  by (simp_all add: demo_service_def service_hash_def token_hash_def demo_crypto_def demo_token_def)

lemma demo_store_ok: "store_ok demo_pg"
  using demo_pg_wf by (simp add: store_ok_def demo_pg_def)

section \<open>Sessions\<close>

text \<open>
  C29: The session tables implement the abstract machine.  On a well-formed database that serves its
  requests, looking a session up, rotating its CSRF hash and logging out do on the rows exactly what
  the machine does on its map, whatever the token, and report what the machine reports; a completed
  login adds the entry of the machine for a user that is enabled and still in the epoch of the
  session.
\<close>

theorem sessions_refine:
  assumes "store_ok s" and "hash_ok c"
  shows "(case session h now idle s of (r, s') \<Rightarrow> r = Inr (sessions_lookup (pg_view s) h now)
      \<and> pg_view s' = sessions_touch (pg_view s) h None now idle)
    \<and> (case rotate_session_csrf h c now idle s of (r, s') \<Rightarrow>
        r = Inr (map_option (\<lambda>p. p\<lparr>sp_csrf_hash := c\<rparr>) (sessions_lookup (pg_view s) h now))
        \<and> pg_view s' = sessions_touch (pg_view s) h (Some c) now idle)
    \<and> (case delete_session h s of (r, s') \<Rightarrow> r = Inr () \<and> pg_view s' = sessions_logout (pg_view s) h)
    \<and> (case complete_authentication i v n now audit s of (r, s') \<Rightarrow>
        (\<forall>u. r = Inr () \<and> known_user s (sr_user_id n) = Some u \<and> u_enabled u \<and> u_auth_epoch u = sr_auth_epoch n \<longrightarrow>
          pg_view s' = sessions_login (pg_view s) n u))"
  using pg_session_law [OF assms(1), of h now idle] pg_csrf_law [OF assms, of h now idle]
    pg_logout_law [OF assms(1), of h] pg_login_law [OF assms(1), of i v n now audit]
  by (auto split: prod.splits)

theorem sessions_refine_witness:
  "\<exists>r s'. session (SecretHash (demo_hash 1)) 100 2000 demo_pg = (r, s')
     \<and> r = Inr (sessions_lookup (pg_view demo_pg) (SecretHash (demo_hash 1)) 100)
     \<and> pg_view s' = sessions_touch (pg_view demo_pg) (SecretHash (demo_hash 1)) None 100 2000"
proof -
  obtain r s' where run: "session (SecretHash (demo_hash 1)) 100 2000 demo_pg = (r, s')" by fastforce
  have "hash_ok (SecretHash (demo_hash 6))" by (simp add: hash_ok_def)
  from sessions_refine [OF demo_store_ok this, of "SecretHash (demo_hash 1)" 100 2000] run show ?thesis by simp
qed

lemma demo_read_eval:
  "user_by_handle 7 demo_pg = (Inr (Some (user_of_row demo_operator)), demo_pg)"
  "credentials_for_user (UserId ''operator'') demo_pg
     = (Inr [\<lparr>sc_id = 11, sc_user_id = UserId ''operator'', sc_credential_id = [1, 2, 3], sc_public_data = JNull,
              sc_revoked_at = None\<rparr>], demo_pg)"
  "Pg_Store.ceremony 21 Authentication 100 demo_pg
     = (Inr (Some \<lparr>cm_id = 21, cm_kind = Authentication, cm_user_id = None, cm_capability_hash = None,
                  cm_state = JNull, cm_expires_at = 300\<rparr>), demo_pg)"
  by (simp_all add: user_by_handle_def credentials_for_user_def Pg_Store.ceremony_def pg_eval demo_pg_def demo_db_def
      demo_rows User_try_from_def StoredCredential_try_from_def Ceremony_try_from_def decode_user_id_def UserId_new_def
      parse_role_def parse_ceremony_kind_def user_of_row_def id_char_def is_ascii_alphanumeric_def
      is_ascii_alphabetic_def)

lemma demo_user_simps [simp]:
  "u_id (user_of_row demo_operator) = UserId ''operator''" "u_enabled (user_of_row demo_operator)"
  "u_auth_epoch (user_of_row demo_operator) = 1"
  by (simp_all add: user_of_row_def demo_operator_def)

definition demo_finish :: "(pg, session_grant \<times> user) store_op" where
  "demo_finish = finish_authentication demo_service 32 (demo_token 5) (demo_token 6) 21 JNull 100"

lemma demo_finish_ok: "\<exists>g s1. demo_finish demo_pg = (Inr (g, user_of_row demo_operator), s1)"
  by (simp add: demo_finish_def finish_authentication_def op_some_def op_bind_def op_then_def op_lift_def op_return_def
      demo_read_eval enabled_user_def demo_engine_def
      login_record_def)
    (simp add: complete_authentication_def insert_audit_def audit_to_row_def pg_eval demo_pg_def demo_db_def demo_rows
      session_to_row_def demo_hash_eq)

text \<open>
  C30: What a login grants.  After a login the session of its token authenticates its user exactly
  while both the idle and the absolute time to live last; a CSRF token other than the granted one is
  forbidden; after either limit the token is not authenticated.
\<close>

theorem login_grants_session:
  assumes "sv_store sv = pg_auth_store" and "store_ok s"
    and "finish_authentication sv new_id token csrf i response now s = (Inr (g, u), s1)"
    and "authenticate_session sv token ocsrf t s1 = (r, s2)"
  shows "u_enabled u \<and> sg_token g = token \<and> sg_csrf g = csrf
    \<and> r = (if t < now + ac_session_idle_ttl (sv_config sv) \<and> t < now + ac_session_absolute_ttl (sv_config sv)
      then if \<exists>c. ocsrf = Some c \<and> service_hash sv c \<noteq> service_hash sv csrf then Inl Forbidden
           else Inr \<lparr>sp_session_id = new_id, sp_user = u, sp_csrf_hash = service_hash sv csrf,
                     sp_absolute_expires_at = now + ac_session_absolute_ttl (sv_config sv)\<rparr>
      else Inl Unauthenticated)"
  using pgs.login_then_authenticate [OF assms] pgs.finish_authentication_view(3,4) [OF assms(1-3)] by simp

theorem login_grants_session_witness:
  "\<exists>g s1 s2. demo_finish demo_pg = (Inr (g, user_of_row demo_operator), s1)
     \<and> authenticate_session demo_service (demo_token 5) (Some (demo_token 7)) 200 s1 = (Inl Forbidden, s2)"
proof -
  obtain g s1 where login: "demo_finish demo_pg = (Inr (g, user_of_row demo_operator), s1)"
    using demo_finish_ok by blast
  obtain r s2 where auth: "authenticate_session demo_service (demo_token 5) (Some (demo_token 7)) 200 s1 = (r, s2)"
    by fastforce
  from login_grants_session [OF demo_service_simps(1) demo_store_ok login [unfolded demo_finish_def] auth]
  have "r = Inl Forbidden" by (simp add: demo_hash_eq AuthConfig_default_def minutes_def hours_def)
  with login auth show ?thesis by blast
qed

lemma session_Some_live:
  assumes "session h now idle s = (Inr (Some p), t)"
  shows "\<exists>n\<in>set (db_sessions (pg_db s)). se_token_hash n = as_bytes h \<and> se_revoked_at n = None"
proof -
  from assms obtain row where run: "touch_session h None now idle s = (Inr row, t)" and "row \<noteq> None"
    by (auto simp: session_def op_then_Inr split: option.splits)
  then obtain n u where "live_session h now (pg_db s) = Some (n, u)"
    using touch_session_row [OF run] by (cases row) auto
  from live_session_Some [OF this] show ?thesis by (auto simp: session_live_def)
qed

lemma delete_session_revokes:
  assumes "delete_session h s = (Inr (), s')"
    and "\<exists>n\<in>set (db_sessions (pg_db s)). se_token_hash n = as_bytes h"
  shows "\<exists>m\<in>set (db_sessions (pg_db s')). se_token_hash m = as_bytes h \<and> se_revoked_at m \<noteq> None"
proof -
  let ?P = "\<lambda>n. se_token_hash n = as_bytes h \<and> se_revoked_at n = None"
  obtain n where n: "n \<in> set (db_sessions (pg_db s))" "se_token_hash n = as_bytes h" using assms(2) by blast
  let ?f = "\<lambda>n. n\<lparr>se_revoked_at := Some (pg_clock s)\<rparr>"
  from assms(1) obtain y where "store_err (exec_pool (upd_sessions_revoked ?P (pg_clock s))) s = (Inr y, s')"
    by (auto simp: delete_session_def db_now_def op_bind_def op_void_Inr)
  from store_err_pool_db [OF this]
  have "pg_db s' = (pg_db s)\<lparr>db_sessions := update_where ?P ?f (db_sessions (pg_db s))\<rparr>"
    by (simp add: upd_sessions_revoked_def)
  then have rows: "db_sessions (pg_db s') = update_where ?P ?f (db_sessions (pg_db s))" by simp
  have "(if ?P n then ?f n else n) \<in> set (db_sessions (pg_db s'))" using n(1) by (auto simp: rows set_update_where)
  with n(2) show ?thesis by (intro bexI [of _ "if ?P n then ?f n else n"]) auto
qed

text \<open>
  C31: Logout is final.  Once logging out has succeeded for a token that had a session, that token
  never authenticates again, whatever calls follow and whatever the time.
\<close>

theorem logout_is_final:
  assumes "sv_store sv = pg_auth_store" and "db_wf (pg_db s)"
    and "\<exists>n\<in>set (db_sessions (pg_db s)). se_token_hash n = as_bytes (service_hash sv token)"
    and "logout sv token s = (Inr (), s1)" and "store_run s1 s2"
    and "authenticate_session sv token csrf now s2 = (r, s3)"
  shows "\<not> is_ok r"
proof
  let ?h = "service_hash sv token"
  assume "is_ok r"
  then have "\<exists>p t. session ?h now (now + ac_session_idle_ttl (sv_config sv)) s2 = (Inr (Some p), t)"
    using assms(6) by (cases r) (auto simp: authenticate_session_def assms(1) op_bind_Inr op_some_Inr)
  then obtain n where n: "n \<in> set (db_sessions (pg_db s2))" "se_token_hash n = as_bytes ?h" "se_revoked_at n = None"
    using session_Some_live by blast
  have run: "store_run s s1"
    using assms(1,4) by (auto simp: logout_def intro: store_run_void [OF call_delete_session])
  have wf1: "db_wf (pg_db s1)" using store_run_keeps(1) [OF run assms(2)] .
  obtain m where m: "m \<in> set (db_sessions (pg_db s1))" "se_token_hash m = as_bytes ?h" "se_revoked_at m \<noteq> None"
    using delete_session_revokes [of ?h s s1] assms(1,3,4) by (auto simp: logout_def)
  obtain m' where m': "m' \<in> set (db_sessions (pg_db s2))" "session_evolves m m'"
    using run_session [OF assms(5) m(1)] by blast
  with m(2) n(2) have "n = m'"
    by (intro wf_session_unique [OF store_run_keeps(1) [OF assms(5) wf1] n(1)]) (simp_all add: session_evolves_def)
  with m' m(3) n(3) show False by (auto simp: session_evolves_def sticks_def)
qed

theorem logout_is_final_witness:
  "\<exists>s1 r s3. logout demo_service (demo_token 1) demo_pg = (Inr (), s1)
     \<and> authenticate_session demo_service (demo_token 1) None 150 s1 = (r, s3) \<and> \<not> is_ok r"
proof -
  have has: "\<exists>n\<in>set (db_sessions (pg_db demo_pg)).
      se_token_hash n = as_bytes (service_hash demo_service (demo_token 1))"
    by (simp add: demo_pg_def demo_db_def demo_rows)
  obtain s1 where out: "logout demo_service (demo_token 1) demo_pg = (Inr (), s1)"
    using delete_session_served [of demo_pg] by (simp add: logout_def demo_pg_def)
  obtain r s3 where auth: "authenticate_session demo_service (demo_token 1) None 150 s1 = (r, s3)" by fastforce
  from logout_is_final [OF demo_service_simps(1) demo_pg_wf has out store_run_refl auth] out auth show ?thesis by blast
qed

section \<open>Setup\<close>

lemma read_Inr:
  assumes "op_then (store_err (exec_pool (select f))) g s = (Inr x, t)"
  shows "g (f (pg_db s)) = Inr x" and "pg_db t = pg_db s"
proof -
  from assms obtain y where y: "store_err (exec_pool (select f)) s = (Inr y, t)" and g: "g y = Inr x"
    by (auto simp: op_then_Inr)
  have eqs: "f (pg_db s) = y \<and> pg_db s = pg_db t"
    by (rule store_err_pool_db [OF y, unfolded select_def sum.inject prod.inject])
  from g show "g (f (pg_db s)) = Inr x" unfolding conjunct1 [OF eqs] .
  show "pg_db t = pg_db s" using eqs by (rule conjunct2 [THEN sym])
qed

lemma transpose_map_Some: "transpose_res (map_option f x) = Inr (Some y) \<longleftrightarrow> (\<exists>r. x = Some r \<and> f r = Inr y)"
  by (cases x) (auto simp: transpose_res_def split: sum.splits)

lemma decode_user_id_str: "decode_user_id i = Inr u \<Longrightarrow> user_str u = i"
  by (auto simp: decode_user_id_def UserId_new_def map_err_def split: sum.splits if_splits)

lemma capability_found:
  assumes "Pg_Store.capability h purpose now s = (Inr (Some c), t)"
  obtains r where "r \<in> set (db_capabilities (pg_db s))" and "capability_open h now r"
    and "ca_purpose r = purpose_name purpose" and "ca_user_id r = user_str (cp_user_id c)"
    and "cp_token_hash c = h" and "pg_db t = pg_db s"
proof -
  note read = read_Inr [OF assms [unfolded Pg_Store.capability_def]]
  from read(1) obtain r where r: "List.find (\<lambda>c. ca_token_hash c = as_bytes h \<and> ca_purpose c = purpose_name purpose
      \<and> ca_consumed_at c = None \<and> ca_expires_at c > now) (db_capabilities (pg_db s)) = Some r"
    and c: "Capability_try_from r = Inr c"
    by (auto simp: transpose_map_Some)
  from find_SomeD [OF r] have row: "r \<in> set (db_capabilities (pg_db s))" "capability_open h now r"
      "ca_purpose r = purpose_name purpose" "ca_token_hash r = as_bytes h"
    by (simp_all add: capability_open_def)
  from c have "ca_user_id r = user_str (cp_user_id c)" and "as_bytes (cp_token_hash c) = ca_token_hash r"
    by (auto simp: Capability_try_from_def and_then_eq_Inr decode_user_id_str SecretHash_from_slice_iff)
  with row show ?thesis using that read(2) by (simp add: as_bytes_inject)
qed

lemma user_by_id_found:
  assumes "user_by_id i s = (Inr (Some u), t)"
  shows "u_id u = i" and "pg_db t = pg_db s"
proof -
  note read = read_Inr [OF assms [unfolded user_by_id_def]]
  from read(1) obtain r where r: "List.find (\<lambda>u. ur_id u = user_str i) (db_users (pg_db s)) = Some r"
    and u: "User_try_from r = Inr u"
    by (auto simp: transpose_map_Some)
  from u have "user_str (u_id u) = ur_id r" by (auto simp: User_try_from_def and_then_eq_Inr decode_user_id_str)
  with find_SomeD [OF r] show "u_id u = i" by (cases i; cases "u_id u") simp
  show "pg_db t = pg_db s" by (rule read(2))
qed

lemma ceremony_found:
  assumes "Pg_Store.ceremony i k now s = (Inr (Some c), t)"
  obtains r where "r \<in> set (db_ceremonies (pg_db s))" and "ceremony_open i now r"
    and "ce_kind r = ceremony_name k" and "cm_id c = i" and "cm_state c = ce_state r"
    and "map_option as_bytes (cm_capability_hash c) = ce_capability_hash r" and "pg_db t = pg_db s"
proof -
  note read = read_Inr [OF assms [unfolded Pg_Store.ceremony_def]]
  from read(1) obtain r where r: "List.find (\<lambda>c. ce_id c = i \<and> ce_kind c = ceremony_name k
      \<and> ce_consumed_at c = None \<and> ce_expires_at c > now) (db_ceremonies (pg_db s)) = Some r"
    and c: "Ceremony_try_from r = Inr c"
    by (auto simp: transpose_map_Some)
  from find_SomeD [OF r] have row: "r \<in> set (db_ceremonies (pg_db s))" "ceremony_open i now r" "ce_kind r = ceremony_name k" "ce_id r = i"
    by (simp_all add: ceremony_open_def)
  from c have "cm_id c = ce_id r" and "cm_state c = ce_state r"
    and "transpose_res (map_option SecretHash_from_slice (ce_capability_hash r)) = Inr (cm_capability_hash c)"
    by (auto simp: Ceremony_try_from_def and_then_eq_Inr)
  then have "map_option as_bytes (cm_capability_hash c) = ce_capability_hash r"
    by (cases "ce_capability_hash r"; cases "cm_capability_hash c")
      (auto simp: transpose_res_def SecretHash_from_slice_iff split: sum.splits)
  with row \<open>cm_id c = ce_id r\<close> \<open>cm_state c = ce_state r\<close> show ?thesis using that read(2) by simp
qed

lemma insert_ceremony_row:
  assumes "insert_ceremony c s = (Inr (), t)"
  shows "\<exists>clock. ceremony_to_row c clock \<in> set (db_ceremonies (pg_db t))"
proof -
  from assms have "store_err (exec_pool (ins_ceremony (ceremony_to_row c (pg_clock s)))) s = (Inr (), t)"
    by (simp add: insert_ceremony_def db_now_def op_bind_def)
  from store_err_pool_db [OF this] have "pg_db t = (pg_db s)\<lparr>db_ceremonies := db_ceremonies (pg_db s)
      @ [ceremony_to_row c (pg_clock s)]\<rparr>"
    by (auto simp: ins_ceremony_def split: if_splits)
  then show ?thesis by auto
qed

lemma start_setup_registration_db:
  assumes "sv_store sv = pg_auth_store"
    and "start_setup_registration sv seed new_id token purpose now s = (Inr (i, challenge), s')"
  obtains r e where "r \<in> set (db_capabilities (pg_db s))" and "capability_open (service_hash sv token) now r"
    and "ca_purpose r = purpose_name purpose" and "e \<in> set (db_ceremonies (pg_db s'))" and "ce_id e = i"
    and "ce_user_id e = Some (ca_user_id r)" and "ce_capability_hash e = Some (as_bytes (service_hash sv token))"
    and "ce_expires_at e = now + ac_ceremony_ttl (sv_config sv)"
proof (rule op_bindE [OF assms(2) [unfolded start_setup_registration_def assms(1) pg_auth_store_simps]])
  fix c s1
  assume "op_some InvalidToken (Pg_Store.capability (service_hash sv token) purpose now) s = (Inr c, s1)"
  then have "Pg_Store.capability (service_hash sv token) purpose now s = (Inr (Some c), s1)" by (simp add: op_some_Inr)
  then obtain r where r: "r \<in> set (db_capabilities (pg_db s))" "capability_open (service_hash sv token) now r"
      "ca_purpose r = purpose_name purpose" "ca_user_id r = user_str (cp_user_id c)"
      "cp_token_hash c = service_hash sv token"
    by (rule capability_found)
  assume "op_bind (op_then (user_by_id (cp_user_id c)) (\<lambda>user. ok_or InvalidToken (enabled_user user))) (\<lambda>user.
     op_bind (credentials_for_user (u_id user)) (\<lambda>credentials.
     op_bind (op_lift (en_start_registration (sv_engine sv) seed user credentials)) (\<lambda>(challenge, state).
     op_bind (insert_ceremony
       \<lparr>cm_id = new_id, cm_kind = Registration, cm_user_id = Some (u_id user),
        cm_capability_hash = Some (cp_token_hash c), cm_state = state,
        cm_expires_at = now + ac_ceremony_ttl (sv_config sv)\<rparr>) (\<lambda>_.
     op_return (new_id, challenge))))) s1 = (Inr (i, challenge), s')"
  then obtain u ou s2 state t where u: "user_by_id (cp_user_id c) s1 = (Inr ou, s2)" "enabled_user ou = Some u"
    and ins: "insert_ceremony \<lparr>cm_id = new_id, cm_kind = Registration, cm_user_id = Some (u_id u),
        cm_capability_hash = Some (cp_token_hash c), cm_state = state,
        cm_expires_at = now + ac_ceremony_ttl (sv_config sv)\<rparr> t = (Inr (), s')" and i: "i = new_id"
    by (elim op_bindE) (auto simp: op_then_Inr ok_or_eq_iff op_return_eq elim!: op_bindE split: prod.splits)
  from u(2) have "ou = Some u" by (auto simp: enabled_user_def split: option.splits if_splits)
  with u(1) have id: "u_id u = cp_user_id c" using user_by_id_found(1) by simp
  from insert_ceremony_row [OF ins] obtain e where "e \<in> set (db_ceremonies (pg_db s'))"
    and "ce_id e = i" and "ce_user_id e = Some (user_str (u_id u))"
    and "ce_capability_hash e = Some (as_bytes (cp_token_hash c))" and "ce_expires_at e = now + ac_ceremony_ttl (sv_config sv)"
    by (auto simp: ceremony_to_row_def i)
  with id r(4,5) show thesis by (intro that [OF r(1-3)]) simp_all
qed

lemma finish_registration_steps:
  assumes "sv_store sv = pg_auth_store"
    and "finish_registration sv new_id i kind response now s = (Inr (), s')"
  obtains c t credential audit where "Pg_Store.ceremony i kind now s = (Inr (Some c), t)"
    and "complete_registration new_id (cm_id c) (cm_capability_hash c) credential now audit t = (Inr (), s')"
  using assms(2) unfolding finish_registration_def assms(1) pg_auth_store_simps
  by (elim op_bindE) (auto simp: op_some_Inr op_lift_eq)

lemma finish_registration_db:
  assumes "sv_store sv = pg_auth_store" and "db_wf (pg_db s)"
    and "finish_registration sv new_id i kind response now s = (Inr (), s')"
    and "e \<in> set (db_ceremonies (pg_db s))" and "ce_id e = i" and "ce_capability_hash e = Some (as_bytes h)"
  obtains c k u where "now < ce_expires_at e" and "ce_user_id e = Some u"
    and "c \<in> set (db_capabilities (pg_db s))" and "capability_open h now c"
    and "db_capabilities (pg_db s') = update_where (capability_open h now)
      (\<lambda>c. c\<lparr>ca_consumed_at := Some now\<rparr>) (db_capabilities (pg_db s))"
    and "db_credentials (pg_db s') = db_credentials (pg_db s) @ [k]" and "cr_user_id k = u" and "cr_revoked_at k = None"
proof -
  obtain c t credential audit where found: "Pg_Store.ceremony i kind now s = (Inr (Some c), t)"
    and run: "complete_registration new_id (cm_id c) (cm_capability_hash c) credential now audit t = (Inr (), s')"
    using finish_registration_steps [OF assms(1,3)] .
  have same: "f = e" if "f \<in> set (db_ceremonies (pg_db s))" "ce_id f = i" for f
    by (rule distinct_map_eq [where f = ce_id, OF _ that(1) assms(4)])
      (use assms(2,5) that(2) in \<open>simp_all add: db_wf_def ceremonies_wf_def\<close>)
  obtain r where r: "r \<in> set (db_ceremonies (pg_db s))" "ceremony_open i now r" "ce_kind r = ceremony_name kind"
      "cm_id c = i" "cm_state c = ce_state r" "map_option as_bytes (cm_capability_hash c) = ce_capability_hash r"
    and t: "pg_db t = pg_db s"
    using found by (rule ceremony_found)
  have "r = e" using same [OF r(1)] r(2) by (simp add: ceremony_open_def)
  with r(6) assms(6) have h: "cm_capability_hash c = Some h" by (auto simp: as_bytes_inject)
  note completed = complete_registration_capability [OF run [unfolded h]]
  obtain f u where f: "f \<in> set (db_ceremonies (pg_db t))" "ceremony_open (cm_id c) now f" "ce_user_id f = Some u"
    and k: "db_credentials (pg_db s') = db_credentials (pg_db t) @
      [\<lparr>cr_id = new_id, cr_user_id = u, cr_credential_id = vc_credential_id credential,
        cr_public_data = vc_public_data credential, cr_revoked_at = None,
        pk_created_at = now, pk_last_used_at = None\<rparr>]"
    using run by (rule complete_registration_db)
  have "f = e" using same f(1,2) r(4) t by (simp add: ceremony_open_def)
  moreover from completed(1) obtain b where "b \<in> set (db_capabilities (pg_db s))" "capability_open h now b" unfolding t by blast
  moreover have "now < ce_expires_at e" using r(2) \<open>r = e\<close> by (simp add: ceremony_open_def)
  ultimately show ?thesis using that f(3) completed(2) k by (simp add: t)
qed

lemma wf_capability_unique:
  assumes "db_wf d" and "b \<in> set (db_capabilities d)" and "c \<in> set (db_capabilities d)" and "ca_token_hash b = ca_token_hash c"
  shows "b = c"
  by (rule distinct_map_eq [where f = ca_token_hash, OF _ assms(2-4)]) (use assms(1) in \<open>simp add: db_wf_def capabilities_wf_def\<close>)

text \<open>
  C32: A setup token leads to one passkey, of its own user.  When a registration was started with a
  token and, after any calls, a registration finishes with the ceremony it gave, then the token's
  capability was open with the right purpose at the start, neither the ceremony nor the capability
  has expired since, exactly one passkey is added, for the user of the capability, and the
  capability is consumed.
\<close>

theorem setup_registers_for_capability_user:
  assumes "sv_store sv = pg_auth_store" and "db_wf (pg_db s)"
    and "start_setup_registration sv seed new_id token purpose now s = (Inr (i, challenge), s1)"
    and "store_run s1 s2"
    and "finish_registration sv new_id' i kind response t s2 = (Inr (), s3)"
  shows "\<exists>r\<in>set (db_capabilities (pg_db s)). capability_open (service_hash sv token) now r
    \<and> ca_purpose r = purpose_name purpose
    \<and> t < now + ac_ceremony_ttl (sv_config sv) \<and> t < ca_expires_at r
    \<and> (\<exists>k. db_credentials (pg_db s3) = db_credentials (pg_db s2) @ [k]
          \<and> cr_user_id k = ca_user_id r \<and> cr_revoked_at k = None)
    \<and> (\<forall>b\<in>set (db_capabilities (pg_db s3)).
          ca_token_hash b = as_bytes (service_hash sv token) \<longrightarrow> ca_consumed_at b \<noteq> None)"
proof -
  let ?h = "service_hash sv token"
  obtain r e where r: "r \<in> set (db_capabilities (pg_db s))" "capability_open ?h now r" "ca_purpose r = purpose_name purpose"
    and e: "e \<in> set (db_ceremonies (pg_db s1))" "ce_id e = i" "ce_user_id e = Some (ca_user_id r)"
      "ce_capability_hash e = Some (as_bytes ?h)" "ce_expires_at e = now + ac_ceremony_ttl (sv_config sv)"
    using assms(1,3) by (rule start_setup_registration_db)
  have "op_rel store_run (start_setup_registration sv seed new_id token purpose now)"
    using assms(1) by (rule run.service_rel)
  then have run: "store_run s s2" using assms(3,4) by (blast dest: op_relD intro: store_run_trans)
  have wf2: "db_wf (pg_db s2)" using store_run_keeps(1) [OF run assms(2)] .
  obtain e' where e': "e' \<in> set (db_ceremonies (pg_db s2))" "ceremony_evolves e e'"
    using run_ceremony [OF assms(4) e(1)] by blast
  obtain r' where r': "r' \<in> set (db_capabilities (pg_db s2))" "capability_evolves r r'"
    using run_capability [OF run r(1)] by blast
  have e'_data: "ce_id e' = i" "ce_capability_hash e' = Some (as_bytes ?h)" "ce_user_id e' = Some (ca_user_id r)"
      "ce_expires_at e' = now + ac_ceremony_ttl (sv_config sv)"
    using e e'(2) by (simp_all add: ceremony_evolves_def)
  obtain c k u where fin: "t < ce_expires_at e'" "ce_user_id e' = Some u" "c \<in> set (db_capabilities (pg_db s2))"
      "capability_open ?h t c"
    and caps: "db_capabilities (pg_db s3) = update_where (capability_open ?h t)
      (\<lambda>c. c\<lparr>ca_consumed_at := Some t\<rparr>) (db_capabilities (pg_db s2))"
    and k: "db_credentials (pg_db s3) = db_credentials (pg_db s2) @ [k]" "cr_user_id k = u" "cr_revoked_at k = None"
    using finish_registration_db [OF assms(1) wf2 assms(5) e'(1) e'_data(1,2)] .
  have only: "b = c" if "b \<in> set (db_capabilities (pg_db s2))" "ca_token_hash b = as_bytes ?h" for b
    using wf_capability_unique [OF wf2 that(1) fin(3)] that(2) fin(4) by (simp add: capability_open_def)
  have "r' = c" using only [OF r'(1)] r'(2) r(2) by (simp add: capability_evolves_def capability_open_def)
  then have "t < ca_expires_at r" using fin(4) r'(2) by (simp add: capability_open_def capability_evolves_def)
  moreover have "ca_consumed_at b \<noteq> None"
    if "b \<in> set (db_capabilities (pg_db s3))" "ca_token_hash b = as_bytes ?h" for b
    using that only fin(4) by (auto simp: caps set_update_where split: if_splits)
  ultimately show ?thesis using r fin(1,2) e'_data k by (intro bexI [of _ r]) auto
qed

definition demo_started :: pg where
  "demo_started = demo_pg\<lparr>pg_db := demo_db\<lparr>db_ceremonies := db_ceremonies demo_db @
     [\<lparr>ce_id = 61, ce_kind = ''registration'', ce_user_id = Some ''operator'',
       ce_capability_hash = Some (demo_hash 3), ce_state = JNull, ce_expires_at = 100 + minutes 5,
       ce_consumed_at = None, ce_created_at = 100\<rparr>]\<rparr>\<rparr>"

lemma demo_more_reads:
  "Pg_Store.capability (SecretHash (demo_hash 3)) Setup 100 demo_pg
     = (Inr (Some \<lparr>cp_id = 41, cp_user_id = UserId ''operator'', cp_purpose = Setup,
                  cp_token_hash = SecretHash (demo_hash 3), cp_expires_at = 300\<rparr>), demo_pg)"
  "user_by_id (UserId ''operator'') demo_pg = (Inr (Some (user_of_row demo_operator)), demo_pg)"
  by (simp_all add: user_by_id_def Pg_Store.capability_def pg_eval demo_pg_def demo_db_def
      demo_rows User_try_from_def Capability_try_from_def SecretHash_from_slice_def decode_user_id_def UserId_new_def
      parse_role_def parse_purpose_def user_of_row_def id_char_def is_ascii_alphanumeric_def
      is_ascii_alphabetic_def)

lemma demo_start_ok:
  "start_setup_registration demo_service [] 61 (demo_token 3) Setup 100 demo_pg = (Inr (61, JNull), demo_started)"
  by (simp add: start_setup_registration_def op_some_def op_bind_def op_then_def op_lift_def op_return_def
      demo_more_reads demo_read_eval enabled_user_def demo_engine_def)
    (simp add: insert_ceremony_def db_now_def ceremony_to_row_def pg_eval demo_pg_def demo_started_def demo_db_def
      demo_rows kind_names_def AuthConfig_default_def)

lemma demo_finish_read:
  "Pg_Store.ceremony 61 Registration 150 demo_started
     = (Inr (Some \<lparr>cm_id = 61, cm_kind = Registration, cm_user_id = Some (UserId ''operator''),
          cm_capability_hash = Some (SecretHash (demo_hash 3)), cm_state = JNull, cm_expires_at = 100 + minutes 5\<rparr>),
        demo_started)"
  by (simp add: Pg_Store.ceremony_def pg_eval demo_started_def demo_pg_def demo_db_def demo_rows Ceremony_try_from_def
      SecretHash_from_slice_def UserId_new_def parse_ceremony_kind_def id_char_def is_ascii_alphanumeric_def
      is_ascii_alphabetic_def minutes_def)

lemma demo_setup_ok: "\<exists>s3. finish_registration demo_service 12 61 Registration JNull 150 demo_started = (Inr (), s3)"
  by (simp add: finish_registration_def op_some_def op_bind_def op_then_def op_lift_def op_return_def
      demo_finish_read demo_engine_def)
    (simp add: complete_registration_def consume_ceremony_def check_bootstrap_def
      consume_capability_def insert_credential_def complete_recoveries_def insert_audit_def audit_to_row_def
      pg_eval demo_started_def demo_pg_def demo_db_def demo_rows minutes_def)

theorem setup_registers_for_capability_user_witness:
  "\<exists>s3. finish_registration demo_service 12 61 Registration JNull 150 demo_started = (Inr (), s3)
     \<and> (\<exists>r\<in>set (db_capabilities demo_db). capability_open (SecretHash (demo_hash 3)) 100 r
          \<and> (\<exists>k. db_credentials (pg_db s3) = db_credentials (pg_db demo_started) @ [k] \<and> cr_user_id k = ca_user_id r))"
proof -
  obtain s3 where fin: "finish_registration demo_service 12 61 Registration JNull 150 demo_started = (Inr (), s3)"
    using demo_setup_ok by blast
  have db: "pg_db demo_pg = demo_db" by (simp add: demo_pg_def)
  from setup_registers_for_capability_user [OF demo_service_simps(1) demo_pg_wf demo_start_ok store_run_refl fin,
      unfolded db demo_service_simps]
  show ?thesis using fin by blast
qed

section \<open>The first operator\<close>

definition has_operator :: "db \<Rightarrow> bool" where
  "has_operator d \<longleftrightarrow> (\<exists>u\<in>set (db_users d). ur_role u = ''operator'')"

lemma operator_exists_db:
  "operator_exists s = (Inr b, t) \<Longrightarrow> (b \<longleftrightarrow> has_operator (pg_db s)) \<and> pg_db t = pg_db s"
  unfolding operator_exists_def by (drule store_err_pool_db) (auto simp: select_def list_ex_iff has_operator_def)

lemma insert_user_db:
  assumes "insert_user u now audit s = (Inr (), s')"
  shows "db_users (pg_db s') = db_users (pg_db s) @ [user_to_row u now]"
    and "db_audit (pg_db s') = db_audit (pg_db s) @ [audit_to_row audit now]"
proof -
  obtain t v where t: "pg_db t = pg_db s" and v: "pg_db s' = pg_db v"
    and body: "op_bind (insert_user_tx u now) (\<lambda>_. insert_audit audit now) t = (Inr (), v)"
    using assms unfolding insert_user_def by (rule transaction_db)
  from body obtain w where w: "insert_user_tx u now t = (Inr (), w)" and a: "insert_audit audit now w = (Inr (), v)"
    by (auto elim: op_bindE)
  from w have "pg_db w = (pg_db s)\<lparr>db_users := db_users (pg_db s) @ [user_to_row u now]\<rparr>"
    by (auto simp: insert_user_tx_def op_map_err_Inr ins_user_def t dest!: exec_tx_db split: if_splits)
  with insert_audit_db [OF a] v
  show "db_users (pg_db s') = db_users (pg_db s) @ [user_to_row u now]"
    and "db_audit (pg_db s') = db_audit (pg_db s) @ [audit_to_row audit now]" by simp_all
qed

lemma seed_operator_db:
  assumes "sv_store sv = pg_auth_store" and "seed_operator sv handle i email name now s = (Inr (), s')"
  shows "profile_ok (trim email) (trim name)" and "\<not> has_operator (pg_db s)"
    and "db_users (pg_db s') = db_users (pg_db s)
      @ [user_to_row (new_user i handle (trim email) (trim name) Operator) now]"
proof -
  show profile: "profile_ok (trim email) (trim name)"
    using assms(2) by (auto simp: seed_operator_def op_fail_eq split: if_splits)
  with assms obtain ou s1 b s2 audit where u: "user_by_id i s = (Inr ou, s1)" and ou: "ou = None"
    and b: "operator_exists s1 = (Inr b, s2)" and nb: "\<not> b"
    and ins: "insert_user (new_user i handle (trim email) (trim name) Operator) now audit s2 = (Inr (), s')"
    by (auto simp: seed_operator_def op_fail_eq elim!: op_bindE split: if_splits)
  have "pg_db s1 = pg_db s" using read_Inr(2) [OF u [unfolded user_by_id_def]] .
  with operator_exists_db [OF b] nb have db: "pg_db s2 = pg_db s" and "\<not> has_operator (pg_db s)" by auto
  then show "\<not> has_operator (pg_db s)" by simp
  show "db_users (pg_db s') = db_users (pg_db s)
      @ [user_to_row (new_user i handle (trim email) (trim name) Operator) now]"
    using insert_user_db(1) [OF ins] db by simp
qed

lemma has_operator_stays: "store_run s s' \<Longrightarrow> has_operator (pg_db s) \<Longrightarrow> has_operator (pg_db s')"
  unfolding has_operator_def by (auto simp: user_evolves_def dest!: run_user)

text \<open>
  C33: There is one first operator.  Seeding succeeds only with an address that contains an at sign
  and a name that is not blank, while there is no operator at all; it adds exactly one user, enabled
  and in epoch 1, with the operator role; and after that, whatever calls follow, it never succeeds
  again.
\<close>

theorem seed_operator_once:
  assumes "sv_store sv = pg_auth_store" and "seed_operator sv handle i email name now s = (Inr (), s1)"
    and "store_run s1 s2" and "seed_operator sv handle' i' email' name' now' s2 = (r, s3)"
  shows "CHR ''@'' \<in> set (trim email) \<and> trim name \<noteq> [] \<and> \<not> has_operator (pg_db s)
    \<and> (\<exists>u. db_users (pg_db s1) = db_users (pg_db s) @ [u] \<and> ur_id u = user_str i \<and> ur_role u = ''operator''
         \<and> ur_email u = trim email \<and> ur_enabled u \<and> ur_auth_epoch u = 1)
    \<and> \<not> is_ok r"
proof -
  note first = seed_operator_db [OF assms(1,2)]
  let ?u = "user_to_row (new_user i handle (trim email) (trim name) Operator) now"
  have "has_operator (pg_db s1)" by (simp add: has_operator_def first(3) user_to_row_def new_user_def)
  then have "has_operator (pg_db s2)" using has_operator_stays [OF assms(3)] by blast
  then have "\<not> is_ok r" using seed_operator_db(2) [OF assms(1)] assms(4) by (cases r) auto
  then show ?thesis using first by (auto simp: profile_ok_def user_to_row_def new_user_def)
qed

definition empty_pg :: pg where
  "empty_pg = demo_pg\<lparr>pg_db := db_empty\<rparr>"

lemma strip_all_none: "find_prefix ws s = None \<Longrightarrow> strip_all ws s = s"
  by (subst strip_all.simps) simp

text \<open>A string that starts and ends with a visible ASCII character has nothing to trim.\<close>

definition graphic :: "char \<Rightarrow> bool" where
  "graphic c \<longleftrightarrow> 32 < (of_char c :: nat) \<and> (of_char c :: nat) < 128"

lemma find_prefix_first: "list_all (\<lambda>w. \<not> graphic (hd w)) ws \<Longrightarrow> graphic c \<Longrightarrow> find_prefix ws (c # s) = None"
proof (induction ws)
  case (Cons w ws)
  then have "w = [] \<or> take (length w) (c # s) \<noteq> w" by (cases w) auto
  with Cons show ?case by auto
qed simp

lemma strip_all_graphic:
  assumes "list_all (\<lambda>w. \<not> graphic (hd w)) ws" and "s \<noteq> []" and "graphic (hd s)"
  shows "strip_all ws s = s"
  using assms by (cases s) (simp_all add: strip_all_none find_prefix_first)

lemma trim_graphic:
  assumes "s \<noteq> []" and "graphic (hd s)" and "graphic (last s)"
  shows "trim s = s"
proof -
  have "strip_all white_space s = s"
    by (rule strip_all_graphic [OF _ assms(1,2)]) (simp add: white_space_def utf8_def graphic_def)
  moreover have "strip_all (map rev white_space) (rev s) = rev s"
    by (rule strip_all_graphic)
      (use assms(1,3) in \<open>simp_all add: white_space_def utf8_def graphic_def hd_rev\<close>)
  ultimately show ?thesis by (simp add: trim_def trim_start_def trim_end_def)
qed

lemma demo_trim: "trim ''a@b'' = ''a@b''" "trim ''A'' = ''A''"
  by (rule trim_graphic; simp add: graphic_def)+

lemma demo_seed_ok: "\<exists>s1. seed_operator demo_service 7 (UserId ''op'') ''a@b'' ''A'' 100 empty_pg = (Inr (), s1)"
  by (simp add: seed_operator_def demo_trim profile_ok_def user_by_id_def operator_exists_def insert_user_def
      insert_user_tx_def new_user_def user_to_row_def insert_audit_def audit_to_row_def pg_eval empty_pg_def demo_pg_def
      db_empty_def role_names_def)

theorem seed_operator_once_witness:
  "\<exists>s1 r s2. seed_operator demo_service 7 (UserId ''op'') ''a@b'' ''A'' 100 empty_pg = (Inr (), s1)
     \<and> seed_operator demo_service 8 (UserId ''op2'') ''c@d'' ''C'' 200 s1 = (r, s2) \<and> \<not> is_ok r"
proof -
  obtain s1 where one: "seed_operator demo_service 7 (UserId ''op'') ''a@b'' ''A'' 100 empty_pg = (Inr (), s1)"
    using demo_seed_ok by blast
  obtain r s2 where two: "seed_operator demo_service 8 (UserId ''op2'') ''c@d'' ''C'' 200 s1 = (r, s2)" by fastforce
  from seed_operator_once [OF demo_service_simps(1) one store_run_refl two] one two show ?thesis by blast
qed

end
