(* ===== verification/Webauthn_Engine.thy ===== *)
theory Webauthn_Engine
  imports Auth_Properties
begin

text \<open>
  \<open>server/src/webauthn.rs\<close>: the adapter from the trait \<open>CeremonyEngine\<close> to the crate
  \<open>webauthn-rs\<close>.  The crates it calls are parameters: the record \<open>url_lib\<close> for \<open>url\<close>, the record
  \<open>webauthn_lib\<close> for \<open>webauthn-rs\<close> and the serialization of its types by \<open>serde_json\<close>; the types of
  the crate are type variables.  A conversion that can fail returns an option.
\<close>

section \<open>The crates\<close>

record url =
  url_path :: string
  url_query :: "string option"
  url_fragment :: "string option"

text \<open>
  \<open>'w\<close> is \<open>Webauthn\<close>, \<open>'b\<close> its builder, \<open>'c\<close> and \<open>'r\<close> challenge and state of a registration, \<open>'p\<close> its
  response, \<open>'k\<close> a passkey, \<open>'g\<close> a discoverable key, \<open>'d\<close> and \<open>'a\<close> challenge and state of an
  authentication, \<open>'q\<close> its response and \<open>'x\<close> its result.
\<close>

record ('w, 'b, 'c, 'r, 'p, 'k, 'g, 'd, 'a, 'q, 'x) webauthn_lib =
  wl_parse_url :: "string \<Rightarrow> url option"
  wl_builder :: "string \<Rightarrow> url \<Rightarrow> 'b option"
  wl_build :: "'b \<Rightarrow> string \<Rightarrow> 'w option"
  wl_start_registration :: "'w \<Rightarrow> bytes \<Rightarrow> uuid \<Rightarrow> string \<Rightarrow> string \<Rightarrow> bytes list option \<Rightarrow> ('c \<times> 'r) option"
  wl_finish_registration :: "'w \<Rightarrow> 'p \<Rightarrow> 'r \<Rightarrow> 'k option"
  wl_start_authentication :: "'w \<Rightarrow> bytes \<Rightarrow> ('d \<times> 'a) option"
  wl_identify :: "'w \<Rightarrow> 'q \<Rightarrow> (uuid \<times> bytes) option"
  wl_finish_authentication :: "'w \<Rightarrow> 'q \<Rightarrow> 'a \<Rightarrow> 'g list \<Rightarrow> 'x option"
  wl_cred_id :: "'k \<Rightarrow> bytes"
  wl_result_cred_id :: "'x \<Rightarrow> bytes"
  wl_discoverable :: "'k \<Rightarrow> 'g"
  wl_update_credential :: "'k \<Rightarrow> 'x \<Rightarrow> 'k option"
  wl_creation_json :: "'c \<Rightarrow> json option"
  wl_registration_json :: "'r \<Rightarrow> json option"
  wl_registration_of :: "json \<Rightarrow> 'r option"
  wl_register_response_of :: "json \<Rightarrow> 'p option"
  wl_request_json :: "'d \<Rightarrow> json option"
  wl_authentication_json :: "'a \<Rightarrow> json option"
  wl_authentication_of :: "json \<Rightarrow> 'a option"
  wl_response_of :: "json \<Rightarrow> 'q option"
  wl_passkey_json :: "'k \<Rightarrow> json option"
  wl_passkey_of :: "json \<Rightarrow> 'k option"

section \<open>Construction\<close>

definition PRODUCTION_RP_ID :: string where
  "PRODUCTION_RP_ID = ''ricardosaad.com''"

definition PRODUCTION_ORIGIN :: string where
  "PRODUCTION_ORIGIN = ''https://ricardosaad.com''"

definition WebauthnEngine_new ::
    "('w, 'b, 'c, 'r, 'p, 'k, 'g, 'd, 'a, 'q, 'x) webauthn_lib \<Rightarrow> string \<Rightarrow> string \<Rightarrow> bool \<Rightarrow> auth_error + 'w" where
  "WebauthnEngine_new wl rp_id origin production =
     (if production \<and> (rp_id \<noteq> PRODUCTION_RP_ID \<or> origin \<noteq> PRODUCTION_ORIGIN) then Inl InvalidInput
      else and_then (ok_or InvalidInput (wl_parse_url wl origin)) (\<lambda>url.
        if url_path url \<noteq> ''/'' \<or> url_query url \<noteq> None \<or> url_fragment url \<noteq> None then Inl InvalidInput
        else and_then (ok_or InvalidInput (wl_builder wl rp_id url)) (\<lambda>builder.
             ok_or InvalidInput (wl_build wl builder ''RS Platform''))))"

section \<open>Members of JSON objects\<close>

text \<open>
  One step of \<open>pointer_mut\<close> with a name that is not an array index, and \<open>Map::insert\<close>; the members
  of an object have distinct names.
\<close>

definition at_member :: "string \<Rightarrow> (json \<Rightarrow> json option) \<Rightarrow> json \<Rightarrow> json option" where
  "at_member name f v =
     (case v of
        JObject kvs \<Rightarrow>
          (case map_of kvs name of
             None \<Rightarrow> None
           | Some w \<Rightarrow> map_option (\<lambda>w'. JObject (map (\<lambda>(k, x). if k = name then (k, w') else (k, x)) kvs)) (f w))
      | _ \<Rightarrow> None)"

definition insert_member :: "string \<Rightarrow> json \<Rightarrow> (string \<times> json) list \<Rightarrow> (string \<times> json) list" where
  "insert_member name v kvs =
     (if name \<in> fst ` set kvs then map (\<lambda>(k, x). if k = name then (k, v) else (k, x)) kvs else kvs @ [(name, v)])"

definition require_resident_key :: "json \<Rightarrow> json option" where
  "require_resident_key challenge =
     at_member ''publicKey'' (at_member ''authenticatorSelection'' (\<lambda>selection.
       case selection of
         JObject kvs \<Rightarrow> Some (JObject (insert_member ''requireResidentKey'' (JBool True)
                                (insert_member ''residentKey'' (JString ''required'') kvs)))
       | _ \<Rightarrow> None)) challenge"

section \<open>The engine\<close>

definition stored_passkey ::
    "('w, 'b, 'c, 'r, 'p, 'k, 'g, 'd, 'a, 'q, 'x) webauthn_lib \<Rightarrow> stored_credential \<Rightarrow> auth_error + 'k" where
  "stored_passkey wl credential = ok_or Store (wl_passkey_of wl (sc_public_data credential))"

definition engine_start_registration ::
    "('w, 'b, 'c, 'r, 'p, 'k, 'g, 'd, 'a, 'q, 'x) webauthn_lib \<Rightarrow> 'w \<Rightarrow> bytes \<Rightarrow> user
       \<Rightarrow> stored_credential list \<Rightarrow> auth_error + json \<times> json" where
  "engine_start_registration wl w seed user credentials =
     and_then (collect_res (map (stored_passkey wl) credentials)) (\<lambda>passkeys.
       let exclude = map (wl_cred_id wl) passkeys in
       and_then (ok_or Verification (wl_start_registration wl w seed (u_webauthn_handle user) (u_email user)
           (u_display_name user) (if exclude \<noteq> [] then Some exclude else None))) (\<lambda>(challenge, state).
       and_then (ok_or Store (wl_creation_json wl challenge)) (\<lambda>challenge.
       and_then (ok_or Store (require_resident_key challenge)) (\<lambda>challenge.
       and_then (ok_or Store (wl_registration_json wl state)) (\<lambda>state.
         Inr (challenge, state))))))"

definition engine_finish_registration ::
    "('w, 'b, 'c, 'r, 'p, 'k, 'g, 'd, 'a, 'q, 'x) webauthn_lib \<Rightarrow> 'w \<Rightarrow> json \<Rightarrow> json \<Rightarrow> auth_error + verified_credential" where
  "engine_finish_registration wl w response state =
     and_then (ok_or InvalidInput (wl_register_response_of wl response)) (\<lambda>response.
     and_then (ok_or InvalidState (wl_registration_of wl state)) (\<lambda>state.
     and_then (ok_or Verification (wl_finish_registration wl w response state)) (\<lambda>passkey.
     and_then (ok_or Store (wl_passkey_json wl passkey)) (\<lambda>data.
       Inr \<lparr>vc_credential_id = wl_cred_id wl passkey, vc_public_data = data\<rparr>))))"

definition engine_start_authentication ::
    "('w, 'b, 'c, 'r, 'p, 'k, 'g, 'd, 'a, 'q, 'x) webauthn_lib \<Rightarrow> 'w \<Rightarrow> bytes \<Rightarrow> auth_error + json \<times> json" where
  "engine_start_authentication wl w seed =
     and_then (ok_or Verification (wl_start_authentication wl w seed)) (\<lambda>(challenge, state).
     and_then (ok_or Store (wl_request_json wl challenge)) (\<lambda>challenge.
     and_then (ok_or Store (wl_authentication_json wl state)) (\<lambda>state.
       Inr (challenge, state))))"

definition engine_user_handle ::
    "('w, 'b, 'c, 'r, 'p, 'k, 'g, 'd, 'a, 'q, 'x) webauthn_lib \<Rightarrow> 'w \<Rightarrow> json \<Rightarrow> auth_error + uuid" where
  "engine_user_handle wl w response =
     and_then (ok_or InvalidInput (wl_response_of wl response)) (\<lambda>response.
       map_ok fst (ok_or Verification (wl_identify wl w response)))"

definition engine_finish_authentication ::
    "('w, 'b, 'c, 'r, 'p, 'k, 'g, 'd, 'a, 'q, 'x) webauthn_lib \<Rightarrow> 'w \<Rightarrow> json \<Rightarrow> json
       \<Rightarrow> stored_credential list \<Rightarrow> auth_error + authentication_verification" where
  "engine_finish_authentication wl w response state credentials =
     and_then (ok_or InvalidInput (wl_response_of wl response)) (\<lambda>response.
     and_then (ok_or InvalidState (wl_authentication_of wl state)) (\<lambda>state.
     and_then (collect_res (map (stored_passkey wl) credentials)) (\<lambda>passkeys.
     and_then (ok_or Verification (wl_finish_authentication wl w response state (map (wl_discoverable wl) passkeys))) (\<lambda>result.
     let credential_id = wl_result_cred_id wl result in
     and_then (ok_or Verification (List.find (\<lambda>passkey. wl_cred_id wl passkey = credential_id) passkeys)) (\<lambda>passkey.
     and_then (ok_or Verification (wl_update_credential wl passkey result)) (\<lambda>passkey.
     and_then (ok_or Store (wl_passkey_json wl passkey)) (\<lambda>data.
       Inr \<lparr>av_credential_id = credential_id, av_updated_public_data = data\<rparr>)))))))"

definition webauthn_engine ::
    "('w, 'b, 'c, 'r, 'p, 'k, 'g, 'd, 'a, 'q, 'x) webauthn_lib \<Rightarrow> 'w \<Rightarrow> ceremony_engine" where
  "webauthn_engine wl w =
     \<lparr>en_start_registration = engine_start_registration wl w,
      en_finish_registration = engine_finish_registration wl w,
      en_start_authentication = engine_start_authentication wl w,
      en_authentication_user_handle = engine_user_handle wl w,
      en_finish_authentication = engine_finish_authentication wl w\<rparr>"

section \<open>Properties\<close>

lemma stored_passkeys_all:
  "collect_res (map (stored_passkey wl) cs) = Inr keys \<Longrightarrow>
     map (\<lambda>x. wl_passkey_of wl (sc_public_data x)) cs = map Some keys"
proof (induction cs arbitrary: keys)
  case (Cons c cs)
  then show ?case
    by (cases "stored_passkey wl c") (auto simp: stored_passkey_def ok_or_eq_iff split: sum.splits)
qed simp








text \<open>A library for witnesses, whose passkeys are their identifiers.\<close>

definition demo_lib :: "(unit, unit, unit, unit, unit, bytes, bytes, unit, unit, unit, bytes) webauthn_lib" where
  "demo_lib = \<lparr>wl_parse_url = (\<lambda>_. Some \<lparr>url_path = ''/'', url_query = None, url_fragment = None\<rparr>),
     wl_builder = (\<lambda>_ _. Some ()), wl_build = (\<lambda>_ _. Some ()),
     wl_start_registration = (\<lambda>_ _ _ _ _ _. Some ((), ())), wl_finish_registration = (\<lambda>_ _ _. Some [4, 5]),
     wl_start_authentication = (\<lambda>_ _. Some ((), ())), wl_identify = (\<lambda>_ _. Some (7, [])),
     wl_finish_authentication = (\<lambda>_ _ _ keys. case keys of [] \<Rightarrow> None | k # _ \<Rightarrow> Some k),
     wl_cred_id = (\<lambda>k. k), wl_result_cred_id = (\<lambda>x. x), wl_discoverable = (\<lambda>k. k),
     wl_update_credential = (\<lambda>k _. Some k),
     wl_creation_json = (\<lambda>_. Some (JObject [(''publicKey'', JObject [(''authenticatorSelection'', JObject [])])])),
     wl_registration_json = (\<lambda>_. Some JNull), wl_registration_of = (\<lambda>_. Some ()),
     wl_register_response_of = (\<lambda>_. Some ()), wl_request_json = (\<lambda>_. Some JNull),
     wl_authentication_json = (\<lambda>_. Some JNull), wl_authentication_of = (\<lambda>_. Some ()),
     wl_response_of = (\<lambda>_. Some ()), wl_passkey_json = (\<lambda>_. Some JNull), wl_passkey_of = (\<lambda>_. Some [1, 2, 3])\<rparr>"



section \<open>Logging in\<close>

lemma engine_finish_authentication_steps:
  assumes "engine_finish_authentication wl w response state cs = Inr v"
  obtains q a keys x where "wl_response_of wl response = Some q" and "wl_authentication_of wl state = Some a"
    and "map (\<lambda>c. wl_passkey_of wl (sc_public_data c)) cs = map Some keys"
    and "wl_finish_authentication wl w q a (map (wl_discoverable wl) keys) = Some x"
    and "av_credential_id v = wl_result_cred_id wl x"
  using assms stored_passkeys_all [of wl cs]
  by (auto simp: engine_finish_authentication_def and_then_eq_Inr ok_or_eq_iff Let_def)

lemma credentials_of_user:
  assumes "credentials_for_user i s = (Inr cs, t)"
  shows "pg_db t = pg_db s"
    and "c \<in> set cs \<Longrightarrow> \<exists>k\<in>set (db_credentials (pg_db s)). cr_user_id k = user_str i \<and> cr_revoked_at k = None
      \<and> cr_public_data k = sc_public_data c"
proof -
  note read = read_Inr [OF assms [unfolded credentials_for_user_def]]
  show "pg_db t = pg_db s" by (rule read(2))
  have data: "cr_public_data k = sc_public_data c" if "StoredCredential_try_from k = Inr c" for k :: passkey_credential and c
    using that by (auto simp: StoredCredential_try_from_def and_then_eq_Inr)
  have all: "collect_res (map StoredCredential_try_from ks) = Inr cs \<Longrightarrow> c \<in> set cs \<Longrightarrow>
      \<exists>k\<in>set ks. cr_public_data k = sc_public_data c" for ks :: "passkey_credential list" and cs
  proof (induction ks arbitrary: cs)
    case (Cons k ks)
    then show ?case by (cases "StoredCredential_try_from k") (auto split: sum.splits dest: data)
  qed simp
  assume "c \<in> set cs"
  from all [OF read(1) this] show "\<exists>k\<in>set (db_credentials (pg_db s)). cr_user_id k = user_str i
      \<and> cr_revoked_at k = None \<and> cr_public_data k = sc_public_data c" by auto
qed

lemma user_by_handle_found:
  assumes "user_by_handle w s = (Inr (Some u), t)"
  shows "u_webauthn_handle u = w" and "pg_db t = pg_db s"
proof -
  note read = read_Inr [OF assms [unfolded user_by_handle_def]]
  from read(1) obtain r where r: "List.find (\<lambda>u. ur_webauthn_handle u = w) (db_users (pg_db s)) = Some r"
    and u: "User_try_from r = Inr u"
    by (auto simp: transpose_map_Some)
  from u have "u_webauthn_handle u = ur_webauthn_handle r" by (auto simp: User_try_from_def and_then_eq_Inr)
  with find_SomeD [OF r] show "u_webauthn_handle u = w" by simp
  show "pg_db t = pg_db s" by (rule read(2))
qed

text \<open>
  C34: A login needs a verified passkey.  It succeeds only when the library identified the user by
  the handle in the response and accepted that response against the state stored for this very
  ceremony, which is an open login, with keys that are all unrevoked passkeys of that user, and
  returned the identifier of an unrevoked passkey of the user.
\<close>

theorem login_needs_verified_passkey:
  assumes "sv_store sv = pg_auth_store" and "sv_engine sv = webauthn_engine wl w"
    and "finish_authentication sv new_id token csrf i response now s = (Inr (g, u), s1)"
  shows "\<exists>e\<in>set (db_ceremonies (pg_db s)). ceremony_open i now e \<and> ce_kind e = ''authentication''
    \<and> (\<exists>q a x keys h. wl_response_of wl response = Some q \<and> wl_authentication_of wl (ce_state e) = Some a
        \<and> wl_identify wl w q = Some (u_webauthn_handle u, h)
        \<and> wl_finish_authentication wl w q a (map (wl_discoverable wl) keys) = Some x
        \<and> (\<forall>key\<in>set keys. \<exists>k\<in>set (db_credentials (pg_db s)). cr_user_id k = user_str (u_id u)
             \<and> cr_revoked_at k = None \<and> wl_passkey_of wl (cr_public_data k) = Some key)
        \<and> (\<exists>k\<in>set (db_credentials (pg_db s)). cr_user_id k = user_str (u_id u)
             \<and> cr_revoked_at k = None \<and> cr_credential_id k = wl_result_cred_id wl x))"
proof -
  obtain c t1 h ou t2 cs t3 v audit where
      c: "Pg_Store.ceremony i Authentication now s = (Inr (Some c), t1)"
    and h: "engine_user_handle wl w response = Inr h"
    and ou: "user_by_handle h t1 = (Inr ou, t2)" "enabled_user ou = Some u"
    and cs: "credentials_for_user (u_id u) t2 = (Inr cs, t3)"
    and v: "engine_finish_authentication wl w response (cm_state c) cs = Inr v"
    and complete: "complete_authentication i v (login_record sv new_id token csrf u now) now audit t3 = (Inr (), s1)"
    and "g = \<lparr>sg_token = token, sg_csrf = csrf, sg_record = login_record sv new_id token csrf u now\<rparr>"
    by (rule finish_authentication_steps [OF assms(3), unfolded assms(1,2) webauthn_engine_def]) simp
  obtain e where e: "e \<in> set (db_ceremonies (pg_db s))" "ceremony_open i now e" "ce_kind e = ceremony_name Authentication"
      "cm_id c = i" "cm_state c = ce_state e" "map_option as_bytes (cm_capability_hash c) = ce_capability_hash e"
    and t1: "pg_db t1 = pg_db s"
    using c by (rule ceremony_found)
  from ou(2) have "ou = Some u" by (auto simp: enabled_user_def split: option.splits if_splits)
  with ou(1) have u: "u_webauthn_handle u = h" and t2: "pg_db t2 = pg_db s" using user_by_handle_found t1 by simp_all
  obtain q a keys x where q: "wl_response_of wl response = Some q" and a: "wl_authentication_of wl (cm_state c) = Some a"
    and keys: "map (\<lambda>c. wl_passkey_of wl (sc_public_data c)) cs = map Some keys"
    and x: "wl_finish_authentication wl w q a (map (wl_discoverable wl) keys) = Some x"
    and av: "av_credential_id v = wl_result_cred_id wl x"
    using v by (rule engine_finish_authentication_steps)
  from h q u obtain b where ident: "wl_identify wl w q = Some (u_webauthn_handle u, b)"
    by (auto simp: engine_user_handle_def and_then_eq_Inr ok_or_eq_iff map_ok_def split: sum.splits)
  have "\<exists>k\<in>set (db_credentials (pg_db s)). cr_user_id k = user_str (u_id u)
      \<and> cr_revoked_at k = None \<and> wl_passkey_of wl (cr_public_data k) = Some key" if "key \<in> set keys" for key
  proof -
    have "Some key \<in> set (map (\<lambda>c. wl_passkey_of wl (sc_public_data c)) cs)" using that by (simp add: keys)
    then obtain c where "c \<in> set cs" "wl_passkey_of wl (sc_public_data c) = Some key" by auto
    with credentials_of_user(2) [OF cs this(1)] t2 show ?thesis by fastforce
  qed
  moreover have "\<exists>k\<in>set (db_credentials (pg_db s)). cr_user_id k = user_str (u_id u)
      \<and> cr_revoked_at k = None \<and> cr_credential_id k = wl_result_cred_id wl x"
    using complete by (rule complete_authentication_db)
      (use credentials_of_user(1) [OF cs] t2 av in \<open>auto simp: login_record_def\<close>)
  ultimately show ?thesis using e q a x ident by (intro bexI [of _ e]) auto
qed

definition webauthn_service :: "pg auth_service" where
  "webauthn_service = demo_service\<lparr>sv_engine := webauthn_engine demo_lib ()\<rparr>"

lemma webauthn_service_simps [simp]:
  "sv_store webauthn_service = pg_auth_store"
  "sv_engine webauthn_service = webauthn_engine demo_lib ()"
  "sv_config webauthn_service = AuthConfig_default"
  "service_hash webauthn_service (demo_token n) = SecretHash (demo_hash n)"
  by (simp_all add: webauthn_service_def service_hash_def token_hash_def demo_crypto_def demo_token_def demo_service_def)

lemma demo_engine_eval:
  "engine_user_handle demo_lib () r = Inr 7"
  "engine_finish_authentication demo_lib () r st [\<lparr>sc_id = 11, sc_user_id = UserId ''operator'',
      sc_credential_id = [1, 2, 3], sc_public_data = JNull, sc_revoked_at = None\<rparr>]
    = Inr \<lparr>av_credential_id = [1, 2, 3], av_updated_public_data = JNull\<rparr>"
  by (simp_all add: engine_user_handle_def engine_finish_authentication_def stored_passkey_def demo_lib_def)

lemma webauthn_login_ok:
  "\<exists>g s1. finish_authentication webauthn_service 32 (demo_token 5) (demo_token 6) 21 JNull 100 demo_pg
     = (Inr (g, user_of_row demo_operator), s1)"
  by (simp add: finish_authentication_def op_some_def op_bind_def op_then_def op_lift_def op_return_def
      demo_read_eval enabled_user_def webauthn_engine_def demo_engine_eval login_record_def)
    (simp add: complete_authentication_def insert_audit_def audit_to_row_def pg_eval demo_pg_def demo_db_def demo_rows
      session_to_row_def demo_hash_eq)

theorem login_needs_verified_passkey_witness:
  "\<exists>g s1. finish_authentication webauthn_service 32 (demo_token 5) (demo_token 6) 21 JNull 100 demo_pg
       = (Inr (g, user_of_row demo_operator), s1)
     \<and> (\<exists>e\<in>set (db_ceremonies (pg_db demo_pg)). ceremony_open 21 100 e \<and> ce_kind e = ''authentication'')"
proof -
  obtain g s1 where run: "finish_authentication webauthn_service 32 (demo_token 5) (demo_token 6) 21 JNull 100 demo_pg
       = (Inr (g, user_of_row demo_operator), s1)"
    using webauthn_login_ok by blast
  from login_needs_verified_passkey [OF webauthn_service_simps(1,2) run]
  have "\<exists>e\<in>set (db_ceremonies (pg_db demo_pg)). ceremony_open 21 100 e \<and> ce_kind e = ''authentication''" by blast
  with run show ?thesis by blast
qed

end
