(* ===== verification/Http.thy ===== *)
theory Http
  imports Webauthn_Engine
begin

text \<open>
  \<open>server/src/http.rs\<close>: guards, handlers and the two routers.

  A handler is a function of the application state, of what it draws (\<open>draws\<close>: the clock at its
  first and second call of \<open>Utc::now\<close>, tokens, identifiers, the engine's randomness), of the headers
  and of the arguments axum extracts.  \<open>header_map\<close> gives what the code asks of a header, the text of
  its first value if there is one and it is text.  What axum makes of the path and of the body is
  \<open>extracted\<close>, a rejection being the response axum answers with before the handler runs.
\<close>

section \<open>Requests and responses\<close>

datatype status =
    OK | ACCEPTED | NO_CONTENT | BAD_REQUEST | UNAUTHORIZED | FORBIDDEN | NOT_FOUND | METHOD_NOT_ALLOWED
  | CONFLICT | SERVICE_UNAVAILABLE | Other_status nat

record response =
  rs_status :: status
  rs_body :: "json option"
  rs_set_cookie :: "string option"
  rs_cache_control :: "string option"

type_synonym header_map = "string \<Rightarrow> string option"

datatype http_method = GET | HEAD | POST | OPTIONS | Other_method string

record cors_config =
  co_allow_origin :: string
  co_allow_credentials :: bool
  co_allow_methods :: "http_method list"
  co_allow_headers :: "string list"

text \<open>
  The application state, with what it uses of other crates: \<open>canonical_reason\<close> of a status, whether
  \<open>HeaderValue::from_str\<close> accepts a text, the serialization of a \<open>DateTime\<close>, and the CORS layer: the
  answer it gives itself, to a preflight, or \<^const>\<open>None\<close> when it passes the request on; the headers it
  then adds are not part of \<open>response\<close>.
\<close>

record app_state =
  st_auth :: "pg auth_service"
  st_browser_origin :: string
  st_canonical_reason :: "status \<Rightarrow> string option"
  st_header_text :: "string \<Rightarrow> bool"
  st_timestamp :: "time \<Rightarrow> string"
  st_cors :: "cors_config \<Rightarrow> http_method \<Rightarrow> header_map \<Rightarrow> response option"

record draws =
  dr_now :: time
  dr_now2 :: time
  dr_token :: secret_token
  dr_csrf :: secret_token
  dr_id :: uuid
  dr_id2 :: uuid
  dr_seed :: bytes

type_synonym 'a handler = "(pg, auth_error, 'a) op"

definition SESSION_COOKIE :: string where
  "SESSION_COOKIE = ''__Host-rs_session''"

definition CSRF_HEADER :: string where
  "CSRF_HEADER = ''x-csrf-token''"

definition plain_response :: "status \<Rightarrow> json option \<Rightarrow> response" where
  "plain_response st body = \<lparr>rs_status = st, rs_body = body, rs_set_cookie = None, rs_cache_control = None\<rparr>"

definition json_response :: "json \<Rightarrow> response" where
  "json_response v = plain_response OK (Some v)"

fun error_status :: "auth_error \<Rightarrow> status" where
  "error_status InvalidInput = BAD_REQUEST"
| "error_status InvalidToken = BAD_REQUEST"
| "error_status InvalidState = UNAUTHORIZED"
| "error_status Unauthenticated = UNAUTHORIZED"
| "error_status Verification = UNAUTHORIZED"
| "error_status Forbidden = FORBIDDEN"
| "error_status Conflict = CONFLICT"
| "error_status Store = SERVICE_UNAVAILABLE"

definition opt_string_json :: "string option \<Rightarrow> json" where
  "opt_string_json x = (case x of None \<Rightarrow> JNull | Some t \<Rightarrow> JString t)"

definition error_response :: "app_state \<Rightarrow> auth_error \<Rightarrow> response" where
  "error_response st e =
     plain_response (error_status e)
       (Some (JObject [(''error'', opt_string_json (st_canonical_reason st (error_status e)))]))"

text \<open>\<open>IntoResponse\<close> of a handler's result.\<close>

definition respond :: "app_state \<Rightarrow> response handler \<Rightarrow> pg \<Rightarrow> response \<times> pg" where
  "respond st h s = (case h s of (Inl e, s') \<Rightarrow> (error_response st e, s') | (Inr r, s') \<Rightarrow> (r, s'))"

definition no_store :: "response \<Rightarrow> response" where
  "no_store r = r\<lparr>rs_cache_control := Some ''no-store''\<rparr>"

section \<open>Guards\<close>

definition verify_origin_json :: "app_state \<Rightarrow> header_map \<Rightarrow> auth_error + unit" where
  "verify_origin_json st headers =
     and_then (ok_or Forbidden (headers ''origin'')) (\<lambda>origin.
       if origin \<noteq> st_browser_origin st then Inl Forbidden
       else let content_type = (case headers ''content-type'' of None \<Rightarrow> '''' | Some v \<Rightarrow> v) in
            if content_type \<noteq> ''application/json'' then Inl InvalidInput else Inr ())"

fun find_map :: "('a \<Rightarrow> 'b option) \<Rightarrow> 'a list \<Rightarrow> 'b option" where
  "find_map f [] = None"
| "find_map f (x # xs) = (case f x of Some y \<Rightarrow> Some y | None \<Rightarrow> find_map f xs)"

definition cookie_value :: "header_map \<Rightarrow> string \<Rightarrow> string option" where
  "cookie_value headers name =
     (case headers ''cookie'' of
        None \<Rightarrow> None
      | Some value \<Rightarrow>
          find_map (\<lambda>cookie. case strip_prefix name cookie of None \<Rightarrow> None | Some rest \<Rightarrow> strip_prefix ''='' rest)
            (map trim (split_on (CHR '';'') value)))"

definition st_crypto :: "app_state \<Rightarrow> crypto" where
  "st_crypto st = sv_crypto (st_auth st)"

definition session_token :: "app_state \<Rightarrow> header_map \<Rightarrow> auth_error + secret_token" where
  "session_token st headers =
     and_then (ok_or Unauthenticated (cookie_value headers SESSION_COOKIE)) (SecretToken_parse (st_crypto st))"

definition session_and_csrf :: "app_state \<Rightarrow> header_map \<Rightarrow> auth_error + secret_token \<times> secret_token" where
  "session_and_csrf st headers =
     and_then (session_token st headers) (\<lambda>token.
     and_then (and_then (ok_or Forbidden (headers CSRF_HEADER)) (SecretToken_parse (st_crypto st))) (\<lambda>csrf.
       Inr (token, csrf)))"

definition operator_tokens ::
    "app_state \<Rightarrow> header_map \<Rightarrow> bool \<Rightarrow> auth_error + secret_token \<times> secret_token option" where
  "operator_tokens st headers csrf_required =
     (if csrf_required then map_ok (\<lambda>(token, csrf). (token, Some csrf)) (session_and_csrf st headers)
      else map_ok (\<lambda>token. (token, None)) (session_token st headers))"

definition operator_gate :: "app_state \<Rightarrow> draws \<Rightarrow> header_map \<Rightarrow> bool \<Rightarrow> session_principal handler" where
  "operator_gate st dr headers csrf_required =
     op_bind (op_lift (operator_tokens st headers csrf_required)) (\<lambda>(token, csrf).
     op_bind (authenticate_session (st_auth st) token csrf (dr_now dr)) (\<lambda>principal.
       if u_role (sp_user principal) \<noteq> Operator then op_fail Forbidden else op_return principal))"

text \<open>\<open>Err(AuthError::Unauthenticated) => Ok(x)\<close>\<close>

definition unless_unauthenticated :: "'a \<Rightarrow> 'a handler \<Rightarrow> 'a handler" where
  "unless_unauthenticated x m s =
     (case m s of (Inl e, s') \<Rightarrow> (if e = Unauthenticated then Inr x else Inl e, s') | (Inr y, s') \<Rightarrow> (Inr y, s'))"

definition optional_session :: "app_state \<Rightarrow> draws \<Rightarrow> header_map \<Rightarrow> session_principal option handler" where
  "optional_session st dr headers =
     (case cookie_value headers SESSION_COOKIE of
        None \<Rightarrow> op_return None
      | Some value \<Rightarrow>
          op_bind (op_lift (SecretToken_parse (st_crypto st) value)) (\<lambda>token.
            unless_unauthenticated None
              (op_bind (authenticate_session (st_auth st) token None (dr_now dr)) (\<lambda>p. op_return (Some p)))))"

section \<open>Public handlers\<close>

definition live_handler :: response where
  "live_handler = json_response (JObject [(''status'', JString ''ok'')])"

definition ready_handler :: "pg \<Rightarrow> response \<times> pg" where
  "ready_handler s =
     (case ready s of (b, s') \<Rightarrow>
        (if b then plain_response OK (Some (JObject [(''status'', JString ''ready'')]))
         else plain_response SERVICE_UNAVAILABLE (Some (JObject [(''status'', JString ''not_ready'')])), s'))"

definition capability_document :: "string \<Rightarrow> string list \<Rightarrow> response" where
  "capability_document audience capabilities =
     json_response (JObject [(''schema_version'', JNumber 1), (''audience'', JString audience),
       (''capabilities'', JArray (map JString capabilities))])"

definition public_capabilities_handler :: "app_state \<Rightarrow> draws \<Rightarrow> header_map \<Rightarrow> response handler" where
  "public_capabilities_handler st dr headers =
     op_bind (optional_session st dr headers) (\<lambda>principal.
     op_return (case principal of
       Some _ \<Rightarrow> capability_document ''user'' [''session.logout'', ''profile.read_self'', ''recovery.request_self'']
     | None \<Rightarrow> capability_document ''anonymous''
         [''session.discover'', ''auth.login'', ''auth.setup'', ''recovery.request'']))"

definition unauthenticated_document :: response where
  "unauthenticated_document = json_response (JObject [(''schema_version'', JNumber 1), (''authenticated'', JBool False)])"

definition session_discovery_handler :: "app_state \<Rightarrow> draws \<Rightarrow> header_map \<Rightarrow> response handler" where
  "session_discovery_handler st dr headers =
     (case cookie_value headers SESSION_COOKIE of
        None \<Rightarrow> op_return unauthenticated_document
      | Some value \<Rightarrow>
          op_bind (op_lift (SecretToken_parse (st_crypto st) value)) (\<lambda>token.
            unless_unauthenticated unauthenticated_document
              (op_bind (issue_session_csrf (st_auth st) (dr_csrf dr) token (dr_now dr)) (\<lambda>(principal, csrf).
                 op_return (json_response (JObject
                   [(''schema_version'', JNumber 1), (''authenticated'', JBool True),
                    (''principal'', JObject [(''id'', JString (user_str (u_id (sp_user principal)))),
                       (''display_name'', JString (u_display_name (sp_user principal))),
                       (''role'', role_json (u_role (sp_user principal)))]),
                    (''csrf_token'', JString (expose (st_crypto st) csrf)),
                    (''absolute_expires_at'', JString (st_timestamp st (sp_absolute_expires_at principal)))]))))))"

definition ceremony_document :: "uuid \<Rightarrow> json \<Rightarrow> response" where
  "ceremony_document ceremony_id public_key =
     json_response (JObject [(''ceremony_id'', JString (uuid_str ceremony_id)), (''public_key'', public_key)])"

definition login_start_handler :: "app_state \<Rightarrow> draws \<Rightarrow> header_map \<Rightarrow> response handler" where
  "login_start_handler st dr headers =
     op_bind (op_lift (verify_origin_json st headers)) (\<lambda>_.
     op_bind (start_authentication (st_auth st) (dr_seed dr) (dr_id dr) (dr_now dr)) (\<lambda>(ceremony_id, public_key).
     op_return (ceremony_document ceremony_id public_key)))"

record ceremony_finish =
  cf_ceremony_id :: uuid
  cf_credential :: json
  cf_ceremony_kind :: "ceremony_kind option"

definition session_cookie :: "crypto \<Rightarrow> secret_token \<Rightarrow> string" where
  "session_cookie cr token =
     SESSION_COOKIE @ ''='' @ expose cr token @ ''; Path=/; Secure; HttpOnly; SameSite=Strict''"

definition login_finish_handler :: "app_state \<Rightarrow> draws \<Rightarrow> header_map \<Rightarrow> ceremony_finish \<Rightarrow> response handler" where
  "login_finish_handler st dr headers request =
     op_bind (op_lift (verify_origin_json st headers)) (\<lambda>_.
     op_bind (finish_authentication (st_auth st) (dr_id dr) (dr_token dr) (dr_csrf dr)
                (cf_ceremony_id request) (cf_credential request) (dr_now dr)) (\<lambda>(grant, user).
     let cookie = session_cookie (st_crypto st) (sg_token grant);
         response = json_response (JObject
           [(''schema_version'', JNumber 1), (''authenticated'', JBool True), (''role'', role_json (u_role user)),
            (''csrf_token'', JString (expose (st_crypto st) (sg_csrf grant))),
            (''absolute_expires_at'', JString (st_timestamp st (sr_absolute_expires_at (sg_record grant))))])
     in if st_header_text st cookie then op_return (response\<lparr>rs_set_cookie := Some cookie\<rparr>) else op_fail Store))"

definition logout_handler :: "app_state \<Rightarrow> draws \<Rightarrow> header_map \<Rightarrow> response handler" where
  "logout_handler st dr headers =
     op_bind (op_lift (verify_origin_json st headers)) (\<lambda>_.
     op_bind (op_lift (session_and_csrf st headers)) (\<lambda>(token, csrf).
     op_bind (authenticate_session (st_auth st) token (Some csrf) (dr_now dr)) (\<lambda>_.
     op_bind (logout (st_auth st) token) (\<lambda>_.
     op_return ((plain_response NO_CONTENT None)\<lparr>rs_set_cookie :=
       Some ''__Host-rs_session=; Path=/; Secure; HttpOnly; SameSite=Strict; Max-Age=0''\<rparr>)))))"

record setup_start =
  ss_setup_token :: string
  ss_recovery :: bool

definition setup_start_handler :: "app_state \<Rightarrow> draws \<Rightarrow> header_map \<Rightarrow> setup_start \<Rightarrow> response handler" where
  "setup_start_handler st dr headers request =
     op_bind (op_lift (verify_origin_json st headers)) (\<lambda>_.
     op_bind (op_lift (SecretToken_parse (st_crypto st) (ss_setup_token request))) (\<lambda>token.
     op_bind (start_setup_registration (st_auth st) (dr_seed dr) (dr_id dr) token
                (if ss_recovery request then RecoverySetup else Setup) (dr_now dr)) (\<lambda>(ceremony_id, public_key).
     op_return (ceremony_document ceremony_id public_key))))"

definition setup_finish_handler :: "app_state \<Rightarrow> draws \<Rightarrow> header_map \<Rightarrow> ceremony_finish \<Rightarrow> response handler" where
  "setup_finish_handler st dr headers request =
     op_bind (op_lift (verify_origin_json st headers)) (\<lambda>_.
     op_bind (finish_registration (st_auth st) (dr_id dr) (cf_ceremony_id request) Registration
                (cf_credential request) (dr_now dr)) (\<lambda>_.
     op_return (plain_response NO_CONTENT None)))"

text \<open>\<open>UserId::new(..).map_err(|_| ApiError(AuthError::InvalidInput))\<close>\<close>

definition request_user_id :: "string \<Rightarrow> auth_error + user_id" where
  "request_user_id s = map_err (\<lambda>_. InvalidInput) (UserId_new s)"

definition recovery_request_handler :: "app_state \<Rightarrow> draws \<Rightarrow> header_map \<Rightarrow> string \<Rightarrow> response handler" where
  "recovery_request_handler st dr headers body_user_id =
     op_bind (op_lift (verify_origin_json st headers)) (\<lambda>_.
     op_bind (op_lift (request_user_id body_user_id)) (\<lambda>user_id.
     op_bind (request_recovery (st_auth st) (dr_id dr) user_id (dr_now dr)) (\<lambda>recovery.
     op_return (plain_response ACCEPTED (Some (JObject
       [(''request_id'', JString (uuid_str (rq_id recovery))), (''status'', JString ''pending'')]))))))"

section \<open>Operator handlers\<close>

definition operator_bootstrap_start_handler :: "app_state \<Rightarrow> draws \<Rightarrow> header_map \<Rightarrow> response handler" where
  "operator_bootstrap_start_handler st dr headers =
     op_bind (op_lift (verify_origin_json st headers)) (\<lambda>_.
     op_bind (start_operator_bootstrap (st_auth st) (dr_seed dr) (dr_id dr) (dr_now dr))
       (\<lambda>(ceremony_id, public_key, ceremony_kind).
     op_return (json_response (JObject [(''ceremony_id'', JString (uuid_str ceremony_id)),
       (''ceremony_kind'', ceremony_kind_json ceremony_kind), (''public_key'', public_key)]))))"

definition operator_bootstrap_finish_handler ::
    "app_state \<Rightarrow> draws \<Rightarrow> header_map \<Rightarrow> ceremony_finish \<Rightarrow> response handler" where
  "operator_bootstrap_finish_handler st dr headers request =
     op_bind (op_lift (verify_origin_json st headers)) (\<lambda>_.
     let kind = (case cf_ceremony_kind request of None \<Rightarrow> OperatorBootstrap | Some k \<Rightarrow> k) in
     if kind \<noteq> OperatorBootstrap \<and> kind \<noteq> OperatorRecoveryCeremony then op_fail InvalidInput
     else op_bind (finish_registration (st_auth st) (dr_id dr) (cf_ceremony_id request) kind
                     (cf_credential request) (dr_now dr)) (\<lambda>_.
          op_return (plain_response NO_CONTENT None)))"

definition recovery_json :: "app_state \<Rightarrow> recovery_request \<Rightarrow> json" where
  "recovery_json st r = JObject
     [(''id'', JString (uuid_str (rq_id r))), (''user_id'', JString (user_str (rq_user_id r))),
      (''requested_at'', JString (st_timestamp st (rq_requested_at r))),
      (''approved_at'', opt_string_json (map_option (st_timestamp st) (rq_approved_at r)))]"

definition pending_recoveries_handler :: "app_state \<Rightarrow> draws \<Rightarrow> header_map \<Rightarrow> response handler" where
  "pending_recoveries_handler st dr headers =
     op_bind (operator_gate st dr headers False) (\<lambda>_.
     op_bind (service_pending_recoveries (st_auth st)) (\<lambda>recoveries.
     op_return (json_response (JObject
       [(''schema_version'', JNumber 1), (''recoveries'', JArray (map (recovery_json st) recoveries))]))))"

definition approve_recovery_handler :: "app_state \<Rightarrow> draws \<Rightarrow> header_map \<Rightarrow> uuid \<Rightarrow> response handler" where
  "approve_recovery_handler st dr headers i =
     op_bind (op_lift (verify_origin_json st headers)) (\<lambda>_.
     op_bind (operator_gate st dr headers True) (\<lambda>principal.
     op_bind (service_approve_recovery (st_auth st) i (u_id (sp_user principal)) (dr_now2 dr)) (\<lambda>_.
     op_return (plain_response NO_CONTENT None))))"

definition setup_fragment_document :: "app_state \<Rightarrow> secret_token \<Rightarrow> response" where
  "setup_fragment_document st token =
     json_response (JObject [(''setup_fragment'', JString (''#setup='' @ expose (st_crypto st) token)),
       (''expires_in_seconds'', JNumber 900)])"

definition issue_recovery_setup_handler ::
    "app_state \<Rightarrow> draws \<Rightarrow> header_map \<Rightarrow> uuid \<Rightarrow> string \<Rightarrow> response handler" where
  "issue_recovery_setup_handler st dr headers i body_user_id =
     op_bind (op_lift (verify_origin_json st headers)) (\<lambda>_.
     op_bind (operator_gate st dr headers True) (\<lambda>principal.
     op_bind (op_lift (request_user_id body_user_id)) (\<lambda>user_id.
     op_bind (service_issue_recovery_setup (st_auth st) (dr_id dr) (dr_token dr) i
                (u_id (sp_user principal)) user_id (dr_now2 dr)) (\<lambda>token.
     op_return (setup_fragment_document st token)))))"

record approve_user_body =
  ab_user_id :: string
  ab_email :: string
  ab_display_name :: string

definition approve_user_handler :: "app_state \<Rightarrow> draws \<Rightarrow> header_map \<Rightarrow> approve_user_body \<Rightarrow> response handler" where
  "approve_user_handler st dr headers request =
     op_bind (op_lift (verify_origin_json st headers)) (\<lambda>_.
     op_bind (operator_gate st dr headers True) (\<lambda>principal.
     op_bind (op_lift (request_user_id (ab_user_id request))) (\<lambda>user_id.
     op_bind (approve_user_and_issue_setup (st_auth st) (dr_id2 dr) (dr_id dr) (dr_token dr)
                (u_id (sp_user principal)) user_id (ab_email request) (ab_display_name request) (dr_now2 dr)) (\<lambda>token.
     op_return (setup_fragment_document st token)))))"

definition operator_capabilities_handler :: "app_state \<Rightarrow> draws \<Rightarrow> header_map \<Rightarrow> response handler" where
  "operator_capabilities_handler st dr headers =
     op_bind (operator_gate st dr headers False) (\<lambda>_.
     op_return (capability_document ''operator''
       [''platform.read'', ''user.approve'', ''recovery.list'', ''recovery.approve'', ''recovery.setup_issue'']))"

section \<open>Routers\<close>

datatype endpoint =
    Live | Ready | Public_capabilities | Session_discovery | Login_start | Login_finish | Logout
  | Setup_start | Setup_finish | Recovery_request
  | Operator_bootstrap_start | Operator_bootstrap_finish | Pending_recoveries | Approve_recovery
  | Issue_recovery_setup | Approve_user | Operator_capabilities

definition public_routes :: "(string \<times> http_method \<times> endpoint) list" where
  "public_routes =
     [(''/health/live'', GET, Live),
      (''/health/ready'', GET, Ready),
      (''/v1/capabilities'', GET, Public_capabilities),
      (''/v1/session'', GET, Session_discovery),
      (''/v1/auth/login/start'', POST, Login_start),
      (''/v1/auth/login/finish'', POST, Login_finish),
      (''/v1/auth/logout'', POST, Logout),
      (''/v1/auth/setup/start'', POST, Setup_start),
      (''/v1/auth/setup/finish'', POST, Setup_finish),
      (''/v1/recovery/request'', POST, Recovery_request)]"

definition private_routes :: "(string \<times> http_method \<times> endpoint) list" where
  "private_routes =
     [(''/health/live'', GET, Live),
      (''/health/ready'', GET, Ready),
      (''/v1/operator/bootstrap/start'', POST, Operator_bootstrap_start),
      (''/v1/operator/bootstrap/finish'', POST, Operator_bootstrap_finish),
      (''/v1/operator/recoveries'', GET, Pending_recoveries),
      (''/v1/operator/recoveries/{id}/approve'', POST, Approve_recovery),
      (''/v1/operator/recoveries/{id}/setup'', POST, Issue_recovery_setup),
      (''/v1/operator/users'', POST, Approve_user),
      (''/v1/operator/capabilities'', GET, Operator_capabilities)]"

record extracted =
  ex_path_id :: "response + uuid"
  ex_ceremony_finish :: "response + ceremony_finish"
  ex_setup_start :: "response + setup_start"
  ex_recovery_request :: "response + string"
  ex_recovery_setup :: "response + string"
  ex_approve_user :: "response + approve_user_body"

text \<open>A handler runs only when its arguments were extracted.\<close>

definition with_arg :: "response + 'a \<Rightarrow> ('a \<Rightarrow> pg \<Rightarrow> response \<times> pg) \<Rightarrow> pg \<Rightarrow> response \<times> pg" where
  "with_arg x h s = (case x of Inl rejection \<Rightarrow> (rejection, s) | Inr a \<Rightarrow> h a s)"

fun run_endpoint :: "app_state \<Rightarrow> draws \<Rightarrow> header_map \<Rightarrow> extracted \<Rightarrow> endpoint \<Rightarrow> pg \<Rightarrow> response \<times> pg" where
  "run_endpoint st dr headers ex Live = (\<lambda>s. (live_handler, s))"
| "run_endpoint st dr headers ex Ready = ready_handler"
| "run_endpoint st dr headers ex Public_capabilities = respond st (public_capabilities_handler st dr headers)"
| "run_endpoint st dr headers ex Session_discovery = respond st (session_discovery_handler st dr headers)"
| "run_endpoint st dr headers ex Login_start = respond st (login_start_handler st dr headers)"
| "run_endpoint st dr headers ex Login_finish =
     with_arg (ex_ceremony_finish ex) (\<lambda>a. respond st (login_finish_handler st dr headers a))"
| "run_endpoint st dr headers ex Logout = respond st (logout_handler st dr headers)"
| "run_endpoint st dr headers ex Setup_start =
     with_arg (ex_setup_start ex) (\<lambda>a. respond st (setup_start_handler st dr headers a))"
| "run_endpoint st dr headers ex Setup_finish =
     with_arg (ex_ceremony_finish ex) (\<lambda>a. respond st (setup_finish_handler st dr headers a))"
| "run_endpoint st dr headers ex Recovery_request =
     with_arg (ex_recovery_request ex) (\<lambda>a. respond st (recovery_request_handler st dr headers a))"
| "run_endpoint st dr headers ex Operator_bootstrap_start = respond st (operator_bootstrap_start_handler st dr headers)"
| "run_endpoint st dr headers ex Operator_bootstrap_finish =
     with_arg (ex_ceremony_finish ex) (\<lambda>a. respond st (operator_bootstrap_finish_handler st dr headers a))"
| "run_endpoint st dr headers ex Pending_recoveries = respond st (pending_recoveries_handler st dr headers)"
| "run_endpoint st dr headers ex Approve_recovery =
     with_arg (ex_path_id ex) (\<lambda>i. respond st (approve_recovery_handler st dr headers i))"
| "run_endpoint st dr headers ex Issue_recovery_setup =
     with_arg (ex_path_id ex) (\<lambda>i. with_arg (ex_recovery_setup ex)
       (\<lambda>a. respond st (issue_recovery_setup_handler st dr headers i a)))"
| "run_endpoint st dr headers ex Approve_user =
     with_arg (ex_approve_user ex) (\<lambda>a. respond st (approve_user_handler st dr headers a))"
| "run_endpoint st dr headers ex Operator_capabilities = respond st (operator_capabilities_handler st dr headers)"

definition not_found :: response where
  "not_found = plain_response NOT_FOUND None"

text \<open>
  \<open>cors\<close>: the one origin, with credentials, two methods and two headers; \<^const>\<open>None\<close> is the panic of
  \<open>expect\<close> on an origin that is no header value.
\<close>

definition cors :: "app_state \<Rightarrow> string \<Rightarrow> cors_config option" where
  "cors st origin =
     (if st_header_text st origin
      then Some \<lparr>co_allow_origin = origin, co_allow_credentials = True, co_allow_methods = [GET, POST],
                 co_allow_headers = [''content-type'', CSRF_HEADER]\<rparr>
      else None)"

text \<open>
  axum picks the pattern that matches the path, or none; then the method picks the handler.  A \<open>get\<close>
  route also answers \<open>HEAD\<close>, with the body of its response removed.
\<close>

definition routed ::
    "(string \<times> http_method \<times> endpoint) list \<Rightarrow> app_state \<Rightarrow> draws \<Rightarrow> header_map \<Rightarrow> extracted
       \<Rightarrow> string option \<Rightarrow> http_method \<Rightarrow> pg \<Rightarrow> response \<times> pg" where
  "routed routes st dr headers ex matched verb s =
     (case matched of
        None \<Rightarrow> (not_found, s)
      | Some pattern \<Rightarrow>
          (case map_of routes pattern of
             None \<Rightarrow> (not_found, s)
           | Some (m, ep) \<Rightarrow>
               if m = verb then run_endpoint st dr headers ex ep s
               else if m = GET \<and> verb = HEAD
               then (case run_endpoint st dr headers ex ep s of (r, s') \<Rightarrow> (r\<lparr>rs_body := None\<rparr>, s'))
               else (plain_response METHOD_NOT_ALLOWED None, s)))"

text \<open>A router: the CORS layer around the routes, and \<open>no_store\<close> around both.\<close>

definition router ::
    "(string \<times> http_method \<times> endpoint) list \<Rightarrow> cors_config \<Rightarrow> app_state \<Rightarrow> draws \<Rightarrow> header_map \<Rightarrow> extracted
       \<Rightarrow> string option \<Rightarrow> http_method \<Rightarrow> pg \<Rightarrow> response \<times> pg" where
  "router routes c st dr headers ex matched verb s =
     (case (case st_cors st c verb headers of
              Some preflight \<Rightarrow> (preflight, s)
            | None \<Rightarrow> routed routes st dr headers ex matched verb s)
      of (r, s') \<Rightarrow> (no_store r, s'))"

definition public_router :: "cors_config \<Rightarrow> app_state \<Rightarrow> draws \<Rightarrow> header_map \<Rightarrow> extracted
    \<Rightarrow> string option \<Rightarrow> http_method \<Rightarrow> pg \<Rightarrow> response \<times> pg" where
  "public_router = router public_routes"

definition private_router :: "cors_config \<Rightarrow> app_state \<Rightarrow> draws \<Rightarrow> header_map \<Rightarrow> extracted
    \<Rightarrow> string option \<Rightarrow> http_method \<Rightarrow> pg \<Rightarrow> response \<times> pg" where
  "private_router = router private_routes"

end
