(* ===== verification/Http_Properties.thy ===== *)
theory Http_Properties
  imports Http
begin

text \<open>
  The properties of the HTTP layer: the two inventories of routes, the guards on mutations and on
  the operator routes, cookies, the lifetime of setup tokens, and that every request is a run of the
  store.
\<close>

section \<open>Routes\<close>

definition route_paths :: "(string \<times> http_method \<times> endpoint) list \<Rightarrow> string set" where
  "route_paths routes = fst ` set routes"

lemma route_paths_filter:
  "{p \<in> route_paths routes. P p} = set (List.filter P (map fst routes))"
  by (auto simp: route_paths_def)

definition route_endpoints :: "(string \<times> http_method \<times> endpoint) list \<Rightarrow> endpoint set" where
  "route_endpoints routes = (\<lambda>(_, _, ep). ep) ` set routes"

text \<open>
  The two routers are separate.  They share the health routes and nothing else, neither a path
  nor a handler; every other private path is below \<open>/v1/operator/\<close> and no public path is; no path is
  routed twice; and the handlers that take part in an operator's work are all private.
\<close>

theorem route_inventories_separate:
  "route_paths public_routes \<inter> route_paths private_routes = {''/health/live'', ''/health/ready''}
   \<and> route_endpoints public_routes \<inter> route_endpoints private_routes = {Live, Ready}
   \<and> {p \<in> route_paths private_routes. \<not> prefix ''/v1/operator/'' p} = {''/health/live'', ''/health/ready''}
   \<and> {p \<in> route_paths public_routes. prefix ''/v1/operator/'' p} = {}
   \<and> distinct (map fst public_routes) \<and> distinct (map fst private_routes)
   \<and> {Operator_bootstrap_start, Operator_bootstrap_finish, Pending_recoveries, Approve_recovery,
       Issue_recovery_setup, Approve_user, Operator_capabilities} \<subseteq> route_endpoints private_routes"
proof (intro conjI)
  show "{p \<in> route_paths private_routes. \<not> prefix ''/v1/operator/'' p} = {''/health/live'', ''/health/ready''}"
    unfolding route_paths_filter by (simp add: private_routes_def)
  show "{p \<in> route_paths public_routes. prefix ''/v1/operator/'' p} = {}"
    unfolding route_paths_filter by (simp add: public_routes_def)
qed (auto simp: route_paths_def route_endpoints_def public_routes_def private_routes_def)

section \<open>Mutations\<close>

text \<open>The responses axum answers with when it cannot extract an argument.\<close>

definition rejections :: "extracted \<Rightarrow> response set" where
  "rejections ex = {r. ex_path_id ex = Inl r \<or> ex_ceremony_finish ex = Inl r \<or> ex_setup_start ex = Inl r
     \<or> ex_recovery_request ex = Inl r \<or> ex_recovery_setup ex = Inl r \<or> ex_approve_user ex = Inl r}"

definition trusted_json :: "app_state \<Rightarrow> header_map \<Rightarrow> bool" where
  "trusted_json st headers \<longleftrightarrow> headers ''origin'' = Some (st_browser_origin st)
     \<and> headers ''content-type'' = Some ''application/json''"

lemma verify_origin_json_eq:
  "verify_origin_json st headers =
     (if trusted_json st headers then Inr ()
      else Inl (if headers ''origin'' = Some (st_browser_origin st) then InvalidInput else Forbidden))"
  by (cases "headers ''origin''"; cases "headers ''content-type''")
    (auto simp: verify_origin_json_def trusted_json_def)

definition refusal :: "app_state \<Rightarrow> header_map \<Rightarrow> response" where
  "refusal st headers =
     error_response st (if headers ''origin'' = Some (st_browser_origin st) then InvalidInput else Forbidden)"

lemma respond_untrusted:
  "\<not> trusted_json st headers \<Longrightarrow>
     respond st (op_bind (op_lift (verify_origin_json st headers)) f) s = (refusal st headers, s)"
  by (simp add: respond_def op_bind_def op_lift_def verify_origin_json_eq refusal_def)

lemmas mutation_defs = login_start_handler_def login_finish_handler_def logout_handler_def setup_start_handler_def
  setup_finish_handler_def recovery_request_handler_def operator_bootstrap_start_handler_def
  operator_bootstrap_finish_handler_def approve_recovery_handler_def issue_recovery_setup_handler_def
  approve_user_handler_def

text \<open>
  C35: Mutations are refused before any work.  A POST route of either router that is called without
  exactly the configured origin or without exactly the JSON content type answers, unless axum
  already rejected its arguments, with forbidden for the origin and bad request for the type, and
  sends nothing to the database.
\<close>

theorem mutations_refused_before_work:
  assumes "(p, POST, ep) \<in> set public_routes \<union> set private_routes"
    and "\<not> (headers ''origin'' = Some (st_browser_origin st) \<and> headers ''content-type'' = Some ''application/json'')"
  shows "snd (run_endpoint st dr headers ex ep s) = s
    \<and> (fst (run_endpoint st dr headers ex ep s) = refusal st headers
       \<or> fst (run_endpoint st dr headers ex ep s) \<in> rejections ex)"
proof -
  have no: "\<not> trusted_json st headers" using assms(2) by (simp add: trusted_json_def)
  have "ep \<in> {Login_start, Login_finish, Logout, Setup_start, Setup_finish, Recovery_request,
      Operator_bootstrap_start, Operator_bootstrap_finish, Approve_recovery, Issue_recovery_setup, Approve_user}"
    using assms(1) by (simp add: public_routes_def private_routes_def) blast
  then show ?thesis
    by (elim insertE emptyE; simp only: run_endpoint.simps mutation_defs respond_untrusted [OF no])
      (auto simp: with_arg_def respond_untrusted [OF no] rejections_def split: sum.splits)
qed

definition demo_state :: app_state where
  "demo_state = \<lparr>st_auth = demo_service, st_browser_origin = ''https://a'', st_canonical_reason = (\<lambda>_. None),
     st_header_text = (\<lambda>_. True), st_timestamp = (\<lambda>_. ''''), st_cors = (\<lambda>_ _ _. None)\<rparr>"

definition demo_cors :: cors_config where
  "demo_cors = \<lparr>co_allow_origin = ''https://a'', co_allow_credentials = True, co_allow_methods = [GET, POST],
     co_allow_headers = [''content-type'', CSRF_HEADER]\<rparr>"

definition demo_draws :: draws where
  "demo_draws = \<lparr>dr_now = 100, dr_now2 = 100, dr_token = demo_token 5, dr_csrf = demo_token 6, dr_id = 32, dr_id2 = 33,
     dr_seed = []\<rparr>"

definition demo_extracted :: extracted where
  "demo_extracted = \<lparr>ex_path_id = Inr 51, ex_ceremony_finish = Inl not_found, ex_setup_start = Inl not_found,
     ex_recovery_request = Inr ''operator'', ex_recovery_setup = Inr ''operator'', ex_approve_user = Inl not_found\<rparr>"

theorem mutations_refused_before_work_witness:
  "fst (run_endpoint demo_state demo_draws (\<lambda>h. if h = ''origin'' then Some ''https://b'' else None) demo_extracted
      Login_start demo_pg)
   \<in> {refusal demo_state (\<lambda>h. if h = ''origin'' then Some ''https://b'' else None)} \<union> rejections demo_extracted"
proof -
  let ?h = "\<lambda>h. if h = ''origin'' then Some ''https://b'' else None"
  have "(''/v1/auth/login/start'', POST, Login_start) \<in> set public_routes \<union> set private_routes"
    by (simp add: public_routes_def)
  moreover have "\<not> (?h ''origin'' = Some (st_browser_origin demo_state) \<and> ?h ''content-type'' = Some ''application/json'')"
    by simp
  ultimately show ?thesis
    using mutations_refused_before_work [of _ Login_start ?h demo_state demo_draws demo_extracted demo_pg] by blast
qed

section \<open>Operator routes\<close>

text \<open>
  What lets a request act as an operator: the session cookie carries the token of a live session of
  an operator and, where a CSRF token is required, the header carries the token of that session.
\<close>

definition operator_authority :: "app_state \<Rightarrow> header_map \<Rightarrow> time \<Rightarrow> bool \<Rightarrow> db \<Rightarrow> bool" where
  "operator_authority st headers now csrf_required d \<longleftrightarrow>
     (\<exists>v token n u. cookie_value headers SESSION_COOKIE = Some v \<and> SecretToken_parse (st_crypto st) v = Inr token
       \<and> live_session (service_hash (st_auth st) token) now d = Some (n, u) \<and> ur_role u = ''operator''
       \<and> (csrf_required \<longrightarrow> (\<exists>c csrf. headers CSRF_HEADER = Some c \<and> SecretToken_parse (st_crypto st) c = Inr csrf
            \<and> as_bytes (service_hash (st_auth st) csrf) = se_csrf_hash n)))"

text \<open>What authenticating with a token does: nothing, or the refresh of the live session with that token.\<close>

definition touched_by :: "'s auth_service \<Rightarrow> secret_token \<Rightarrow> time \<Rightarrow> db \<Rightarrow> db \<Rightarrow> bool" where
  "touched_by sv token now d d' \<longleftrightarrow> d' = d
     \<or> (\<exists>n u. live_session (service_hash sv token) now d = Some (n, u)
          \<and> d' = session_seen n now (now + ac_session_idle_ttl (sv_config sv)) d)"

definition carries_token :: "app_state \<Rightarrow> header_map \<Rightarrow> secret_token \<Rightarrow> bool" where
  "carries_token st headers token \<longleftrightarrow>
     (\<exists>v. cookie_value headers SESSION_COOKIE = Some v \<and> SecretToken_parse (st_crypto st) v = Inr token)"

text \<open>At most the session whose cookie the request carries was refreshed.\<close>

definition only_touched :: "app_state \<Rightarrow> header_map \<Rightarrow> time \<Rightarrow> db \<Rightarrow> db \<Rightarrow> bool" where
  "only_touched st headers now d d' \<longleftrightarrow> d' = d
     \<or> (\<exists>token. carries_token st headers token \<and> touched_by (st_auth st) token now d d')"

lemma authenticate_session_served:
  assumes "sv_store sv = pg_auth_store" and "store_ok s" and "authenticate_session sv token csrf now s = (r, s')"
  shows "touched_by sv token now (pg_db s) (pg_db s')"
    and "r = Inr p \<Longrightarrow> \<exists>n u. live_session (service_hash sv token) now (pg_db s) = Some (n, u) \<and> p = principal_of n u
      \<and> (\<forall>c. csrf = Some c \<longrightarrow> service_hash sv c = SecretHash (se_csrf_hash n))"
proof -
  let ?idle = "now + ac_session_idle_ttl (sv_config sv)"
  have served: "session (service_hash sv token) now ?idle s =
    (case live_session (service_hash sv token) now (pg_db s) of
       None \<Rightarrow> (Inr None, s)
     | Some (n, u) \<Rightarrow> (Inr (Some (principal_of n u)), s\<lparr>pg_db := session_seen n now ?idle (pg_db s)\<rparr>))"
    using assms(2) by (intro session_served) (simp_all add: store_ok_def)
  have "touched_by sv token now (pg_db s) (pg_db s') \<and> (r = Inr p \<longrightarrow>
      (\<exists>n u. live_session (service_hash sv token) now (pg_db s) = Some (n, u) \<and> p = principal_of n u
        \<and> (\<forall>c. csrf = Some c \<longrightarrow> service_hash sv c = SecretHash (se_csrf_hash n))))"
  proof (cases "live_session (service_hash sv token) now (pg_db s)")
    case None
    with assms(3) served show ?thesis
      by (auto simp: authenticate_session_def assms(1) op_some_def op_then_def op_bind_def touched_by_def)
  next
    case (Some x)
    obtain n u where x: "x = (n, u)" by (cases x)
    have touched: "touched_by sv token now (pg_db s) (session_seen n now ?idle (pg_db s))"
      using Some x by (simp add: touched_by_def)
    from assms(3) served Some x show ?thesis
      by (cases csrf) (auto simp: authenticate_session_def assms(1) op_some_def op_then_def op_bind_def
          op_return_def op_fail_def touched principal_of_def split: if_splits)
  qed
  then show "touched_by sv token now (pg_db s) (pg_db s')" and "r = Inr p \<Longrightarrow>
      \<exists>n u. live_session (service_hash sv token) now (pg_db s) = Some (n, u) \<and> p = principal_of n u
      \<and> (\<forall>c. csrf = Some c \<longrightarrow> service_hash sv c = SecretHash (se_csrf_hash n))" by blast+
qed

lemma operator_tokens_Inr:
  assumes "operator_tokens st headers csrf_required = Inr (token, ocsrf)"
  shows "\<exists>v. cookie_value headers SESSION_COOKIE = Some v \<and> SecretToken_parse (st_crypto st) v = Inr token"
    and "csrf_required \<Longrightarrow> \<exists>c csrf. ocsrf = Some csrf \<and> headers CSRF_HEADER = Some c
      \<and> SecretToken_parse (st_crypto st) c = Inr csrf"
  using assms by (auto simp: operator_tokens_def session_and_csrf_def session_token_def map_ok_def and_then_eq_Inr
      ok_or_eq_iff split: if_splits sum.splits)

lemma operator_gate_served:
  assumes "sv_store (st_auth st) = pg_auth_store" and "store_ok s"
    and "operator_gate st dr headers csrf_required s = (r, s')"
  shows "only_touched st headers (dr_now dr) (pg_db s) (pg_db s')"
    and "r = Inr p \<Longrightarrow> operator_authority st headers (dr_now dr) csrf_required (pg_db s)"
proof -
  have "only_touched st headers (dr_now dr) (pg_db s) (pg_db s')
    \<and> (r = Inr p \<longrightarrow> operator_authority st headers (dr_now dr) csrf_required (pg_db s))"
  proof (cases "operator_tokens st headers csrf_required")
    case (Inl e)
    with assms(3) show ?thesis by (auto simp: operator_gate_def op_bind_def op_lift_def only_touched_def)
  next
    case (Inr x)
    obtain token ocsrf where x: "x = (token, ocsrf)" by (cases x)
    obtain q t where auth: "authenticate_session (st_auth st) token ocsrf (dr_now dr) s = (q, t)" by fastforce
    note served = authenticate_session_served [OF assms(1,2) auth]
    from assms(3) Inr x auth have "s' = t" and r: "r = (case q of Inl e \<Rightarrow> Inl e
        | Inr p \<Rightarrow> if u_role (sp_user p) \<noteq> Operator then Inl Forbidden else Inr p)"
      by (auto simp: operator_gate_def op_bind_def op_lift_def op_fail_def op_return_def split: sum.splits if_splits)
    moreover have "operator_authority st headers (dr_now dr) csrf_required (pg_db s)" if "r = Inr p"
    proof -
      from that r have "q = Inr p" and role: "u_role (sp_user p) = Operator" by (auto split: sum.splits if_splits)
      from served(2) [OF this(1)] obtain n u where live: "live_session (service_hash (st_auth st) token) (dr_now dr) (pg_db s) = Some (n, u)"
        and p: "p = principal_of n u" and csrf: "\<forall>c. ocsrf = Some c \<longrightarrow> service_hash (st_auth st) c = SecretHash (se_csrf_hash n)"
        by blast
      from role p have "ur_role u = ''operator''" by (simp add: principal_of_def user_of_row_def split: if_splits)
      with live csrf operator_tokens_Inr [OF Inr [unfolded x]] show ?thesis
        unfolding operator_authority_def by fastforce
    qed
    moreover have "carries_token st headers token"
      using operator_tokens_Inr(1) [OF Inr [unfolded x]] by (simp add: carries_token_def)
    ultimately show ?thesis using served(1) unfolding only_touched_def by blast
  qed
  then show "only_touched st headers (dr_now dr) (pg_db s) (pg_db s')"
    and "r = Inr p \<Longrightarrow> operator_authority st headers (dr_now dr) csrf_required (pg_db s)" by blast+
qed

text \<open>The outcome of a request that was turned away.\<close>

definition turned_away :: "app_state \<Rightarrow> header_map \<Rightarrow> extracted \<Rightarrow> time \<Rightarrow> pg \<Rightarrow> response \<times> pg \<Rightarrow> bool" where
  "turned_away st headers ex now s out \<longleftrightarrow>
     ((\<exists>e. fst out = error_response st e) \<or> fst out \<in> rejections ex) \<and> only_touched st headers now (pg_db s) (pg_db (snd out))"

lemma turned_away_gate:
  assumes "sv_store (st_auth st) = pg_auth_store" and "store_ok s"
    and "\<not> operator_authority st headers (dr_now dr) csrf_required (pg_db s)"
  shows "turned_away st headers ex (dr_now dr) s (respond st (op_bind (operator_gate st dr headers csrf_required) f) s)"
proof -
  obtain r s' where gate: "operator_gate st dr headers csrf_required s = (r, s')" by fastforce
  with operator_gate_served [OF assms(1,2) gate] assms(3) obtain e where "r = Inl e"
    and "only_touched st headers (dr_now dr) (pg_db s) (pg_db s')" by (cases r) auto
  with gate show ?thesis by (auto simp: turned_away_def respond_def op_bind_def)
qed

lemma turned_away_verify:
  assumes "turned_away st headers ex now s (respond st f s)"
  shows "turned_away st headers ex now s (respond st (op_bind (op_lift (verify_origin_json st headers)) (\<lambda>_. f)) s)"
proof (cases "trusted_json st headers")
  case True
  with assms show ?thesis by (simp add: respond_def op_bind_def op_lift_def verify_origin_json_eq)
next
  case False
  then show ?thesis by (auto simp: respond_untrusted turned_away_def refusal_def only_touched_def)
qed

lemma turned_away_arg:
  assumes "\<And>r. x = Inl r \<Longrightarrow> r \<in> rejections ex" and "\<And>a. turned_away st headers ex now s (h a s)"
  shows "turned_away st headers ex now s (with_arg x h s)"
  using assms by (cases x) (auto simp: with_arg_def turned_away_def only_touched_def)

text \<open>
  C36: Operator routes need an operator.  On a database that answers, a request on a private route
  other than health and bootstrap that does not carry the cookie of a live operator session, and for
  a POST also that session's CSRF token, is answered with an error, and at most refreshes the live
  session whose cookie it carries: its idle limit and when it was last seen.
\<close>

theorem operator_routes_need_operator:
  assumes "sv_store (st_auth st) = pg_auth_store" and "store_ok s" and "(p, verb, ep) \<in> set private_routes"
    and "ep \<notin> {Live, Ready, Operator_bootstrap_start, Operator_bootstrap_finish}"
    and "\<not> operator_authority st headers (dr_now dr) (verb = POST) (pg_db s)"
  shows "turned_away st headers ex (dr_now dr) s (run_endpoint st dr headers ex ep s)"
proof -
  note gate = turned_away_gate [OF assms(1,2)]
  from assms(3,4) consider "ep = Pending_recoveries" "verb = GET" | "ep = Approve_recovery" "verb = POST"
    | "ep = Issue_recovery_setup" "verb = POST" | "ep = Approve_user" "verb = POST" | "ep = Operator_capabilities" "verb = GET"
    by (auto simp: private_routes_def)
  then show ?thesis
    by cases (use assms(5) in \<open>auto simp: pending_recoveries_handler_def approve_recovery_handler_def
        issue_recovery_setup_handler_def approve_user_handler_def operator_capabilities_handler_def rejections_def
        intro!: gate turned_away_verify turned_away_arg\<close>)
qed

lemma demo_state_simps [simp]:
  "st_auth demo_state = demo_service" "dr_now demo_draws = 100" "dr_now2 demo_draws = 100"
  "dr_token demo_draws = demo_token 5" "dr_id demo_draws = 32"
  by (simp_all add: demo_state_def demo_draws_def)

theorem operator_routes_need_operator_witness:
  "turned_away demo_state (\<lambda>_. None) demo_extracted 100 demo_pg
     (run_endpoint demo_state demo_draws (\<lambda>_. None) demo_extracted Operator_capabilities demo_pg)"
proof -
  have "(''/v1/operator/capabilities'', GET, Operator_capabilities) \<in> set private_routes"
    by (simp add: private_routes_def)
  moreover have "\<not> operator_authority demo_state (\<lambda>_. None) (dr_now demo_draws) (GET = POST) (pg_db demo_pg)"
    by (simp add: operator_authority_def cookie_value_def)
  ultimately show ?thesis
    using operator_routes_need_operator [of demo_state demo_pg _ GET Operator_capabilities "\<lambda>_. None" demo_draws demo_extracted]
      demo_store_ok by simp
qed

section \<open>Cookies\<close>

text \<open>The \<open>Cookie\<close> header a browser sends for a list of cookies (RFC 6265).\<close>

fun cookie_header :: "(string \<times> string) list \<Rightarrow> string" where
  "cookie_header [] = []"
| "cookie_header [(n, v)] = n @ ''='' @ v"
| "cookie_header ((n, v) # cs) = n @ ''='' @ v @ ''; '' @ cookie_header cs"

definition cookie_char :: "char \<Rightarrow> bool" where
  "cookie_char c \<longleftrightarrow> graphic c \<and> c \<noteq> CHR '';''"

definition cookie_ok :: "string \<times> string \<Rightarrow> bool" where
  "cookie_ok x \<longleftrightarrow> fst x \<noteq> [] \<and> list_all cookie_char (fst x) \<and> CHR ''='' \<notin> set (fst x) \<and> list_all cookie_char (snd x)"

definition cookie_text :: "string \<times> string \<Rightarrow> string" where
  "cookie_text x = fst x @ ''='' @ snd x"

lemma cookie_text_chars:
  assumes "cookie_ok x"
  shows "cookie_text x \<noteq> []" and "list_all cookie_char (cookie_text x)"
  using assms by (simp_all add: cookie_ok_def cookie_text_def cookie_char_def graphic_def)

lemma eq_char_of: "c = char_of (n :: nat) \<longleftrightarrow> (of_char c :: nat) = n mod 256"
  by (metis char_of_char char_of_mod_256 of_char_of)

lemma trim_cookie:
  assumes "cookie_ok x"
  shows "trim (cookie_text x) = cookie_text x" and "trim (CHR '' '' # cookie_text x) = cookie_text x"
proof -
  note chars = cookie_text_chars [OF assms]
  from chars have ends: "graphic (hd (cookie_text x))" "graphic (last (cookie_text x))"
    by (auto simp: list_all_iff cookie_char_def)
  show same: "trim (cookie_text x) = cookie_text x" using chars(1) ends by (rule trim_graphic)
  have "find_prefix white_space (CHR '' '' # cookie_text x) = Some (cookie_text x)"
    by (simp add: white_space_def utf8_def eq_char_of)
  then have "strip_all white_space (CHR '' '' # cookie_text x) = strip_all white_space (cookie_text x)"
    by (subst strip_all.simps) simp
  then show "trim (CHR '' '' # cookie_text x) = cookie_text x"
    using same by (simp add: trim_def trim_start_def)
qed

lemma cookie_header_pieces:
  assumes "list_all cookie_ok cs" and "cs \<noteq> []"
  shows "map trim (split_on (CHR '';'') (cookie_header cs)) = map cookie_text cs
    \<and> map trim (split_on (CHR '';'') (CHR '' '' # cookie_header cs)) = map cookie_text cs"
  using assms
proof (induction cs rule: cookie_header.induct)
  case (2 n v)
  have ok: "cookie_ok (n, v)" using 2 by simp
  have "CHR '';'' \<notin> set (cookie_text (n, v))" using cookie_text_chars(2) [OF ok] by (auto simp: list_all_iff cookie_char_def)
  with trim_cookie [OF ok] show ?case by (simp add: split_on_no_sep cookie_text_def)
next
  case (3 n v c cs)
  have ok: "cookie_ok (n, v)" using 3(2) by simp
  have no: "CHR '';'' \<notin> set (cookie_text (n, v))"
    using cookie_text_chars(2) [OF ok] by (auto simp: list_all_iff cookie_char_def)
  have split: "split_on (CHR '';'') (cookie_header ((n, v) # c # cs)) =
      cookie_text (n, v) # split_on (CHR '';'') (CHR '' '' # cookie_header (c # cs))"
    using split_on_append_sep [OF no, of "CHR '' '' # cookie_header (c # cs)"] by (simp add: cookie_text_def)
  have "CHR '';'' \<notin> set (CHR '' '' # cookie_text (n, v))" using no by simp
  from split_on_append_sep [OF this, of "CHR '' '' # cookie_header (c # cs)"]
  have split2: "split_on (CHR '';'') (CHR '' '' # cookie_header ((n, v) # c # cs)) =
      (CHR '' '' # cookie_text (n, v)) # split_on (CHR '';'') (CHR '' '' # cookie_header (c # cs))"
    by (simp add: cookie_text_def)
  from 3 have "map trim (split_on (CHR '';'') (CHR '' '' # cookie_header (c # cs))) = map cookie_text (c # cs)" by simp
  with trim_cookie [OF ok] show ?case unfolding split split2 by simp
qed simp

lemma strip_prefix_cookie:
  assumes "CHR ''='' \<notin> set name" and "CHR ''='' \<notin> set n"
  shows "(case strip_prefix name (n @ CHR ''='' # v) of None \<Rightarrow> None | Some rest \<Rightarrow> strip_prefix ''='' rest)
    = (if name = n then Some v else None)"
proof (rule option_eqI)
  fix w
  have "(case strip_prefix name (n @ CHR ''='' # v) of None \<Rightarrow> None | Some rest \<Rightarrow> strip_prefix ''='' rest) = Some w
      \<longleftrightarrow> n @ CHR ''='' # v = name @ CHR ''='' # w"
    by (auto simp: str_simps split: option.splits)
  also have "\<dots> \<longleftrightarrow> name = n \<and> v = w"
    using assms by (auto simp: append_eq_append_conv2 append_eq_Cons_conv Cons_eq_append_conv)
  finally show "(case strip_prefix name (n @ CHR ''='' # v) of None \<Rightarrow> None | Some rest \<Rightarrow> strip_prefix ''='' rest) = Some w
      \<longleftrightarrow> (if name = n then Some v else None) = Some w" by simp
qed

lemma cookie_value_map_of:
  assumes "list_all cookie_ok cs" and "cs \<noteq> []" and "CHR ''='' \<notin> set name"
    and "headers ''cookie'' = Some (cookie_header cs)"
  shows "cookie_value headers name = map_of cs name"
proof -
  have "find_map (\<lambda>cookie. case strip_prefix name cookie of None \<Rightarrow> None | Some rest \<Rightarrow> strip_prefix ''='' rest)
      (map cookie_text cs) = map_of cs name"
    using assms(1)
  proof (induction cs)
    case (Cons c cs)
    then have "CHR ''='' \<notin> set (fst c)" by (simp add: cookie_ok_def)
    from strip_prefix_cookie [OF assms(3) this, of "snd c"] Cons show ?case
      by (cases c) (simp add: cookie_text_def)
  qed simp
  then show ?thesis using cookie_header_pieces [OF assms(1,2)] by (simp add: cookie_value_def assms(4))
qed



section \<open>Setup tokens\<close>

lemma insert_capability_tx_row:
  assumes "insert_capability_tx c s = (Inr (), t)"
  shows "\<exists>clock. capability_to_row c clock \<in> set (db_capabilities (pg_db t))"
  using insert_capability_tx_db [OF assms] by auto

lemma issue_recovery_setup_row:
  assumes "issue_recovery_setup i c operator_id now s = (Inr (), s')"
  shows "\<exists>clock. capability_to_row c clock \<in> set (db_capabilities (pg_db s'))"
proof -
  obtain t u where body: "insert_capability_tx c t = (Inr (), u)" and same: "db_capabilities (pg_db s') = db_capabilities (pg_db u)"
    using assms unfolding issue_recovery_setup_def
    by (auto elim!: transaction_db op_bindE simp: op_fail_eq insert_audit_db split: if_splits)
  with insert_capability_tx_row [OF body] show ?thesis by simp
qed

lemma approve_user_with_setup_row:
  assumes "approve_user_with_setup user c operator_id now s = (Inr (), s')"
  shows "\<exists>clock. capability_to_row c clock \<in> set (db_capabilities (pg_db s'))"
proof -
  obtain t u where body: "insert_capability_tx c t = (Inr (), u)" and same: "db_capabilities (pg_db s') = db_capabilities (pg_db u)"
    using assms unfolding approve_user_with_setup_def
    by (auto elim!: transaction_db op_bindE simp: insert_audit_db)
  with insert_capability_tx_row [OF body] show ?thesis by simp
qed

lemma issue_handler_steps:
  assumes "issue_recovery_setup_handler st dr headers i body s = (Inr r, s')"
  obtains t operator_id user_id where
      "service_issue_recovery_setup (st_auth st) (dr_id dr) (dr_token dr) i operator_id user_id (dr_now2 dr) t
        = (Inr (dr_token dr), s')"
    and "r = setup_fragment_document st (dr_token dr)"
  using assms unfolding issue_recovery_setup_handler_def
  by (auto elim!: op_bindE simp: op_return_eq service_issue_recovery_setup_def op_bind_Inr)

lemma approve_handler_steps:
  assumes "approve_user_handler st dr headers body s = (Inr r, s')"
  obtains t operator_id user_id email name where
      "approve_user_and_issue_setup (st_auth st) (dr_id2 dr) (dr_id dr) (dr_token dr) operator_id user_id email name
        (dr_now2 dr) t = (Inr (dr_token dr), s')"
    and "r = setup_fragment_document st (dr_token dr)"
proof -
  obtain t j u token v where "approve_user_and_issue_setup (st_auth st) (dr_id2 dr) (dr_id dr) (dr_token dr)
      j u (ab_email body) (ab_display_name body) (dr_now2 dr) t = (Inr token, v)"
    and "op_return (setup_fragment_document st token) v = (Inr r :: auth_error + response, s')"
    using assms unfolding approve_user_handler_def by (elim op_bindE) (rule that, assumption+)
  then have run: "approve_user_and_issue_setup (st_auth st) (dr_id2 dr) (dr_id dr) (dr_token dr)
      j u (ab_email body) (ab_display_name body) (dr_now2 dr) t = (Inr token, s')"
    and r: "r = setup_fragment_document st token"
    by (simp_all add: op_return_eq)
  then have "token = dr_token dr"
    by (auto simp: approve_user_and_issue_setup_def op_fail_eq op_return_eq elim!: op_bindE split: if_splits)
  with run r that show ?thesis by blast
qed

text \<open>
  C19: A setup token lives as long as it is announced.  With the default configuration, when an
  operator approves a user or issues a recovery setup, the answer holds the token and says 900
  seconds, and the database holds an open capability with the hash of that token, of a setup
  purpose, that expires exactly 900 seconds after the request.
\<close>

theorem setup_token_lives_as_announced:
  assumes "sv_store (st_auth st) = pg_auth_store" and "sv_config (st_auth st) = AuthConfig_default"
    and "h = issue_recovery_setup_handler st dr headers i body1 \<or> h = approve_user_handler st dr headers body2"
    and "h s = (Inr r, s')"
  shows "rs_body r = Some (JObject [(''setup_fragment'', JString (''#setup='' @ expose (st_crypto st) (dr_token dr))),
      (''expires_in_seconds'', JNumber 900)])
    \<and> (\<exists>c\<in>set (db_capabilities (pg_db s')). ca_token_hash c = as_bytes (service_hash (st_auth st) (dr_token dr))
         \<and> ca_expires_at c = dr_now2 dr + 900 * 1000000 \<and> ca_consumed_at c = None
         \<and> (ca_purpose c = ''setup'' \<or> ca_purpose c = ''recovery_setup''))"
proof -
  let ?Q = "\<lambda>c. ca_token_hash c = as_bytes (service_hash (st_auth st) (dr_token dr))
         \<and> ca_expires_at c = dr_now2 dr + 900 * 1000000 \<and> ca_consumed_at c = None
         \<and> (ca_purpose c = ''setup'' \<or> ca_purpose c = ''recovery_setup'')"
  have "r = setup_fragment_document st (dr_token dr) \<and> (\<exists>c\<in>set (db_capabilities (pg_db s')). ?Q c)"
    using assms(3)
  proof
    assume "h = issue_recovery_setup_handler st dr headers i body1"
    then have "issue_recovery_setup_handler st dr headers i body1 s = (Inr r, s')" using assms(4) by simp
    then obtain t j u where run: "service_issue_recovery_setup (st_auth st) (dr_id dr) (dr_token dr) i j u (dr_now2 dr) t
        = (Inr (dr_token dr), s')" and r: "r = setup_fragment_document st (dr_token dr)"
      by (rule issue_handler_steps)
    let ?c = "\<lparr>cp_id = dr_id dr, cp_user_id = u, cp_purpose = RecoverySetup,
        cp_token_hash = service_hash (st_auth st) (dr_token dr), cp_expires_at = dr_now2 dr + minutes 15\<rparr>"
    from run have "issue_recovery_setup i ?c j (dr_now2 dr) t = (Inr (), s')"
      by (simp add: service_issue_recovery_setup_def assms(1,2) op_bind_Inr op_return_eq AuthConfig_default_def)
    from issue_recovery_setup_row [OF this] obtain clock where "capability_to_row ?c clock \<in> set (db_capabilities (pg_db s'))" by blast
    then have "\<exists>c\<in>set (db_capabilities (pg_db s')). ?Q c"
      by (intro bexI [of _ "capability_to_row ?c clock"]) (simp_all add: capability_to_row_def minutes_def)
    with r show ?thesis by simp
  next
    assume "h = approve_user_handler st dr headers body2"
    then have "approve_user_handler st dr headers body2 s = (Inr r, s')" using assms(4) by simp
    then obtain t j u e n where run: "approve_user_and_issue_setup (st_auth st) (dr_id2 dr) (dr_id dr) (dr_token dr) j u e n
        (dr_now2 dr) t = (Inr (dr_token dr), s')" and r: "r = setup_fragment_document st (dr_token dr)"
      by (rule approve_handler_steps)
    let ?c = "\<lparr>cp_id = dr_id dr, cp_user_id = u, cp_purpose = Setup,
        cp_token_hash = service_hash (st_auth st) (dr_token dr), cp_expires_at = dr_now2 dr + minutes 15\<rparr>"
    from run obtain v x where "approve_user_with_setup x ?c j (dr_now2 dr) v = (Inr (), s')"
      by (auto simp: approve_user_and_issue_setup_def assms(1,2) op_bind_Inr op_return_eq op_fail_eq
          AuthConfig_default_def split: if_splits)
    from approve_user_with_setup_row [OF this] obtain clock where "capability_to_row ?c clock \<in> set (db_capabilities (pg_db s'))" by blast
    then have "\<exists>c\<in>set (db_capabilities (pg_db s')). ?Q c"
      by (intro bexI [of _ "capability_to_row ?c clock"]) (simp_all add: capability_to_row_def minutes_def)
    with r show ?thesis by simp
  qed
  then show ?thesis by (simp add: setup_fragment_document_def json_response_def plain_response_def)
qed

definition operator_pg :: pg where
  "operator_pg = demo_pg\<lparr>pg_db := demo_db\<lparr>
     db_sessions := [demo_session_row\<lparr>se_token_hash := replicate 32 65, se_csrf_hash := replicate 32 66\<rparr>],
     db_recoveries := [demo_recovery\<lparr>re_approved_at := Some 50, re_approved_by := Some ''operator''\<rparr>]\<rparr>\<rparr>"

definition operator_headers :: header_map where
  "operator_headers = [''origin'' \<mapsto> ''https://a'', ''content-type'' \<mapsto> ''application/json'',
     ''cookie'' \<mapsto> cookie_header [(SESSION_COOKIE, replicate 32 (CHR ''A''))], CSRF_HEADER \<mapsto> replicate 32 (CHR ''B'')]"

lemma operator_headers_tokens:
  "operator_tokens demo_state operator_headers True
     = Inr (SecretToken (replicate 32 65), Some (SecretToken (replicate 32 66)))"
proof -
  have "cookie_value operator_headers SESSION_COOKIE = map_of [(SESSION_COOKIE, replicate 32 (CHR ''A''))] SESSION_COOKIE"
    by (rule cookie_value_map_of)
      (simp_all add: cookie_ok_def SESSION_COOKIE_def cookie_char_def graphic_def operator_headers_def CSRF_HEADER_def
        list_all_iff)
  then show ?thesis
    by (simp add: operator_tokens_def session_and_csrf_def session_token_def SecretToken_parse_def st_crypto_def
        demo_service_def demo_crypto_def TOKEN_BYTES_def operator_headers_def CSRF_HEADER_def)
qed

lemma operator_trusted: "trusted_json demo_state operator_headers"
  by (simp add: trusted_json_def operator_headers_def demo_state_def CSRF_HEADER_def)

lemma operator_hashes:
  "service_hash demo_service (SecretToken (replicate 32 b)) = SecretHash (replicate 32 b)"
  by (simp add: service_hash_def token_hash_def demo_service_def demo_crypto_def)

lemma operator_pg_wf: "db_wf (pg_db operator_pg)"
  by (simp add: operator_pg_def db_wf_def table_wf_defs demo_db_def demo_rows role_names_def purpose_names_def
      kind_names_def i64_max_def user_exists_def opt_user_exists_def id_char_def is_ascii_alphanumeric_def
      is_ascii_alphabetic_def is_ascii_digit_def recovery_pending_def)

lemma operator_live:
  "live_session (SecretHash (replicate 32 65)) 100 (pg_db operator_pg)
     = Some (demo_session_row\<lparr>se_token_hash := replicate 32 65, se_csrf_hash := replicate 32 66\<rparr>, demo_operator)"
  by (simp add: live_session_def operator_pg_def demo_db_def demo_rows session_live_def limit_1_def)

lemma operator_gate_ok:
  "\<exists>s1. operator_gate demo_state demo_draws operator_headers True operator_pg
      = (Inr (principal_of (demo_session_row\<lparr>se_token_hash := replicate 32 65, se_csrf_hash := replicate 32 66\<rparr>)
           demo_operator), s1)
    \<and> pg_net s1 = [] \<and> pg_clock s1 = 100 \<and> db_recoveries (pg_db s1) = db_recoveries (pg_db operator_pg)
    \<and> db_users (pg_db s1) = [demo_operator] \<and> db_capabilities (pg_db s1) = [demo_setup]"
proof -
  have net: "pg_net operator_pg = []" by (simp add: operator_pg_def demo_pg_def)
  show ?thesis
    by (simp add: operator_gate_def operator_headers_tokens op_bind_def op_lift_def authenticate_session_def op_some_def
        op_then_def session_served [OF operator_pg_wf net] operator_hashes operator_live)
      (simp add: principal_of_def op_return_def user_of_row_def demo_operator_def session_seen_def operator_pg_def
        demo_pg_def demo_db_def)
qed

lemma operator_issue_ok:
  "\<exists>r s1. issue_recovery_setup_handler demo_state demo_draws operator_headers 51 ''operator'' operator_pg = (Inr r, s1)"
proof -
  obtain p s1 where gate: "operator_gate demo_state demo_draws operator_headers True operator_pg = (Inr p, s1)"
    and s1: "pg_net s1 = []" "pg_clock s1 = 100" "db_recoveries (pg_db s1) = db_recoveries (pg_db operator_pg)"
      "db_users (pg_db s1) = [demo_operator]" "db_capabilities (pg_db s1) = [demo_setup]"
      and p: "user_str (u_id (sp_user p)) = ''operator''"
    using operator_gate_ok by (auto simp: principal_of_def user_of_row_def demo_operator_def)
  have user: "request_user_id ''operator'' = Inr (UserId ''operator'')"
    by (simp add: request_user_id_def UserId_new_def id_char_def is_ascii_alphanumeric_def is_ascii_alphabetic_def)
  have "\<exists>s2. service_issue_recovery_setup demo_service 32 (demo_token 5) 51 (u_id (sp_user p)) (UserId ''operator'') 100 s1
      = (Inr (demo_token 5), s2)"
    using s1 p text_ok_uuid_str [of 51]
    by (simp add: service_issue_recovery_setup_def issue_recovery_setup_def insert_capability_tx_def db_now_def
        insert_audit_def audit_to_row_def capability_to_row_def pg_eval operator_pg_def demo_rows demo_hash_eq
        purpose_names_def AuthConfig_default_def)
  then show ?thesis
    by (auto simp: issue_recovery_setup_handler_def op_bind_def op_lift_def op_return_def verify_origin_json_eq
        operator_trusted gate user)
qed

theorem setup_token_lives_as_announced_witness:
  "\<exists>r s1. issue_recovery_setup_handler demo_state demo_draws operator_headers 51 ''operator'' operator_pg = (Inr r, s1)
     \<and> (\<exists>c\<in>set (db_capabilities (pg_db s1)). ca_expires_at c = 100 + 900 * 1000000)"
proof -
  obtain r s1 where run: "issue_recovery_setup_handler demo_state demo_draws operator_headers 51 ''operator'' operator_pg
      = (Inr r, s1)"
    using operator_issue_ok by blast
  have sv: "sv_store (st_auth demo_state) = pg_auth_store" "sv_config (st_auth demo_state) = AuthConfig_default"
    and now: "dr_now2 demo_draws = 100" by simp_all
  from setup_token_lives_as_announced [OF sv disjI1 [OF refl] run] run show ?thesis unfolding now by blast
qed

end
