(* ===== verification/Cli.thy ===== *)
theory Cli
  imports Http_Properties
begin

text \<open>
  \<open>server/src/main.rs\<close>: the four commands.

  What happens outside the program is an argument: \<open>io\<close> says whether the database URL could be read,
  whether connecting, migrating and binding the listeners succeeded.  \<open>serve\<close> ends where it starts to
  answer; what it answers is in \<open>Http\<close>.  Signals and logging are not modelled.
\<close>

section \<open>Arguments\<close>

record 'addr serve_args =
  sa_public_listen :: 'addr
  sa_private_listen :: 'addr
  sa_rp_id :: string
  sa_browser_origin :: string
  sa_environment :: string
  sa_database_max_connections :: nat

record break_glass_args =
  bg_enabled :: bool
  bg_operator_user_id :: string
  bg_revoke_credential :: uuid
  bg_reason :: string
  bg_window_minutes :: int
  bg_confirm :: string

record seed_operator_args =
  so_enabled :: bool
  so_operator_user_id :: string
  so_email :: string
  so_display_name :: string
  so_confirm :: string

record rotate_auth_epoch_args =
  ra_enabled :: bool
  ra_reason :: string
  ra_confirm :: string

datatype 'addr command =
    Serve "'addr serve_args"
  | BreakGlass break_glass_args
  | SeedOperator seed_operator_args
  | RotateAuthEpoch rotate_auth_epoch_args

text \<open>The defaults of \<open>serve\<close>; \<open>parse\<close> is the standard library's parser of socket addresses.\<close>

definition serve_args_default :: "(string \<Rightarrow> 'addr) \<Rightarrow> 'addr serve_args" where
  "serve_args_default parse =
     \<lparr>sa_public_listen = parse ''0.0.0.0:8080'', sa_private_listen = parse ''0.0.0.0:8081'',
      sa_rp_id = ''ricardosaad.com'', sa_browser_origin = ''https://ricardosaad.com'',
      sa_environment = ''production'', sa_database_max_connections = 10\<rparr>"

datatype cli_error =
    Message string | Auth_failure auth_error | Connect_failure | Migrate_failure | Bind_failure | Panicked

record io =
  io_url_file :: "string + string"
  io_connects :: bool
  io_migrates :: bool
  io_binds_public :: bool
  io_binds_private :: bool

type_synonym 'a cli = "(pg, cli_error, 'a) op"

definition connect :: "io \<Rightarrow> unit cli" where
  "connect io = (if io_connects io then op_return () else op_fail Connect_failure)"

definition migrate :: "io \<Rightarrow> unit cli" where
  "migrate io = (if io_migrates io then op_return () else op_fail Migrate_failure)"

section \<open>Commands\<close>

definition BREAK_GLASS_CONFIRMATION :: string where
  "BREAK_GLASS_CONFIRMATION = ''INVALIDATE OPERATOR AUTH''"

definition SEED_CONFIRMATION :: string where
  "SEED_CONFIRMATION = ''SEED FIRST OPERATOR''"

definition ROTATE_CONFIRMATION :: string where
  "ROTATE_CONFIRMATION = ''ROTATE ALL AUTH EPOCHS''"

definition operator_id_argument :: "string \<Rightarrow> cli_error + user_id" where
  "operator_id_argument s = map_err (\<lambda>_. Message ''invalid operator user ID'') (UserId_new s)"

definition break_glass_command :: "crypto \<Rightarrow> io \<Rightarrow> draws \<Rightarrow> break_glass_args \<Rightarrow> unit cli" where
  "break_glass_command cr io dr args =
     (if \<not> bg_enabled args \<or> bg_confirm args \<noteq> BREAK_GLASS_CONFIRMATION
      then op_fail (Message ''break-glass requires RS_BREAK_GLASS_ENABLED=true and exact confirmation'')
      else if length (trim (bg_reason args)) < 12
      then op_fail (Message ''break-glass reason must contain at least 12 characters'')
      else if \<not> (1 \<le> bg_window_minutes args \<and> bg_window_minutes args \<le> 15)
      then op_fail (Message ''registration window must be between 1 and 15 minutes'')
      else op_bind (op_lift (operator_id_argument (bg_operator_user_id args))) (\<lambda>operator_user_id.
           op_bind (connect io) (\<lambda>_.
           op_map_err Auth_failure (break_glass (bg_revoke_credential args)
             \<lparr>cp_id = dr_id dr, cp_user_id = operator_user_id, cp_purpose = OperatorRecovery,
              cp_token_hash = token_hash cr (dr_token dr),
              cp_expires_at = dr_now dr + minutes (bg_window_minutes args)\<rparr>
             (dr_now dr) (trim (bg_reason args))))))"

definition command_service ::
    "('w, 'b, 'c, 'r, 'p, 'k, 'g, 'd, 'a, 'q, 'x) webauthn_lib \<Rightarrow> crypto \<Rightarrow> 'w \<Rightarrow> pg auth_service" where
  "command_service wl cr w =
     \<lparr>sv_store = pg_auth_store, sv_engine = webauthn_engine wl w, sv_config = AuthConfig_default, sv_crypto = cr\<rparr>"

definition new_engine ::
    "('w, 'b, 'c, 'r, 'p, 'k, 'g, 'd, 'a, 'q, 'x) webauthn_lib \<Rightarrow> string \<Rightarrow> string \<Rightarrow> bool \<Rightarrow> 'w cli" where
  "new_engine wl rp_id origin production =
     op_lift (map_err Auth_failure (WebauthnEngine_new wl rp_id origin production))"

definition seed_operator_command ::
    "('w, 'b, 'c, 'r, 'p, 'k, 'g, 'd, 'a, 'q, 'x) webauthn_lib \<Rightarrow> crypto \<Rightarrow> io \<Rightarrow> draws \<Rightarrow> seed_operator_args \<Rightarrow> unit cli" where
  "seed_operator_command wl cr io dr args =
     (if \<not> so_enabled args \<or> so_confirm args \<noteq> SEED_CONFIRMATION
      then op_fail (Message ''seed-operator requires RS_SEED_OPERATOR_ENABLED=true and exact confirmation'')
      else op_bind (op_lift (operator_id_argument (so_operator_user_id args))) (\<lambda>operator_user_id.
           op_bind (connect io) (\<lambda>_.
           op_bind (migrate io) (\<lambda>_.
           op_bind (new_engine wl ''ricardosaad.com'' ''https://ricardosaad.com'' True) (\<lambda>w.
           op_map_err Auth_failure (seed_operator (command_service wl cr w) (dr_id dr) operator_user_id
             (so_email args) (so_display_name args) (dr_now dr)))))))"

definition rotate_auth_epoch_command ::
    "('w, 'b, 'c, 'r, 'p, 'k, 'g, 'd, 'a, 'q, 'x) webauthn_lib \<Rightarrow> crypto \<Rightarrow> io \<Rightarrow> draws \<Rightarrow> rotate_auth_epoch_args \<Rightarrow> unit cli" where
  "rotate_auth_epoch_command wl cr io dr args =
     (if \<not> ra_enabled args \<or> ra_confirm args \<noteq> ROTATE_CONFIRMATION
      then op_fail (Message ''rotate-auth-epoch requires RS_ROTATE_AUTH_EPOCH_ENABLED=true and exact confirmation'')
      else op_bind (connect io) (\<lambda>_.
           op_bind (new_engine wl ''ricardosaad.com'' ''https://ricardosaad.com'' True) (\<lambda>w.
           op_bind (op_map_err Auth_failure
             (service_rotate_all_auth_epochs (command_service wl cr w) (dr_now dr) (ra_reason args))) (\<lambda>_.
           op_return ()))))"

text \<open>The state that is served with, once everything \<open>serve\<close> checks holds.\<close>

definition serve_setup ::
    "('w, 'b, 'c, 'r, 'p, 'k, 'g, 'd, 'a, 'q, 'x) webauthn_lib \<Rightarrow> app_state \<Rightarrow> io \<Rightarrow> 'addr serve_args \<Rightarrow> app_state cli" where
  "serve_setup wl lib io args =
     op_bind (op_lift (if sa_environment args = ''production'' then Inr True
                       else if sa_environment args = ''development'' then Inr False
                       else Inl (Message ''RS_ENVIRONMENT must be production or development''))) (\<lambda>production.
     if sa_public_listen args = sa_private_listen args
     then op_fail (Message ''public and private listeners must be distinct'')
     else op_bind (connect io) (\<lambda>_.
          op_bind (migrate io) (\<lambda>_.
          op_bind (new_engine wl (sa_rp_id args) (sa_browser_origin args) production) (\<lambda>w.
          op_return (lib\<lparr>st_auth := command_service wl (st_crypto lib) w,
                         st_browser_origin := sa_browser_origin args\<rparr>)))))"

text \<open>
  \<open>serve\<close>: the listeners are bound, public first, and the two routers are built, both with the CORS
  layer for the same origin.
\<close>

definition bind_listener :: "bool \<Rightarrow> unit cli" where
  "bind_listener bound = (if bound then op_return () else op_fail Bind_failure)"

record server =
  srv_state :: app_state
  srv_cors :: cors_config

definition serve ::
    "('w, 'b, 'c, 'r, 'p, 'k, 'g, 'd, 'a, 'q, 'x) webauthn_lib \<Rightarrow> app_state \<Rightarrow> io \<Rightarrow> 'addr serve_args \<Rightarrow> server cli" where
  "serve wl lib io args =
     op_bind (serve_setup wl lib io args) (\<lambda>st.
     op_bind (bind_listener (io_binds_public io)) (\<lambda>_.
     op_bind (bind_listener (io_binds_private io)) (\<lambda>_.
     (case cors st (st_browser_origin st) of
        None \<Rightarrow> op_fail Panicked
      | Some c \<Rightarrow> op_return \<lparr>srv_state = st, srv_cors = c\<rparr>))))"

text \<open>\<open>main\<close>: the URL file, then the command.\<close>

definition main ::
    "('w, 'b, 'c, 'r, 'p, 'k, 'g, 'd, 'a, 'q, 'x) webauthn_lib \<Rightarrow> app_state \<Rightarrow> io \<Rightarrow> draws \<Rightarrow> 'addr command \<Rightarrow> unit cli" where
  "main wl lib io dr command =
     op_bind (op_lift (map_err (\<lambda>e. Message (''failed to read database URL file: '' @ e)) (io_url_file io))) (\<lambda>file.
     if trim file = [] then op_fail (Message ''database URL file is empty'')
     else (case command of
             Serve args \<Rightarrow> op_void (serve wl lib io args)
           | BreakGlass args \<Rightarrow> break_glass_command (st_crypto lib) io dr args
           | SeedOperator args \<Rightarrow> seed_operator_command wl (st_crypto lib) io dr args
           | RotateAuthEpoch args \<Rightarrow> rotate_auth_epoch_command wl (st_crypto lib) io dr args))"

section \<open>Configuration\<close>

text \<open>
  The configuration that is served.  The server starts only in one of the two environments, on
  two distinct listeners, with an origin that parses and has neither path nor query nor fragment; in
  production only with the one relying party and origin of the product; and then it serves with that
  origin, also the only one CORS allows, the default lifetimes and the PostgreSQL store.
\<close>

theorem serve_configuration:
  assumes "serve wl lib io args s = (Inr srv, s')"
  shows "s' = s \<and> sa_public_listen args \<noteq> sa_private_listen args
    \<and> (sa_environment args = ''development''
       \<or> sa_environment args = ''production'' \<and> sa_rp_id args = ''ricardosaad.com''
         \<and> sa_browser_origin args = ''https://ricardosaad.com'')
    \<and> (\<exists>url b w. wl_parse_url wl (sa_browser_origin args) = Some url \<and> url_path url = ''/''
         \<and> url_query url = None \<and> url_fragment url = None
         \<and> wl_builder wl (sa_rp_id args) url = Some b \<and> wl_build wl b ''RS Platform'' = Some w
         \<and> sv_engine (st_auth (srv_state srv)) = webauthn_engine wl w)
    \<and> st_browser_origin (srv_state srv) = sa_browser_origin args
    \<and> srv_cors srv = \<lparr>co_allow_origin = sa_browser_origin args, co_allow_credentials = True,
        co_allow_methods = [GET, POST], co_allow_headers = [''content-type'', ''x-csrf-token'']\<rparr>
    \<and> sv_store (st_auth (srv_state srv)) = pg_auth_store
    \<and> sv_config (st_auth (srv_state srv)) = AuthConfig_default"
proof -
  from assms obtain st t where setup_ok: "serve_setup wl lib io args s = (Inr st, t)"
    and rest: "op_bind (bind_listener (io_binds_public io)) (\<lambda>_. op_bind (bind_listener (io_binds_private io)) (\<lambda>_.
      case cors st (st_browser_origin st) of None \<Rightarrow> op_fail Panicked
      | Some c \<Rightarrow> op_return \<lparr>srv_state = st, srv_cors = c\<rparr>)) t = (Inr srv, s')"
    unfolding serve_def by (rule op_bindE)
  from rest have "t = s'" and state: "srv_state srv = st" and cors: "cors st (st_browser_origin st) = Some (srv_cors srv)"
    by (cases "cors st (st_browser_origin st)";
        fastforce simp: op_bind_def op_return_def op_fail_def bind_listener_def split: if_splits)+
  with setup_ok have prep: "serve_setup wl lib io args s = (Inr st, s')" by simp
  from prep obtain production w where env: "(if sa_environment args = ''production'' then Inr True
        else if sa_environment args = ''development'' then Inr False
        else Inl (Message ''RS_ENVIRONMENT must be production or development'')) = Inr production"
    and listen: "sa_public_listen args \<noteq> sa_private_listen args"
    and w: "WebauthnEngine_new wl (sa_rp_id args) (sa_browser_origin args) production = Inr w"
    and st: "st = lib\<lparr>st_auth := command_service wl (st_crypto lib) w, st_browser_origin := sa_browser_origin args\<rparr>"
    and s': "s' = s"
    unfolding serve_setup_def
    by (auto simp: op_bind_Inr op_lift_Inr op_return_eq op_fail_eq connect_def migrate_def new_engine_def map_err_def
        split: if_splits sum.splits)
  from env have kind: "sa_environment args = (if production then ''production'' else ''development'')"
    by (auto split: if_splits)
  from cors st have layer: "srv_cors srv = \<lparr>co_allow_origin = sa_browser_origin args, co_allow_credentials = True,
      co_allow_methods = [GET, POST], co_allow_headers = [''content-type'', ''x-csrf-token'']\<rparr>"
    by (simp add: cors_def CSRF_HEADER_def split: if_splits)
  from w have "production \<Longrightarrow> sa_rp_id args = PRODUCTION_RP_ID \<and> sa_browser_origin args = PRODUCTION_ORIGIN"
    and "\<exists>url b. wl_parse_url wl (sa_browser_origin args) = Some url \<and> url_path url = ''/''
         \<and> url_query url = None \<and> url_fragment url = None
         \<and> wl_builder wl (sa_rp_id args) url = Some b \<and> wl_build wl b ''RS Platform'' = Some w"
    by (auto simp: WebauthnEngine_new_def and_then_eq_Inr ok_or_eq_iff split: if_splits)
  then show ?thesis using listen kind st s' state layer
    by (auto simp: PRODUCTION_RP_ID_def PRODUCTION_ORIGIN_def command_service_def split: if_splits)
qed

text \<open>
  The origin is checked as a URL and used as a header value: where it is one and not the other the
  server panics when it builds its routers.  (The origin of production is plain ASCII and is both.)
\<close>

lemma serve_setup_no_panic: "serve_setup wl lib io args s \<noteq> (Inl Panicked, s')"
  by (auto simp: serve_setup_def op_bind_def op_lift_def op_return_def op_fail_def connect_def migrate_def
      new_engine_def map_err_def split: sum.splits if_splits)

lemma serve_panics:
  assumes "serve wl lib io args s = (Inl Panicked, s')"
  shows "\<not> st_header_text lib (sa_browser_origin args)"
proof -
  from assms obtain st t where prep: "serve_setup wl lib io args s = (Inr st, t)"
    and rest: "op_bind (bind_listener (io_binds_public io)) (\<lambda>_. op_bind (bind_listener (io_binds_private io)) (\<lambda>_.
      case cors st (st_browser_origin st) of None \<Rightarrow> op_fail Panicked
      | Some c \<Rightarrow> op_return \<lparr>srv_state = st, srv_cors = c\<rparr>)) t = (Inl Panicked, s')"
    using serve_setup_no_panic unfolding serve_def op_bind_Inl by blast
  from rest have "cors st (st_browser_origin st) = None"
    by (cases "cors st (st_browser_origin st)")
      (auto simp: op_bind_def op_return_def op_fail_def bind_listener_def split: if_splits)
  moreover have "st_browser_origin st = sa_browser_origin args \<and> st_header_text st = st_header_text lib"
    using prep unfolding serve_setup_def
    by (auto simp: op_bind_Inr op_lift_Inr op_return_eq op_fail_eq split: if_splits)
  ultimately show ?thesis by (simp add: cors_def split: if_splits)
qed

definition demo_io :: io where
  "demo_io = \<lparr>io_url_file = Inr ''postgres'', io_connects = True, io_migrates = True, io_binds_public = True,
     io_binds_private = True\<rparr>"

text \<open>The defaults are a configuration that is served.\<close>

lemma serve_defaults_ok:
  assumes "parse ''0.0.0.0:8080'' \<noteq> parse ''0.0.0.0:8081''"
  shows "\<exists>srv. serve demo_lib demo_state demo_io (serve_args_default parse) demo_pg = (Inr srv, demo_pg)"
proof -
  have "\<exists>st. serve_setup demo_lib demo_state demo_io (serve_args_default parse) demo_pg = (Inr st, demo_pg)
      \<and> st_header_text st = (\<lambda>_. True)"
    using assms
    by (simp add: serve_setup_def op_defs connect_def migrate_def new_engine_def WebauthnEngine_new_def demo_lib_def
        demo_io_def demo_state_def serve_args_default_def PRODUCTION_RP_ID_def PRODUCTION_ORIGIN_def)
  then show ?thesis by (auto simp: serve_def op_defs bind_listener_def demo_io_def cors_def)
qed

theorem serve_configuration_witness:
  "\<exists>srv. serve demo_lib demo_state demo_io (serve_args_default (\<lambda>t. t)) demo_pg = (Inr srv, demo_pg)
     \<and> co_allow_origin (srv_cors srv) = ''https://ricardosaad.com''"
proof -
  obtain srv where run: "serve demo_lib demo_state demo_io (serve_args_default (\<lambda>t. t)) demo_pg = (Inr srv, demo_pg)"
    using serve_defaults_ok [of "\<lambda>t. t"] by auto
  from serve_configuration [OF run] have "co_allow_origin (srv_cors srv) = ''https://ricardosaad.com''"
    by (simp add: serve_args_default_def)
  with run show ?thesis by blast
qed

end
