(* ===== verification/Http_Requests.thy ===== *)
theory Http_Requests
  imports Http_Properties Serde
begin

text \<open>
  Requests as they arrive: the bodies of \<open>server/src/http.rs\<close> with the decoders serde derives for
  them, and what axum's \<open>Json\<close> and \<open>Path\<close> extract.  What a request means does not depend on how its
  body is written, and a method other than \<open>POST\<close> at most refreshes sessions.

  \<open>axum\<close> is what the code takes from axum, serde_json and uuid: the parsers of JSON texts and of
  identifiers, and the responses to a path and to a body that cannot be extracted.  These show the
  error in the text, so they depend on it, and the one to a body on the type it was to be read as too.
  Whether a body can be read at all, with its own rejections, is part of the request.
\<close>

section \<open>Bodies\<close>

definition CeremonyKind_deserialize :: "ceremony_kind de" where
  "CeremonyKind_deserialize = de_unit_variant
     [(''registration'', Registration), (''authentication'', Authentication),
      (''operator_bootstrap'', OperatorBootstrap), (''operator_recovery'', OperatorRecoveryCeremony)]"

definition Uuid_deserialize :: "(string \<Rightarrow> uuid option) \<Rightarrow> uuid de" where
  "Uuid_deserialize parse j = Option.bind (de_string j) parse"

definition CeremonyFinish_deserialize :: "(string \<Rightarrow> uuid option) \<Rightarrow> ceremony_finish de" where
  "CeremonyFinish_deserialize parse j =
     do {
       seen \<leftarrow> de_struct False [''ceremony_id'', ''credential'', ''ceremony_kind''] j;
       ceremony_id \<leftarrow> de_field seen ''ceremony_id'' (Uuid_deserialize parse);
       credential \<leftarrow> de_field seen ''credential'' de_value;
       ceremony_kind \<leftarrow> de_field_or seen ''ceremony_kind'' None (de_option CeremonyKind_deserialize);
       Some \<lparr>cf_ceremony_id = ceremony_id, cf_credential = credential, cf_ceremony_kind = ceremony_kind\<rparr>
     }"

definition SetupStart_deserialize :: "setup_start de" where
  "SetupStart_deserialize j =
     do {
       seen \<leftarrow> de_struct False [''setup_token'', ''recovery''] j;
       setup_token \<leftarrow> de_field seen ''setup_token'' de_string;
       recovery \<leftarrow> de_field_or seen ''recovery'' False de_bool;
       Some \<lparr>ss_setup_token = setup_token, ss_recovery = recovery\<rparr>
     }"

text \<open>A struct with the one field \<open>user_id\<close> is that field.\<close>

definition RecoveryRequestBody_deserialize :: "string de" where
  "RecoveryRequestBody_deserialize j =
     do { seen \<leftarrow> de_struct False [''user_id''] j; de_field seen ''user_id'' de_string }"

definition RecoverySetupBody_deserialize :: "string de" where
  "RecoverySetupBody_deserialize j =
     do { seen \<leftarrow> de_struct False [''user_id''] j; de_field seen ''user_id'' de_string }"

definition ApproveUserBody_deserialize :: "approve_user_body de" where
  "ApproveUserBody_deserialize j =
     do {
       seen \<leftarrow> de_struct False [''user_id'', ''email'', ''display_name''] j;
       user_id \<leftarrow> de_field seen ''user_id'' de_string;
       email \<leftarrow> de_field seen ''email'' de_string;
       display_name \<leftarrow> de_field seen ''display_name'' de_string;
       Some \<lparr>ab_user_id = user_id, ab_email = email, ab_display_name = display_name\<rparr>
     }"

section \<open>Extraction\<close>

record axum =
  ax_parse_uuid :: "string \<Rightarrow> uuid option"
  ax_parse_json :: "string \<Rightarrow> json option"
  ax_path_rejection :: "string \<Rightarrow> response"
  ax_json_rejection :: "string \<Rightarrow> string \<Rightarrow> response"

record raw_request =
  rw_path_id :: "response + string"
  rw_body :: "response + string"

definition extract_path :: "axum \<Rightarrow> raw_request \<Rightarrow> response + uuid" where
  "extract_path ax rw = and_then (rw_path_id rw) (\<lambda>t. ok_or (ax_path_rejection ax t) (ax_parse_uuid ax t))"

definition extract_json :: "axum \<Rightarrow> string \<Rightarrow> 'a de \<Rightarrow> raw_request \<Rightarrow> response + 'a" where
  "extract_json ax type de rw =
     and_then (rw_body rw) (\<lambda>text.
       ok_or (ax_json_rejection ax type text) (Option.bind (ax_parse_json ax text) de))"

definition extract_args :: "axum \<Rightarrow> raw_request \<Rightarrow> extracted" where
  "extract_args ax rw =
     \<lparr>ex_path_id = extract_path ax rw,
      ex_ceremony_finish = extract_json ax ''CeremonyFinish'' (CeremonyFinish_deserialize (ax_parse_uuid ax)) rw,
      ex_setup_start = extract_json ax ''SetupStart'' SetupStart_deserialize rw,
      ex_recovery_request = extract_json ax ''RecoveryRequestBody'' RecoveryRequestBody_deserialize rw,
      ex_recovery_setup = extract_json ax ''RecoverySetupBody'' RecoverySetupBody_deserialize rw,
      ex_approve_user = extract_json ax ''ApproveUserBody'' ApproveUserBody_deserialize rw\<rparr>"

section \<open>How a body is written\<close>
section \<open>How a body is written\<close>

text \<open>The members of the body that the handler of an endpoint reads.\<close>

fun body_names :: "endpoint \<Rightarrow> string list" where
  "body_names Setup_start = [''setup_token'', ''recovery'']"
| "body_names Recovery_request = [''user_id'']"
| "body_names Issue_recovery_setup = [''user_id'']"
| "body_names Approve_user = [''user_id'', ''email'', ''display_name'']"
| "body_names _ = [''ceremony_id'', ''credential'', ''ceremony_kind'']"

text \<open>The type an endpoint reads its body as, and whether a document is of that type.\<close>

fun body_type :: "endpoint \<Rightarrow> string" where
  "body_type Setup_start = ''SetupStart''"
| "body_type Recovery_request = ''RecoveryRequestBody''"
| "body_type Issue_recovery_setup = ''RecoverySetupBody''"
| "body_type Approve_user = ''ApproveUserBody''"
| "body_type _ = ''CeremonyFinish''"

definition finish_endpoints :: "endpoint set" where
  "finish_endpoints = {Login_finish, Setup_finish, Operator_bootstrap_finish}"

definition body_decodes :: "axum \<Rightarrow> endpoint \<Rightarrow> json \<Rightarrow> bool" where
  "body_decodes ax ep j =
     (case ep of
        Setup_start \<Rightarrow> SetupStart_deserialize j \<noteq> None
      | Recovery_request \<Rightarrow> RecoveryRequestBody_deserialize j \<noteq> None
      | Issue_recovery_setup \<Rightarrow> RecoverySetupBody_deserialize j \<noteq> None
      | Approve_user \<Rightarrow> ApproveUserBody_deserialize j \<noteq> None
      | _ \<Rightarrow> ep \<in> finish_endpoints \<longrightarrow> CeremonyFinish_deserialize (ax_parse_uuid ax) j \<noteq> None)"

definition known_members :: "string list \<Rightarrow> (string \<times> json) list \<Rightarrow> (string \<times> json) list" where
  "known_members names kvs = filter (\<lambda>m. fst m \<in> set names) kvs"

lemma de_struct_known: "de_struct False names (JObject kvs) = de_struct False names (JObject (known_members names kvs))"
  by (simp add: de_struct_def visit_map_empty known_members_def Let_def)

lemma same_presentation:
  assumes "respects_canon de" and "\<And>ms. de (JObject ms) = de (JObject (known_members names ms))"
    and "canon (JObject (known_members names kvs)) = canon (JObject (known_members names kvs'))"
  shows "de (JObject kvs) = de (JObject kvs')"
  by (metis assms respects_canonD)

lemma respects_canon_bodies:
  "respects_canon (CeremonyFinish_deserialize parse)" "respects_canon SetupStart_deserialize"
  "respects_canon RecoveryRequestBody_deserialize" "respects_canon RecoverySetupBody_deserialize"
  "respects_canon ApproveUserBody_deserialize"
  unfolding CeremonyFinish_deserialize_def SetupStart_deserialize_def RecoveryRequestBody_deserialize_def
    RecoverySetupBody_deserialize_def ApproveUserBody_deserialize_def Uuid_deserialize_def CeremonyKind_deserialize_def
  by (rule respects_canon_struct, simp add: de_field_canon de_field_or_canon respects_canon_intros)+

lemma bodies_known:
  "CeremonyFinish_deserialize parse (JObject ms) =
     CeremonyFinish_deserialize parse (JObject (known_members [''ceremony_id'', ''credential'', ''ceremony_kind''] ms))"
  "SetupStart_deserialize (JObject ms) = SetupStart_deserialize (JObject (known_members [''setup_token'', ''recovery''] ms))"
  "RecoveryRequestBody_deserialize (JObject ms) = RecoveryRequestBody_deserialize (JObject (known_members [''user_id''] ms))"
  "RecoverySetupBody_deserialize (JObject ms) = RecoverySetupBody_deserialize (JObject (known_members [''user_id''] ms))"
  "ApproveUserBody_deserialize (JObject ms) =
     ApproveUserBody_deserialize (JObject (known_members [''user_id'', ''email'', ''display_name''] ms))"
  unfolding CeremonyFinish_deserialize_def SetupStart_deserialize_def RecoveryRequestBody_deserialize_def
    RecoverySetupBody_deserialize_def ApproveUserBody_deserialize_def
  by (subst de_struct_known, rule refl)+

text \<open>What an endpoint does with a body of this text.\<close>

definition run_text ::
    "app_state \<Rightarrow> draws \<Rightarrow> header_map \<Rightarrow> axum \<Rightarrow> response + string \<Rightarrow> endpoint \<Rightarrow> pg \<Rightarrow> string \<Rightarrow> response \<times> pg" where
  "run_text st dr headers ax p ep s text =
     run_endpoint st dr headers (extract_args ax \<lparr>rw_path_id = p, rw_body = Inr text\<rparr>) ep s"

text \<open>
  C37: A request means the same however its body is written.  Take two JSON texts of objects that agree
  on the members the handler reads, up to the order of members at any depth, whatever else they hold.
  Either both are of the type the endpoint reads, and give the same response and the same effect; or
  neither is, and both are turned away before the handler runs, nothing is sent to the database, and
  the response is axum's to that text, unless it already rejected the path.
\<close>

theorem body_presentation_irrelevant:
  assumes "ax_parse_json ax t = Some (JObject kvs)" and "ax_parse_json ax t' = Some (JObject kvs')"
    and "canon (JObject (known_members (body_names ep) kvs)) = canon (JObject (known_members (body_names ep) kvs'))"
  shows "(body_decodes ax ep (JObject kvs) \<longleftrightarrow> body_decodes ax ep (JObject kvs'))
    \<and> (body_decodes ax ep (JObject kvs) \<longrightarrow>
         run_text st dr headers ax p ep s t = run_text st dr headers ax p ep s t')
    \<and> (\<not> body_decodes ax ep (JObject kvs) \<longrightarrow>
         {run_text st dr headers ax p ep s t, run_text st dr headers ax p ep s t'} \<subseteq> {x. snd x = s}
         \<and> (run_text st dr headers ax p ep s t = run_text st dr headers ax p ep s t'
            \<or> fst (run_text st dr headers ax p ep s t) = ax_json_rejection ax (body_type ep) t
              \<and> fst (run_text st dr headers ax p ep s t') = ax_json_rejection ax (body_type ep) t'))"
proof -
  let ?r = "\<lambda>text. \<lparr>rw_path_id = p, rw_body = Inr text\<rparr> :: raw_request"
  have path: "extract_path ax (?r t) = extract_path ax (?r t')" by (simp add: extract_path_def)
  note same = same_presentation [of _ "body_names ep", OF _ _ assms(3)]
  note eqs = same [OF respects_canon_bodies(1)] same [OF respects_canon_bodies(2)] same [OF respects_canon_bodies(3)]
    same [OF respects_canon_bodies(4)] same [OF respects_canon_bodies(5)]
  show ?thesis
    using eqs path bodies_known assms(1,2)
    by (cases ep) (auto simp: run_text_def extract_args_def extract_json_def body_decodes_def finish_endpoints_def
        with_arg_def split: sum.split)
qed

definition demo_axum :: axum where
  "demo_axum = \<lparr>ax_parse_uuid = (\<lambda>_. None),
     ax_parse_json = (\<lambda>text. Some (JObject (if text = ''a''
       then [(''setup_token'', JString ''t''), (''note'', JNull), (''recovery'', JBool True)]
       else [(''recovery'', JBool True), (''setup_token'', JString ''t'')]))),
     ax_path_rejection = (\<lambda>_. plain_response BAD_REQUEST None),
     ax_json_rejection = (\<lambda>body text. plain_response (Other_status 422) (Some (JString text)))\<rparr>"

theorem body_presentation_irrelevant_witness:
  "run_text demo_state demo_draws operator_headers demo_axum (Inr '''') Setup_start demo_pg ''a''
   = run_text demo_state demo_draws operator_headers demo_axum (Inr '''') Setup_start demo_pg ''b''"
proof -
  let ?a = "[(''setup_token'', JString ''t''), (''note'', JNull), (''recovery'', JBool True)]"
  let ?b = "[(''recovery'', JBool True), (''setup_token'', JString ''t'')]"
  have parsed: "ax_parse_json demo_axum ''a'' = Some (JObject ?a)" "ax_parse_json demo_axum ''b'' = Some (JObject ?b)"
    by (simp_all add: demo_axum_def)
  have same: "canon (JObject (known_members (body_names Setup_start) ?a))
      = canon (JObject (known_members (body_names Setup_start) ?b))"
    by (simp add: known_members_def less_eq_char_def)
  have "body_decodes demo_axum Setup_start (JObject ?a)"
    by (simp add: body_decodes_def SetupStart_deserialize_def de_struct_def de_field_def de_field_or_def de_string_def
        de_bool_def)
  with body_presentation_irrelevant [OF parsed same] show ?thesis by blast
qed

section \<open>Methods\<close>
section \<open>Methods\<close>

text \<open>What a refresh leaves of a session: all but its CSRF hash, its idle limit and when it was last seen.\<close>

definition session_identity ::
    "auth_session \<Rightarrow> uuid \<times> string \<times> bytes \<times> int \<times> time \<times> time \<times> time option" where
  "session_identity n = (se_id n, se_user_id n, se_token_hash n, se_auth_epoch n, se_absolute_expires_at n,
     se_created_at n, se_revoked_at n)"

definition only_refreshes :: "db \<Rightarrow> db \<Rightarrow> bool" where
  "only_refreshes d d' \<longleftrightarrow> d' = d\<lparr>db_sessions := db_sessions d'\<rparr>
     \<and> map session_identity (db_sessions d') = map session_identity (db_sessions d)"

lemma only_refreshes_refl: "only_refreshes d d"
  by (simp add: only_refreshes_def)

lemma only_refreshes_trans: "only_refreshes d e \<Longrightarrow> only_refreshes e f \<Longrightarrow> only_refreshes d f"
  unfolding only_refreshes_def by (cases d; cases e; cases f) simp

lemma session_seen_refreshes: "upd_session_seen sid csrf idle now d = Inr (x, d') \<Longrightarrow> only_refreshes d d'"
  by (auto simp: upd_session_seen_def only_refreshes_def update_where_def session_identity_def
      split: if_splits option.splits)

abbreviation refreshes :: "pg \<Rightarrow> pg \<Rightarrow> bool" where
  "refreshes s s' \<equiv> only_refreshes (pg_db s) (pg_db s')"

interpretation refresh: statement_relation refreshes
  by unfold_locales (simp_all add: only_refreshes_refl, blast intro: only_refreshes_trans)

lemma touch_session_refreshes: "op_rel refreshes (touch_session h csrf now idle)"
  unfolding touch_session_def store_err_def
  by (intro refresh.transaction_rel refresh.rel_intros op_rel_cases refresh.select_tx refresh.exec_tx_rel)
    (simp add: session_seen_refreshes)

lemma reads_refresh:
  "op_rel refreshes (session h now idle)" "op_rel refreshes (rotate_session_csrf h csrf now idle)"
  "op_rel refreshes pending_recoveries"
  unfolding session_def rotate_session_csrf_def pending_recoveries_def store_err_def
  by (intro refresh.rel_intros touch_session_refreshes refresh.select_pool)+

lemma unless_rel: "op_rel R m \<Longrightarrow> op_rel R (unless_unauthenticated x m)"
  by (auto simp: op_rel_def unless_unauthenticated_def split: prod.splits sum.splits if_splits)

lemma services_refresh:
  assumes "sv_store sv = pg_auth_store"
  shows "op_rel refreshes (authenticate_session sv token csrf now)"
    and "op_rel refreshes (issue_session_csrf sv c token now)" and "op_rel refreshes (service_pending_recoveries sv)"
  unfolding authenticate_session_def issue_session_csrf_def service_pending_recoveries_def assms op_some_def
    pg_auth_store_simps
  by (intro refresh.rel_intros op_rel_cases reads_refresh)+

lemma handlers_refresh:
  assumes "sv_store (st_auth st) = pg_auth_store"
  shows "op_rel refreshes (public_capabilities_handler st dr headers)"
    and "op_rel refreshes (session_discovery_handler st dr headers)"
    and "op_rel refreshes (pending_recoveries_handler st dr headers)"
    and "op_rel refreshes (operator_capabilities_handler st dr headers)"
  unfolding public_capabilities_handler_def session_discovery_handler_def pending_recoveries_handler_def
    operator_capabilities_handler_def optional_session_def operator_gate_def
  by (intro refresh.rel_intros op_rel_cases unless_rel services_refresh assms)+

text \<open>A request without the session cookie does not even read a session.\<close>

lemma anonymous_handlers:
  assumes "cookie_value headers SESSION_COOKIE = None"
  shows "snd (public_capabilities_handler st dr headers s) = s"
    and "snd (session_discovery_handler st dr headers s) = s"
    and "snd (pending_recoveries_handler st dr headers s) = s"
    and "snd (operator_capabilities_handler st dr headers s) = s"
  by (simp_all add: public_capabilities_handler_def session_discovery_handler_def pending_recoveries_handler_def
      operator_capabilities_handler_def optional_session_def operator_gate_def operator_tokens_def session_token_def
      assms op_defs map_ok_def)

lemma respond_state: "snd (respond st h s) = snd (h s)"
  by (simp add: respond_def split: prod.split sum.split)

lemma ready_db: "pg_db (snd (ready_handler s)) = pg_db s"
  by (simp add: ready_handler_def ready_def exec_pool_def run_stmt_def select_def case_prod_beta round_trip_def
      split: list.split outcome.split)

definition safe_endpoints :: "endpoint set" where
  "safe_endpoints = {Live, Ready, Public_capabilities, Session_discovery, Pending_recoveries, Operator_capabilities}"

lemma routes_safe:
  assumes "routes \<in> {public_routes, private_routes}" and "map_of routes p = Some (m, ep)"
  shows "m = POST \<or> m = GET \<and> ep \<in> safe_endpoints"
proof -
  have "(p, m, ep) \<in> set routes" using assms(2) by (rule map_of_SomeD)
  then show ?thesis using assms(1) by (auto simp: public_routes_def private_routes_def safe_endpoints_def)
qed

lemma safe_endpoint_effect:
  assumes "sv_store (st_auth st) = pg_auth_store" and "ep \<in> safe_endpoints"
  shows "refreshes s (snd (run_endpoint st dr headers ex ep s))"
    and "cookie_value headers SESSION_COOKIE = None \<Longrightarrow> pg_db (snd (run_endpoint st dr headers ex ep s)) = pg_db s"
proof -
  have handler: "refreshes s (snd (h s))" if "op_rel refreshes h" for h :: "response handler"
    using op_relD [OF that prod.collapse [symmetric]] .
  show "refreshes s (snd (run_endpoint st dr headers ex ep s))"
    using assms(2) by (auto simp: safe_endpoints_def respond_state ready_db only_refreshes_refl
        intro!: handler handlers_refresh assms(1))
  show "pg_db (snd (run_endpoint st dr headers ex ep s)) = pg_db s" if "cookie_value headers SESSION_COOKIE = None"
    using assms(2) anonymous_handlers [OF that] by (auto simp: safe_endpoints_def respond_state ready_db)
qed

lemma routed_safe:
  assumes "sv_store (st_auth st) = pg_auth_store" and "verb \<noteq> POST" and "routes \<in> {public_routes, private_routes}"
    and out_def: "out = snd (routed routes st dr headers ex matched verb s)"
  shows "refreshes s out \<and> (verb \<notin> {GET, HEAD} \<longrightarrow> out = s)
    \<and> (cookie_value headers SESSION_COOKIE = None \<longrightarrow> pg_db out = pg_db s)"
proof -
  have "out = s \<or> verb \<in> {GET, HEAD} \<and> (\<exists>ep\<in>safe_endpoints. out = snd (run_endpoint st dr headers ex ep s))"
  proof (cases "\<exists>p m ep. matched = Some p \<and> map_of routes p = Some (m, ep)")
    case True
    then obtain p m ep where found: "matched = Some p" "map_of routes p = Some (m, ep)" by blast
    note safe = routes_safe [OF assms(3) found(2)]
    show ?thesis
    proof (cases "m = GET \<and> verb \<in> {GET, HEAD}")
      case True
      then have "out = snd (run_endpoint st dr headers ex ep s)"
        by (auto simp: out_def routed_def found case_prod_beta)
      with True safe show ?thesis by auto
    next
      case False
      then have "out = s" using safe assms(2) by (auto simp: out_def routed_def found)
      then show ?thesis by blast
    qed
  next
    case False
    then have "out = s" by (auto simp: out_def routed_def split: option.split)
    then show ?thesis by blast
  qed
  then show ?thesis using safe_endpoint_effect [OF assms(1)] by (auto simp: only_refreshes_refl)
qed

text \<open>
  C38: Only \<open>POST\<close> does anything.  On either listener, whatever the path, the headers, the network and
  the answer of the CORS layer, a request with another method adds, removes and changes no row of any
  table except that it may refresh a session: its CSRF hash, its idle limit and when it was last
  seen.  Without the session cookie it changes no row at all, and with a method other than \<open>GET\<close> and
  \<open>HEAD\<close> nothing is sent to the database.
\<close>

theorem only_post_acts:
  assumes "sv_store (st_auth st) = pg_auth_store" and "verb \<noteq> POST"
    and "listener = public_router \<or> listener = private_router"
    and "listener c st dr headers ex matched verb s = (r, s')"
  shows "only_refreshes (pg_db s) (pg_db s')
    \<and> (cookie_value headers SESSION_COOKIE = None \<longrightarrow> pg_db s' = pg_db s)
    \<and> (verb \<notin> {GET, HEAD} \<longrightarrow> s' = s)"
proof -
  obtain routes where routes: "routes \<in> {public_routes, private_routes}" and "listener = router routes"
    using assms(3) by (auto simp: public_router_def private_router_def)
  then have "s' = s \<or> s' = snd (routed routes st dr headers ex matched verb s)"
    using assms(4) by (auto simp: router_def split: option.splits prod.splits)
  with routed_safe [OF assms(1,2) routes refl, of s dr headers ex matched] show ?thesis
    by (auto simp: only_refreshes_refl)
qed

theorem only_post_acts_witness:
  "only_refreshes (pg_db demo_pg) (pg_db (snd (public_router demo_cors demo_state demo_draws operator_headers demo_extracted
     (Some ''/v1/session'') HEAD demo_pg)))"
proof -
  have "sv_store (st_auth demo_state) = pg_auth_store" and "HEAD \<noteq> POST" by simp_all
  from only_post_acts [OF this disjI1 [OF refl] prod.collapse [symmetric]] show ?thesis by blast
qed

end
