(* ===== verification/Application.thy ===== *)
theory Application
  imports Cli Http_Requests
begin

text \<open>
  The program as a whole: requests on the two listeners and commands, in any order.  Every request
  and every command is a run of the store (by the interpretation \<open>run\<close> of \<open>auth_store_steps\<close>), so
  what holds of every run of the store holds of the program.
\<close>

section \<open>Break glass\<close>

definition break_glass_guard :: "break_glass_args \<Rightarrow> bool" where
  "break_glass_guard args \<longleftrightarrow> bg_enabled args \<and> bg_confirm args = BREAK_GLASS_CONFIRMATION
     \<and> 12 \<le> length (trim (bg_reason args)) \<and> 1 \<le> bg_window_minutes args \<and> bg_window_minutes args \<le> 15
     \<and> valid_opaque_id (bg_operator_user_id args)"

lemma break_glass_command_steps:
  "break_glass_command cr io dr args s = (r, s') \<Longrightarrow> \<not> break_glass_guard args \<Longrightarrow> \<not> is_ok r \<and> s' = s"
  by (auto simp: break_glass_command_def break_glass_guard_def op_fail_eq op_bind_def op_lift_def operator_id_argument_def
      UserId_new_def split: if_splits)

text \<open>
  C39: The break-glass window is bounded.  Without the switch, the exact confirmation, a reason of
  12 bytes after trimming, a window of 1 to 15 minutes and a valid identifier the command fails and
  sends nothing.  Where it succeeds, a capability for the recovery of an operator was opened for the
  user it names, unconsumed, expiring between 1 and 15 minutes after the command, and the passkey it
  names is revoked.
\<close>

theorem break_glass_window_bounds:
  assumes "break_glass_command cr io dr args s = (r, s')"
  shows "(break_glass_guard args \<or> \<not> is_ok r \<and> s' = s)
    \<and> (is_ok r \<longrightarrow>
        (\<exists>c\<in>set (db_capabilities (pg_db s')). ca_token_hash c = as_bytes (token_hash cr (dr_token dr))
           \<and> ca_purpose c = ''operator_recovery'' \<and> ca_consumed_at c = None
           \<and> ca_user_id c = bg_operator_user_id args
           \<and> dr_now dr + minutes 1 \<le> ca_expires_at c \<and> ca_expires_at c \<le> dr_now dr + minutes 15)
        \<and> (\<exists>u\<in>set (db_users (pg_db s)). ur_id u = bg_operator_user_id args \<and> ur_role u = ''operator'')
        \<and> (\<exists>k\<in>set (db_credentials (pg_db s')). cr_id k = bg_revoke_credential args \<and> cr_revoked_at k = Some (dr_now dr)))"
proof (cases "break_glass_guard args \<and> is_ok r")
  case False
  with break_glass_command_steps [OF assms] show ?thesis by blast
next
  case True
  let ?c = "\<lparr>cp_id = dr_id dr, cp_user_id = UserId (bg_operator_user_id args), cp_purpose = OperatorRecovery,
      cp_token_hash = token_hash cr (dr_token dr), cp_expires_at = dr_now dr + minutes (bg_window_minutes args)\<rparr>"
  have run: "break_glass (bg_revoke_credential args) ?c (dr_now dr) (trim (bg_reason args)) s = (Inr (), s')"
    using assms True
    by (cases r) (auto simp: break_glass_command_def break_glass_guard_def op_bind_Inr op_lift_Inr op_map_err_Inr
        op_fail_eq op_return_eq connect_def operator_id_argument_def UserId_new_def split: if_splits)
  let ?P = "\<lambda>k. cr_id k = bg_revoke_credential args
    \<and> list_ex (\<lambda>u. ur_id u = cr_user_id k \<and> ur_role u = ''operator'') (db_users (pg_db s)) \<and> cr_revoked_at k = None"
  let ?ks = "update_where ?P (\<lambda>k. k\<lparr>cr_revoked_at := Some (dr_now dr)\<rparr>) (db_credentials (pg_db s))"
  obtain k d1 a clock where k: "k \<in> set (db_credentials (pg_db s))" "cr_id k = bg_revoke_credential args"
      "cr_revoked_at k = None" "user_str (cp_user_id ?c) = cr_user_id k"
    and op: "\<exists>u\<in>set (db_users (pg_db s)). ur_id u = cr_user_id k \<and> ur_role u = ''operator''"
    and d1: "d1 = cut_tables (\<lambda>j. j = cr_user_id k) False (dr_now dr) ((pg_db s)\<lparr>db_credentials := ?ks\<rparr>)"
    and db: "pg_db s' = d1\<lparr>db_capabilities := db_capabilities d1 @ [capability_to_row ?c clock],
      db_audit := db_audit (pg_db s) @ [a]\<rparr>" and "au_event_type a = ''operator.break_glass_opened''"
    using run by (rule break_glass_db)
  have "?P k" using k op by (auto simp: list_ex_iff)
  then have "k\<lparr>cr_revoked_at := Some (dr_now dr)\<rparr> \<in> set (db_credentials (pg_db s'))"
    using k(1) by (auto simp: db d1 cut_tables_def set_update_where intro!: image_eqI [of _ _ k])
  then have revoked: "\<exists>k\<in>set (db_credentials (pg_db s')). cr_id k = bg_revoke_credential args \<and> cr_revoked_at k = Some (dr_now dr)"
    using k(2) by (intro bexI [of _ "k\<lparr>cr_revoked_at := Some (dr_now dr)\<rparr>"]) simp_all
  have "capability_to_row ?c clock \<in> set (db_capabilities (pg_db s'))" by (simp add: db)
  then have opened: "\<exists>c\<in>set (db_capabilities (pg_db s')). ca_token_hash c = as_bytes (token_hash cr (dr_token dr))
           \<and> ca_purpose c = ''operator_recovery'' \<and> ca_consumed_at c = None \<and> ca_user_id c = bg_operator_user_id args
           \<and> dr_now dr + minutes 1 \<le> ca_expires_at c \<and> ca_expires_at c \<le> dr_now dr + minutes 15"
    using True by (intro bexI [of _ "capability_to_row ?c clock"])
      (simp_all add: capability_to_row_def minutes_def break_glass_guard_def)
  show ?thesis using True op k(4) revoked opened by simp
qed

definition demo_break_glass :: break_glass_args where
  "demo_break_glass = \<lparr>bg_enabled = True, bg_operator_user_id = ''operator'', bg_revoke_credential = 11,
     bg_reason = ''lost passkey'', bg_window_minutes = 10, bg_confirm = BREAK_GLASS_CONFIRMATION\<rparr>"

lemma demo_break_glass_command_ok:
  "\<exists>s1. break_glass_command demo_crypto demo_io demo_draws demo_break_glass demo_pg = (Inr (), s1)"
proof -
  let ?c = "\<lparr>cp_id = 32, cp_user_id = UserId ''operator'', cp_purpose = OperatorRecovery,
      cp_token_hash = token_hash demo_crypto (demo_token 5), cp_expires_at = 100 + minutes 10\<rparr>"
  have "\<exists>s1. break_glass 11 ?c 100 ''lost passkey'' demo_pg = (Inr (), s1)"
    using text_ok_uuid_str [of 11]
    by (simp add: break_glass_def invalidate_user_auth_def insert_capability_tx_def db_now_def insert_audit_def
        audit_to_row_def capability_to_row_def pg_eval demo_pg_def demo_db_def demo_rows demo_hash_eq
        i64_max_def purpose_names_def token_hash_def demo_crypto_def demo_token_def)
  then obtain s1 where "break_glass 11 ?c 100 ''lost passkey'' demo_pg = (Inr (), s1)" ..
  moreover have "trim ''lost passkey'' = ''lost passkey''"
    by (rule trim_graphic) (simp_all add: graphic_def)
  moreover have "operator_id_argument ''operator'' = Inr (UserId ''operator'')"
    by (simp add: operator_id_argument_def UserId_new_def id_char_def is_ascii_alphanumeric_def is_ascii_alphabetic_def)
  ultimately show ?thesis
    by (simp add: break_glass_command_def demo_break_glass_def op_bind_def op_lift_def op_return_def op_map_err_def
        connect_def demo_io_def)
qed

theorem break_glass_window_bounds_witness:
  "\<exists>s1. break_glass_command demo_crypto demo_io demo_draws demo_break_glass demo_pg = (Inr (), s1)
     \<and> (\<exists>c\<in>set (db_capabilities (pg_db s1)). ca_purpose c = ''operator_recovery'' \<and> ca_expires_at c \<le> 100 + minutes 15)
     \<and> (\<exists>k\<in>set (db_credentials (pg_db s1)). cr_id k = 11 \<and> cr_revoked_at k = Some 100)"
proof -
  obtain s1 where run: "break_glass_command demo_crypto demo_io demo_draws demo_break_glass demo_pg = (Inr (), s1)"
    using demo_break_glass_command_ok by blast
  have now: "dr_now demo_draws = 100" and id: "bg_revoke_credential demo_break_glass = 11"
    by (simp_all add: demo_break_glass_def)
  have "is_ok (Inr () :: cli_error + unit)" by simp
  with break_glass_window_bounds [OF run] run show ?thesis unfolding now id by blast
qed

section \<open>Requests and commands are runs of the store\<close>

lemma bind_lift_run: "(\<And>x. r = Inr x \<Longrightarrow> op_rel store_run (f x)) \<Longrightarrow> op_rel store_run (op_bind (op_lift r) f)"
  by (cases r) (auto simp: op_rel_def op_bind_def op_lift_def)

lemma request_user_id_ok: "request_user_id s = Inr i \<Longrightarrow> user_id_ok i"
  by (auto simp: request_user_id_def UserId_new_def user_id_ok_def map_err_def split: sum.splits if_splits)

lemma gate_run:
  "sv_store (st_auth st) = pg_auth_store \<Longrightarrow> op_rel store_run (operator_gate st dr headers csrf_required)"
  unfolding operator_gate_def by (intro run.service_intros run.service_rel)

lemma optional_session_run:
  "sv_store (st_auth st) = pg_auth_store \<Longrightarrow> op_rel store_run (optional_session st dr headers)"
  unfolding optional_session_def by (intro run.service_intros unless_rel run.service_rel)

lemma handler_runs:
  assumes "sv_store (st_auth st) = pg_auth_store"
  shows "op_rel store_run (public_capabilities_handler st dr headers)"
    and "op_rel store_run (session_discovery_handler st dr headers)"
    and "op_rel store_run (login_start_handler st dr headers)"
    and "op_rel store_run (login_finish_handler st dr headers finish)"
    and "op_rel store_run (logout_handler st dr headers)"
    and "op_rel store_run (setup_start_handler st dr headers start)"
    and "op_rel store_run (setup_finish_handler st dr headers finish)"
    and "op_rel store_run (recovery_request_handler st dr headers body)"
    and "op_rel store_run (operator_bootstrap_start_handler st dr headers)"
    and "op_rel store_run (operator_bootstrap_finish_handler st dr headers finish)"
    and "op_rel store_run (pending_recoveries_handler st dr headers)"
    and "op_rel store_run (approve_recovery_handler st dr headers i)"
    and "op_rel store_run (issue_recovery_setup_handler st dr headers i body)"
    and "op_rel store_run (operator_capabilities_handler st dr headers)"
  unfolding public_capabilities_handler_def session_discovery_handler_def login_start_handler_def
    login_finish_handler_def logout_handler_def setup_start_handler_def setup_finish_handler_def
    recovery_request_handler_def operator_bootstrap_start_handler_def operator_bootstrap_finish_handler_def
    pending_recoveries_handler_def approve_recovery_handler_def issue_recovery_setup_handler_def
    operator_capabilities_handler_def Let_def
  by (intro run.service_intros unless_rel gate_run optional_session_run run.service_rel assms)+

lemma approve_user_run:
  assumes "sv_store (st_auth st) = pg_auth_store"
  shows "op_rel store_run (approve_user_handler st dr headers body)"
  unfolding approve_user_handler_def
  by (intro bind_lift_run run.rel_bind run.rel_return gate_run assms run.service_creates_rel)
    (erule request_user_id_ok)

lemma respond_run: "op_rel store_run h \<Longrightarrow> store_run s (snd (respond st h s))"
  by (auto simp: op_rel_def respond_def split: prod.splits sum.splits)

lemma with_arg_run: "(\<And>a. store_run s (snd (h a s))) \<Longrightarrow> store_run s (snd (with_arg x h s))"
  by (auto simp: with_arg_def split: sum.splits)

lemma ready_run: "store_run s (snd (ready_handler s))"
proof -
  have "snd (ready_handler s) = s\<lparr>pg_clock := pg_clock s, pg_net := pg_net (snd (round_trip s))\<rparr>"
    by (auto simp: ready_handler_def ready_def exec_pool_def run_stmt_def select_def round_trip_def
        split: prod.splits list.splits outcome.splits)
  then show ?thesis unfolding store_run_def using step_world [of s _ "pg_clock s"] by (simp add: r_into_rtranclp)
qed

lemma run_endpoint_run:
  assumes "sv_store (st_auth st) = pg_auth_store"
  shows "store_run s (snd (run_endpoint st dr headers ex ep s))"
  by (cases ep) (auto intro!: respond_run with_arg_run handler_runs approve_user_run assms ready_run)

lemma routed_run:
  assumes "sv_store (st_auth st) = pg_auth_store"
  shows "store_run s (snd (routed routes st dr headers ex matched verb s))"
  using run_endpoint_run [OF assms, of s dr headers ex]
  by (simp add: routed_def store_run_refl case_prod_beta split: option.split)

lemma router_run:
  assumes "sv_store (st_auth st) = pg_auth_store"
  shows "store_run s (snd (router routes c st dr headers ex matched verb s))"
  using routed_run [OF assms, of s routes dr headers ex matched verb]
  by (simp add: router_def store_run_refl case_prod_beta split: option.split)

lemma operator_id_argument_ok: "operator_id_argument s = Inr i \<Longrightarrow> user_id_ok i"
  by (auto simp: operator_id_argument_def UserId_new_def user_id_ok_def map_err_def split: sum.splits if_splits)

lemma io_runs:
  "op_rel store_run (connect io)" "op_rel store_run (migrate io)" "op_rel store_run (new_engine wl rp_id origin production)"
  by (auto simp: op_rel_def connect_def migrate_def new_engine_def op_defs split: if_splits)

lemma command_service_store [simp]: "sv_store (command_service wl cr w) = pg_auth_store"
  by (simp add: command_service_def)

lemma break_glass_run: "op_rel store_run (break_glass i c now reason)"
  by (rule op_rel_store_run) (rule call_break_glass)

lemma break_glass_command_run: "op_rel store_run (break_glass_command cr io dr args)"
  unfolding break_glass_command_def
  by (intro op_rel_if run.rel_fail bind_lift_run run.rel_bind io_runs op_rel_map_err break_glass_run)

lemma seed_operator_command_run: "op_rel store_run (seed_operator_command wl cr io dr args)"
  unfolding seed_operator_command_def
  by (intro op_rel_if run.rel_fail bind_lift_run run.rel_bind io_runs op_rel_map_err run.service_creates_rel
      command_service_store) (erule operator_id_argument_ok)

lemma rotate_auth_epoch_command_run: "op_rel store_run (rotate_auth_epoch_command wl cr io dr args)"
  unfolding rotate_auth_epoch_command_def
  by (intro op_rel_if run.rel_fail run.rel_return run.rel_bind io_runs op_rel_map_err run.service_rel command_service_store)

lemma serve_run: "op_rel store_run (serve wl lib io args)"
  unfolding serve_def serve_setup_def bind_listener_def
  by (intro op_rel_if op_rel_case_option run.rel_fail run.rel_return bind_lift_run run.rel_bind io_runs)

lemma main_run: "op_rel store_run (main wl lib io dr command)"
proof -
  have "op_rel store_run (case command of
             Serve args \<Rightarrow> op_void (serve wl lib io args)
           | BreakGlass args \<Rightarrow> break_glass_command (st_crypto lib) io dr args
           | SeedOperator args \<Rightarrow> seed_operator_command wl (st_crypto lib) io dr args
           | RotateAuthEpoch args \<Rightarrow> rotate_auth_epoch_command wl (st_crypto lib) io dr args)"
    by (cases command) (simp_all add: op_rel_void serve_run break_glass_command_run
        seed_operator_command_run rotate_auth_epoch_command_run)
  then show ?thesis unfolding main_def by (intro bind_lift_run op_rel_if run.rel_fail)
qed

section \<open>The program\<close>

text \<open>
  One step of a deployment: a request on either listener of a server, a command, or a change of the
  database's clock and network.
\<close>

inductive app_step ::
    "('w, 'b, 'c, 'r, 'p, 'k, 'g, 'd, 'a, 'q, 'x) webauthn_lib \<Rightarrow> app_state \<Rightarrow> pg \<Rightarrow> pg \<Rightarrow> bool" for wl st where
  step_public: "public_router c st dr headers ex matched verb s = (r, s') \<Longrightarrow> app_step wl st s s'"
| step_private: "private_router c st dr headers ex matched verb s = (r, s') \<Longrightarrow> app_step wl st s s'"
| step_command: "main wl st io dr (command :: nat command) s = (res, s') \<Longrightarrow> app_step wl st s s'"
| step_environment: "app_step wl st s (s\<lparr>pg_clock := t, pg_net := n\<rparr>)"

inductive_cases app_stepE: "app_step wl st s s'"

lemma app_step_run:
  assumes "sv_store (st_auth st) = pg_auth_store" and "app_step wl st s s'"
  shows "store_run s s'"
  using assms(2)
proof (cases rule: app_step.cases)
  case (step_public c dr headers ex matched verb r)
  then show ?thesis using router_run [OF assms(1), of s public_routes c dr headers ex matched verb]
    by (simp add: public_router_def)
next
  case (step_private c dr headers ex matched verb r)
  then show ?thesis using router_run [OF assms(1), of s private_routes c dr headers ex matched verb]
    by (simp add: private_router_def)
next
  case (step_command io dr command res)
  with main_run show ?thesis by (rule op_relD)
next
  case (step_environment t n)
  then show ?thesis unfolding store_run_def using step_world by (simp add: r_into_rtranclp)
qed

lemma app_run_run:
  assumes "sv_store (st_auth st) = pg_auth_store" and "(app_step wl st)\<^sup>*\<^sup>* s s'"
  shows "store_run s s'"
  using assms(2)
proof (induction rule: rtranclp_induct)
  case (step y z)
  from step.IH app_step_run [OF assms(1) step.hyps(2)] show ?case by (rule store_run_trans)
qed simp

text \<open>
  C40: The whole program keeps the schema and only moves forward.  Over any sequence of requests on
  both listeners and of commands, whatever their arguments, their answers and the network, a
  well-formed database stays well formed, no row disappears or changes what it is about, what is
  consumed, revoked, approved or completed stays so, the epoch of a user never decreases, and the
  audit log is only appended to.
\<close>

theorem program_keeps_history:
  assumes "sv_store (st_auth st) = pg_auth_store" and "(app_step wl st)\<^sup>*\<^sup>* s s'" and "db_wf (pg_db s)"
  shows "db_wf (pg_db s') \<and> db_evolves (pg_db s) (pg_db s')"
  using store_run_keeps [OF app_run_run [OF assms(1,2)]] assms(3) by blast

theorem program_keeps_history_witness:
  "\<exists>r s'. public_router demo_cors demo_state demo_draws (\<lambda>_. None) demo_extracted (Some ''/v1/session'') GET demo_pg = (r, s')
     \<and> db_wf (pg_db s') \<and> db_evolves demo_db (pg_db s')"
proof -
  obtain r s' where run: "public_router demo_cors demo_state demo_draws (\<lambda>_. None) demo_extracted (Some ''/v1/session'') GET demo_pg
      = (r, s')" by fastforce
  then have "(app_step demo_lib demo_state)\<^sup>*\<^sup>* demo_pg s'" by (blast intro: step_public)
  moreover have "sv_store (st_auth demo_state) = pg_auth_store" and "pg_db demo_pg = demo_db"
    by (simp_all add: demo_pg_def)
  ultimately have "db_wf (pg_db s') \<and> db_evolves demo_db (pg_db s')"
    using program_keeps_history [of demo_state demo_lib demo_pg s'] demo_pg_wf by simp
  with run show ?thesis by blast
qed

end
