(* ===== verification/Pg_Scripts.thy ===== *)
theory Pg_Scripts
  imports Pg_Cutoff
begin

text \<open>
  The transactions of \<open>server/src/repository.rs\<close> statement by statement, so that statements of
  different transactions can interleave.

  A \<open>script\<close> is what is left of a transaction: its end, a statement with what follows it, or the wait
  for the advisory lock.  PostgreSQL runs a statement at \<open>READ COMMITTED\<close> on the snapshot it takes
  when it starts; an \<open>UPDATE\<close> then waits for the rows it selected, and checks its condition again on
  their latest version.  So a statement is a function of two databases, the snapshot and the one the
  rows are in when it goes on.

  \<open>performs\<close> relates a script, run alone, to the function of \<open>Pg_Store\<close> with the same statements.
\<close>

section \<open>Scripts\<close>

datatype 'a script =
    Finish "auth_error + 'a"
  | Stmt "db \<Rightarrow> db \<Rightarrow> 'a script \<times> db"
  | Advisory "'a script"

primrec then_script :: "'a script \<Rightarrow> ('a \<Rightarrow> 'b script) \<Rightarrow> 'b script" where
  "then_script (Finish r) f = (case r of Inl e \<Rightarrow> Finish (Inl e) | Inr x \<Rightarrow> f x)"
| "then_script (Stmt st) f = Stmt (\<lambda>snapshot d. map_prod (\<lambda>k. then_script k f) id (st snapshot d))"
| "then_script (Advisory k) f = Advisory (then_script k f)"

definition send :: "(sql_error \<Rightarrow> auth_error) \<Rightarrow> (db \<Rightarrow> 'a stmt) \<Rightarrow> 'a script" where
  "send err st = Stmt (\<lambda>snapshot d.
     case st snapshot d of Inl e \<Rightarrow> (Finish (Inl (err e)), d) | Inr (x, d') \<Rightarrow> (Finish (Inr x), d'))"

abbreviation to_store :: "sql_error \<Rightarrow> auth_error" where
  "to_store \<equiv> (\<lambda>_. Store)"

text \<open>The rows an \<open>UPDATE\<close> writes: selected in the snapshot, and still satisfying the condition.\<close>

definition rechecked :: "('r \<Rightarrow> 'k) \<Rightarrow> 'r list \<Rightarrow> ('r \<Rightarrow> bool) \<Rightarrow> 'r \<Rightarrow> bool" where
  "rechecked key rows P r \<longleftrightarrow> P r \<and> list_ex (\<lambda>q. key q = key r \<and> P q) rows"

section \<open>The transactions\<close>

definition audit_script :: "audit_event \<Rightarrow> time \<Rightarrow> unit script" where
  "audit_script event now = send to_store (\<lambda>_. ins_audit (audit_to_row event now))"

definition capability_script :: "capability \<Rightarrow> time \<Rightarrow> unit script" where
  "capability_script c clock = send to_store (\<lambda>_. ins_capability (capability_to_row c clock))"

definition user_script :: "user \<Rightarrow> time \<Rightarrow> unit script" where
  "user_script u now =
     send (\<lambda>e. if has_constraint e then Conflict else Store) (\<lambda>_. ins_user (user_to_row u now))"

definition insert_user_script :: "user \<Rightarrow> time \<Rightarrow> audit_event \<Rightarrow> unit script" where
  "insert_user_script u now audit = then_script (user_script u now) (\<lambda>_. audit_script audit now)"

definition approve_user_script :: "time \<Rightarrow> user \<Rightarrow> capability \<Rightarrow> user_id \<Rightarrow> time \<Rightarrow> unit script" where
  "approve_user_script clock u c operator_id now =
     then_script (user_script u now) (\<lambda>_.
     then_script (capability_script c clock) (\<lambda>_.
     audit_script
       \<lparr>ae_event_type = ''user.approved_with_setup'', ae_actor_user_id = Some operator_id,
        ae_subject_user_id = Some (u_id u),
        ae_data = JObject [(''capability_id'', JString (uuid_str (cp_id c)))]\<rparr> now))"

definition epoch_update :: "(human_user \<Rightarrow> bool) \<Rightarrow> time \<Rightarrow> human_user list script" where
  "epoch_update P now = send to_store (\<lambda>snapshot. upd_users_epoch (rechecked ur_id (db_users snapshot) P) now)"

definition sessions_update :: "(auth_session \<Rightarrow> bool) \<Rightarrow> time \<Rightarrow> auth_session list script" where
  "sessions_update P now = send to_store (\<lambda>snapshot. upd_sessions_revoked (rechecked se_id (db_sessions snapshot) P) now)"

definition ceremonies_update :: "(auth_ceremony \<Rightarrow> bool) \<Rightarrow> time \<Rightarrow> auth_ceremony list script" where
  "ceremonies_update P now =
     send to_store (\<lambda>snapshot. upd_ceremonies_consumed (rechecked ce_id (db_ceremonies snapshot) P) now)"

definition capabilities_update :: "(auth_capability \<Rightarrow> bool) \<Rightarrow> time \<Rightarrow> auth_capability list script" where
  "capabilities_update P now =
     send to_store (\<lambda>snapshot. upd_capabilities_consumed (rechecked ca_id (db_capabilities snapshot) P) now)"

definition rotate_script :: "bool \<Rightarrow> time \<Rightarrow> string \<Rightarrow> u64 script" where
  "rotate_script int4_as_i64 now reason =
     then_script (epoch_update (\<lambda>_. True) now) (\<lambda>rows.
     if rows \<noteq> [] \<and> \<not> int4_as_i64 then Finish (Inl Store)
     else then_script (sessions_update (\<lambda>s. se_revoked_at s = None) now) (\<lambda>_.
     then_script (ceremonies_update (\<lambda>c. ce_consumed_at c = None) now) (\<lambda>_.
     then_script (capabilities_update (\<lambda>c. ca_consumed_at c = None) now) (\<lambda>_.
     then_script (audit_script
       \<lparr>ae_event_type = ''auth.epoch_rotated_all'', ae_actor_user_id = None, ae_subject_user_id = None,
        ae_data = JObject [(''reason'', JString reason), (''users'', JNumber (int (length rows)))]\<rparr> now) (\<lambda>_.
     Finish (Inr (of_nat (length rows))))))))"

definition consume_ceremony_script :: "uuid \<Rightarrow> time \<Rightarrow> (string \<times> string) script" where
  "consume_ceremony_script i now =
     then_script (ceremonies_update (\<lambda>c. ce_id c = i \<and> ce_consumed_at c = None \<and> ce_expires_at c > now) now) (\<lambda>rows.
       case rows of
         [] \<Rightarrow> Finish (Inl InvalidState)
       | c # _ \<Rightarrow> (case ce_user_id c of None \<Rightarrow> Finish (Inl Store) | Some u \<Rightarrow> Finish (Inr (u, ce_kind c))))"

definition check_bootstrap_script :: "string \<Rightarrow> unit script" where
  "check_bootstrap_script ceremony_kind =
     (if ceremony_kind = ''operator_bootstrap''
      then then_script (send to_store (\<lambda>snapshot. select (\<lambda>_. length (operator_credentials snapshot)))) (\<lambda>n.
             if n \<noteq> 0 then Finish (Inl Conflict) else Finish (Inr ()))
      else Finish (Inr ()))"

definition consume_capability_script :: "secret_hash option \<Rightarrow> time \<Rightarrow> unit script" where
  "consume_capability_script capability_hash now =
     (case capability_hash of
        None \<Rightarrow> Finish (Inr ())
      | Some hash \<Rightarrow>
          then_script (capabilities_update (\<lambda>c. ca_token_hash c = as_bytes hash
              \<and> ca_consumed_at c = None \<and> ca_expires_at c > now) now)
            (\<lambda>rows. if length rows \<noteq> 1 then Finish (Inl InvalidState) else Finish (Inr ())))"

definition credential_script :: "uuid \<Rightarrow> string \<Rightarrow> verified_credential \<Rightarrow> time \<Rightarrow> unit script" where
  "credential_script new_id user_id credential now =
     send conflict_if_unique (\<lambda>_. ins_credential
       \<lparr>cr_id = new_id, cr_user_id = user_id, cr_credential_id = vc_credential_id credential,
        cr_public_data = vc_public_data credential, cr_revoked_at = None,
        pk_created_at = now, pk_last_used_at = None\<rparr>)"

definition complete_recoveries_script :: "user_id option \<Rightarrow> time \<Rightarrow> unit script" where
  "complete_recoveries_script subject now =
     then_script (send to_store (\<lambda>snapshot. upd_recoveries_completed (rechecked re_id (db_recoveries snapshot)
       (\<lambda>r. map_option user_str subject = Some (re_user_id r) \<and> re_approved_at r \<noteq> None
          \<and> re_setup_issued_at r \<noteq> None \<and> re_completed_at r = None)) now)) (\<lambda>_. Finish (Inr ()))"

definition registration_script ::
    "uuid \<Rightarrow> uuid \<Rightarrow> secret_hash option \<Rightarrow> verified_credential \<Rightarrow> time \<Rightarrow> audit_event \<Rightarrow> unit script" where
  "registration_script new_id ceremony_id capability_hash credential now audit =
     then_script (Advisory (Finish (Inr ()))) (\<lambda>_ :: unit.
     then_script (consume_ceremony_script ceremony_id now) (\<lambda>(user_id, ceremony_kind).
     then_script (check_bootstrap_script ceremony_kind) (\<lambda>_.
     then_script (consume_capability_script capability_hash now) (\<lambda>_.
     then_script (credential_script new_id user_id credential now) (\<lambda>_.
     then_script (complete_recoveries_script (ae_subject_user_id audit) now) (\<lambda>_.
     audit_script audit now))))))"

definition authentication_script ::
    "uuid \<Rightarrow> authentication_verification \<Rightarrow> session_record \<Rightarrow> time \<Rightarrow> audit_event \<Rightarrow> unit script" where
  "authentication_script ceremony_id verification login now audit =
     then_script (ceremonies_update (\<lambda>c. ce_id c = ceremony_id \<and> ce_kind c = ''authentication''
         \<and> ce_consumed_at c = None \<and> ce_expires_at c > now) now) (\<lambda>consumed.
     if length consumed \<noteq> 1 then Finish (Inl InvalidState)
     else then_script (send to_store (\<lambda>snapshot. upd_credentials_used (rechecked cr_id (db_credentials snapshot)
         (\<lambda>c. cr_user_id c = user_str (sr_user_id login) \<and> cr_credential_id c = av_credential_id verification
            \<and> cr_revoked_at c = None)) (av_updated_public_data verification) now)) (\<lambda>credential.
     if length credential \<noteq> 1 then Finish (Inl Unauthenticated)
     else then_script (send to_store (\<lambda>_. ins_session (session_to_row login now))) (\<lambda>_.
     audit_script audit now)))"

definition invalidate_script :: "string \<Rightarrow> time \<Rightarrow> unit script" where
  "invalidate_script user_id now =
     then_script (epoch_update (\<lambda>u. ur_id u = user_id) now) (\<lambda>_.
     then_script (sessions_update (\<lambda>s. se_user_id s = user_id \<and> se_revoked_at s = None) now) (\<lambda>_.
     then_script (ceremonies_update (\<lambda>c. ce_user_id c = Some user_id \<and> ce_consumed_at c = None) now) (\<lambda>_.
     then_script (capabilities_update (\<lambda>c. ca_user_id c = user_id \<and> ca_consumed_at c = None) now) (\<lambda>_.
     Finish (Inr ())))))"

definition approve_recovery_script :: "uuid \<Rightarrow> user_id \<Rightarrow> time \<Rightarrow> unit script" where
  "approve_recovery_script recovery_id operator_id now =
     then_script (send to_store (\<lambda>snapshot. upd_recoveries_approved (rechecked re_id (db_recoveries snapshot)
         (\<lambda>r. re_id r = recovery_id \<and> re_approved_at r = None \<and> re_completed_at r = None))
         now (user_str operator_id))) (\<lambda>rows.
       case rows of
         [] \<Rightarrow> Finish (Inl Conflict)
       | r # _ \<Rightarrow>
           then_script (invalidate_script (re_user_id r) now) (\<lambda>_.
           then_script (Finish (decode_user_id (re_user_id r))) (\<lambda>subject.
           audit_script
             \<lparr>ae_event_type = ''recovery.approved'', ae_actor_user_id = Some operator_id,
              ae_subject_user_id = Some subject,
              ae_data = JObject [(''recovery_id'', JString (uuid_str recovery_id))]\<rparr> now)))"

definition issue_setup_script :: "time \<Rightarrow> uuid \<Rightarrow> capability \<Rightarrow> user_id \<Rightarrow> time \<Rightarrow> unit script" where
  "issue_setup_script clock recovery_id c operator_id now =
     then_script (send to_store (\<lambda>snapshot. upd_recoveries_issued (rechecked re_id (db_recoveries snapshot)
         (\<lambda>r. re_id r = recovery_id \<and> re_approved_at r \<noteq> None \<and> re_setup_issued_at r = None
            \<and> re_completed_at r = None \<and> re_user_id r = user_str (cp_user_id c))) now)) (\<lambda>issued.
     if length issued \<noteq> 1 then Finish (Inl Conflict)
     else then_script (capability_script c clock) (\<lambda>_.
     audit_script
       \<lparr>ae_event_type = ''recovery.setup_issued'', ae_actor_user_id = Some operator_id,
        ae_subject_user_id = Some (cp_user_id c),
        ae_data = JObject [(''recovery_id'', JString (uuid_str recovery_id))]\<rparr> now))"

definition break_glass_script :: "time \<Rightarrow> uuid \<Rightarrow> capability \<Rightarrow> time \<Rightarrow> string \<Rightarrow> unit script" where
  "break_glass_script clock credential_id c now reason =
     then_script (send to_store (\<lambda>snapshot. upd_credentials_revoked (rechecked cr_id (db_credentials snapshot)
         (\<lambda>k. cr_id k = credential_id
            \<and> list_ex (\<lambda>u. ur_id u = cr_user_id k \<and> ur_role u = ''operator'') (db_users snapshot)
            \<and> cr_revoked_at k = None)) now)) (\<lambda>rows.
       case rows of
         [] \<Rightarrow> Finish (Inl Conflict)
       | k # _ \<Rightarrow>
           if user_str (cp_user_id c) \<noteq> cr_user_id k then Finish (Inl Forbidden)
           else then_script (invalidate_script (cr_user_id k) now) (\<lambda>_.
                then_script (capability_script c clock) (\<lambda>_.
                audit_script
                  \<lparr>ae_event_type = ''operator.break_glass_opened'', ae_actor_user_id = None,
                   ae_subject_user_id = Some (cp_user_id c),
                   ae_data = JObject [(''credential_id'', JString (uuid_str credential_id)),
                                      (''reason'', JString reason)]\<rparr> now)))"

text \<open>\<open>FOR UPDATE OF s\<close>: the condition is checked again on the latest version of the session.\<close>

definition live_session_for_update :: "secret_hash \<Rightarrow> time \<Rightarrow> db \<Rightarrow> db \<Rightarrow> (auth_session \<times> human_user) option" where
  "live_session_for_update hash now snapshot d =
     limit_1 [(s, u). s \<leftarrow> db_sessions d, u \<leftarrow> db_users snapshot,
       rechecked se_id (db_sessions snapshot) (\<lambda>s. se_token_hash s = as_bytes hash \<and> session_live now s u) s]"

definition touch_script ::
    "secret_hash \<Rightarrow> secret_hash option \<Rightarrow> time \<Rightarrow> time \<Rightarrow> (auth_session \<times> human_user) option script" where
  "touch_script hash csrf_hash now idle_expires_at =
     then_script (send to_store (\<lambda>snapshot. select (live_session_for_update hash now snapshot))) (\<lambda>row.
       case row of
         None \<Rightarrow> Finish (Inr None)
       | Some (s, u) \<Rightarrow>
           then_script (send to_store (\<lambda>_. upd_session_seen (se_id s) (map_option as_bytes csrf_hash)
             (min idle_expires_at (se_absolute_expires_at s)) now)) (\<lambda>_.
           Finish (Inr (Some (s, u)))))"

text \<open>The functions that send one statement, which is a transaction of its own.\<close>

definition insert_capability_script :: "time \<Rightarrow> capability \<Rightarrow> unit script" where
  "insert_capability_script clock c = capability_script c clock"

definition insert_ceremony_script :: "time \<Rightarrow> ceremony \<Rightarrow> unit script" where
  "insert_ceremony_script clock c = send to_store (\<lambda>_. ins_ceremony (ceremony_to_row c clock))"

definition delete_session_script :: "time \<Rightarrow> secret_hash \<Rightarrow> unit script" where
  "delete_session_script clock hash =
     then_script (sessions_update (\<lambda>s. se_token_hash s = as_bytes hash \<and> se_revoked_at s = None) clock)
       (\<lambda>_. Finish (Inr ()))"

definition create_recovery_script :: "uuid \<Rightarrow> user_id \<Rightarrow> time \<Rightarrow> recovery_request script" where
  "create_recovery_script new_id user_id now =
     then_script (send conflict_if_unique (\<lambda>_. ins_recovery
         \<lparr>re_id = new_id, re_user_id = user_str user_id, re_requested_at = now, re_approved_at = None,
          re_approved_by = None, re_setup_issued_at = None, re_completed_at = None\<rparr>)) (\<lambda>_.
     Finish (Inr \<lparr>rq_id = new_id, rq_user_id = user_id, rq_requested_at = now, rq_approved_at = None\<rparr>))"

section \<open>A script run alone\<close>

inductive alone :: "'a script \<Rightarrow> db \<Rightarrow> auth_error + 'a \<Rightarrow> db \<Rightarrow> bool" where
  alone_finish: "alone (Finish r) d r d"
| alone_stmt: "st d d = (k, d') \<Longrightarrow> alone k d' r d'' \<Longrightarrow> alone (Stmt st) d r d''"
| alone_advisory: "alone k d r d' \<Longrightarrow> alone (Advisory k) d r d'"

inductive_simps alone_simps [simp]: "alone (Finish r) d q d'" "alone (Stmt st) d q d'" "alone (Advisory k) d q d'"

lemma alone_then_ok:
  fixes scr :: "'a script"
  assumes "alone scr d (Inr x) d1" and "alone (f x) d1 r d2"
  shows "alone (then_script scr f) d r d2"
  using assms by (induction scr d "Inr x :: auth_error + 'a" d1 rule: alone.induct) auto

lemma alone_then_error:
  fixes scr :: "'a script"
  assumes "alone scr d (Inl e) d1"
  shows "alone (then_script scr f) d (Inl e) d1"
  using assms by (induction scr d "Inl e :: auth_error + 'a" d1 rule: alone.induct) auto

text \<open>
  With every round trip served, the body of a transaction and its script do the same; \<open>clock\<close> and
  \<open>int4\<close> are what the body sees of the server's clock and of the driver.
\<close>

definition served :: "time \<Rightarrow> bool \<Rightarrow> pg \<Rightarrow> bool" where
  "served clock int4 s \<longleftrightarrow> pg_net s = [] \<and> pg_clock s = clock \<and> pg_int4_as_i64 s = int4"

lemma served_db [simp]: "served clock int4 (s\<lparr>pg_db := d\<rparr>) = served clock int4 s"
  by (simp add: served_def)

definition performs :: "time \<Rightarrow> bool \<Rightarrow> 'a script \<Rightarrow> 'a pg_op \<Rightarrow> bool" where
  "performs clock int4 scr m \<longleftrightarrow> (\<forall>s. served clock int4 s \<longrightarrow>
     (\<exists>r d. m s = (r, s\<lparr>pg_db := d\<rparr>) \<and> alone scr (pg_db s) r d))"

lemma performsI:
  assumes "\<And>s. served clock int4 s \<Longrightarrow> \<exists>r d. m s = (r, s\<lparr>pg_db := d\<rparr>) \<and> alone scr (pg_db s) r d"
  shows "performs clock int4 scr m"
  using assms by (simp add: performs_def)

lemma performsE:
  assumes "performs clock int4 scr m" and "served clock int4 s"
  obtains r d where "m s = (r, s\<lparr>pg_db := d\<rparr>)" and "alone scr (pg_db s) r d"
  using assms by (auto simp: performs_def)

lemma performs_bind:
  assumes "performs clock int4 scr m" and "\<And>x. performs clock int4 (f x) (g x)"
  shows "performs clock int4 (then_script scr f) (op_bind m g)"
proof (rule performsI)
  fix s assume served: "served clock int4 s"
  obtain r d where m: "m s = (r, s\<lparr>pg_db := d\<rparr>)" and scr: "alone scr (pg_db s) r d"
    using assms(1) served by (rule performsE)
  show "\<exists>r d. op_bind m g s = (r, s\<lparr>pg_db := d\<rparr>) \<and> alone (then_script scr f) (pg_db s) r d"
  proof (cases r)
    case (Inl e)
    with m scr alone_then_error show ?thesis by (fastforce simp: op_bind_def)
  next
    case (Inr x)
    have "served clock int4 (s\<lparr>pg_db := d\<rparr>)" using served by simp
    with assms(2) obtain q e where "g x (s\<lparr>pg_db := d\<rparr>) = (q, s\<lparr>pg_db := d\<rparr>\<lparr>pg_db := e\<rparr>)"
      and "alone (f x) (pg_db (s\<lparr>pg_db := d\<rparr>)) q e" by (rule performsE)
    with Inr m alone_then_ok [OF scr [unfolded Inr], of f q e] show ?thesis by (auto simp: op_bind_def)
  qed
qed

lemma performs_finish:
  "performs clock int4 (Finish (Inr x)) (op_return x)"
  "performs clock int4 (Finish (Inl e)) (op_fail e)"
  "performs clock int4 (Finish r) (op_lift r)"
  by (auto simp: performs_def op_defs)

lemma performs_cases:
  "(c \<Longrightarrow> performs clock int4 a m) \<Longrightarrow> (\<not> c \<Longrightarrow> performs clock int4 b n) \<Longrightarrow>
     performs clock int4 (if c then a else b) (if c then m else n)"
  "performs clock int4 a m \<Longrightarrow> (\<And>x. performs clock int4 (f x) (g x)) \<Longrightarrow>
     performs clock int4 (case oo of None \<Rightarrow> a | Some x \<Rightarrow> f x) (case oo of None \<Rightarrow> m | Some x \<Rightarrow> g x)"
  "performs clock int4 a m \<Longrightarrow> (\<And>x xs. performs clock int4 (p x xs) (q x xs)) \<Longrightarrow>
     performs clock int4 (case rs of [] \<Rightarrow> a | x # xs \<Rightarrow> p x xs) (case rs of [] \<Rightarrow> m | x # xs \<Rightarrow> q x xs)"
  "(\<And>x y. performs clock int4 (v x y) (w x y)) \<Longrightarrow>
     performs clock int4 (case xy of (x, y) \<Rightarrow> v x y) (case xy of (x, y) \<Rightarrow> w x y)"
  by (auto split: option.split list.split prod.split)

lemma performs_send:
  assumes "\<And>d. st d d = st' d"
  shows "performs clock int4 (send err st) (op_map_err err (exec_tx st'))"
    and "performs clock int4 (send err st) (op_map_err err (exec_pool st'))"
  using assms
  by (intro performsI; auto simp: served_def send_def op_defs exec_tx_def exec_pool_def round_trip_def run_stmt_def
      split: sum.splits)+

lemma performs_void: "performs clock int4 scr m \<Longrightarrow> performs clock int4 (then_script scr (\<lambda>_. Finish (Inr ()))) (op_void m)"
proof -
  have "op_void m = op_bind m (\<lambda>_. op_return ())"
    by (auto simp: op_defs map_ok_def fun_eq_iff split: prod.splits sum.splits)
  then show "performs clock int4 scr m \<Longrightarrow> ?thesis" by (simp add: performs_bind performs_finish)
qed

lemma performs_clock: "performs clock int4 scr (g clock) \<Longrightarrow> performs clock int4 scr (op_bind db_now g)"
  by (auto simp: performs_def op_bind_def db_now_def served_def)

lemma performs_returning:
  "performs clock int4 scr (g (length rows)) \<Longrightarrow>
     performs clock int4 (if rows \<noteq> [] \<and> \<not> int4 then Finish (Inl Store) else scr)
       (op_bind (decode_returning_1 rows) g)"
  by (auto simp: performs_def op_bind_def decode_returning_1_def served_def)

lemma rechecked_same:
  "filter (rechecked key xs P) xs = filter P xs"
  "update_where (rechecked key xs P) f xs = update_where P f xs"
  "list_ex (rechecked key xs P) xs = list_ex P xs"
  by (auto simp: rechecked_def update_where_def list_ex_iff intro!: filter_cong)

lemma updates_same:
  "upd_users_epoch (rechecked ur_id (db_users d) A) now d = upd_users_epoch A now d"
  "upd_sessions_revoked (rechecked se_id (db_sessions d) B) now d = upd_sessions_revoked B now d"
  "upd_ceremonies_consumed (rechecked ce_id (db_ceremonies d) C) now d = upd_ceremonies_consumed C now d"
  "upd_capabilities_consumed (rechecked ca_id (db_capabilities d) D) now d = upd_capabilities_consumed D now d"
  "upd_credentials_used (rechecked cr_id (db_credentials d) E) data now d = upd_credentials_used E data now d"
  "upd_credentials_revoked (rechecked cr_id (db_credentials d) E) now d = upd_credentials_revoked E now d"
  "upd_recoveries_approved (rechecked re_id (db_recoveries d) F) now by' d = upd_recoveries_approved F now by' d"
  "upd_recoveries_issued (rechecked re_id (db_recoveries d) F) now d = upd_recoveries_issued F now d"
  "upd_recoveries_completed (rechecked re_id (db_recoveries d) F) now d = upd_recoveries_completed F now d"
  by (simp_all add: upd_users_epoch_def upd_sessions_revoked_def upd_ceremonies_consumed_def
      upd_capabilities_consumed_def upd_credentials_used_def upd_credentials_revoked_def
      upd_recoveries_approved_def upd_recoveries_issued_def upd_recoveries_completed_def rechecked_same Let_def)

lemma live_session_same: "live_session_for_update hash now d d = live_session hash now d"
  unfolding live_session_for_update_def live_session_def
  by (intro arg_cong [where f = limit_1] arg_cong [where f = concat] map_cong refl)
    (auto simp: rechecked_def list_ex_iff)

lemma performs_store:
  assumes "\<And>d. st d d = st' d"
  shows "performs clock int4 (send to_store st) (store_err (exec_tx st'))"
    and "performs clock int4 (send to_store st) (store_err (exec_pool st'))"
  unfolding store_err_def by (rule performs_send, rule assms)+

lemmas performs_intros = performs_bind performs_finish performs_cases performs_void performs_clock performs_returning
  performs_store

section \<open>The functions of the store\<close>

lemmas update_scripts = epoch_update_def sessions_update_def ceremonies_update_def capabilities_update_def

lemma performs_updates:
  "performs clock int4 (epoch_update A now) (store_err (exec_tx (upd_users_epoch A now)))"
  "performs clock int4 (sessions_update B now) (store_err (exec_tx (upd_sessions_revoked B now)))"
  "performs clock int4 (ceremonies_update C now) (store_err (exec_tx (upd_ceremonies_consumed C now)))"
  "performs clock int4 (capabilities_update D now) (store_err (exec_tx (upd_capabilities_consumed D now)))"
  unfolding update_scripts by (rule performs_intros, rule updates_same)+

lemma performs_parts:
  "performs clock int4 (audit_script event now) (insert_audit event now)"
  "performs clock int4 (capability_script c clock) (insert_capability_tx c)"
  "performs clock int4 (user_script u now) (insert_user_tx u now)"
  "performs clock int4 (consume_ceremony_script i now) (consume_ceremony i now)"
  "performs clock int4 (check_bootstrap_script kind) (check_bootstrap kind)"
  "performs clock int4 (consume_capability_script oh now) (consume_capability oh now)"
  "performs clock int4 (credential_script new_id owner credential now) (insert_credential new_id owner credential now)"
  "performs clock int4 (complete_recoveries_script subject now) (complete_recoveries subject now)"
  "performs clock int4 (invalidate_script owner now) (invalidate_user_auth owner now)"
proof -
  show "performs clock int4 (audit_script event now) (insert_audit event now)"
    and "performs clock int4 (capability_script c clock) (insert_capability_tx c)"
    and "performs clock int4 (user_script u now) (insert_user_tx u now)"
    and "performs clock int4 (credential_script new_id owner credential now) (insert_credential new_id owner credential now)"
    unfolding audit_script_def insert_audit_def capability_script_def insert_capability_tx_def user_script_def
      insert_user_tx_def credential_script_def insert_credential_def
    by (intro performs_clock performs_store performs_send refl)+
  show "performs clock int4 (consume_ceremony_script i now) (consume_ceremony i now)"
    and "performs clock int4 (consume_capability_script oh now) (consume_capability oh now)"
    and "performs clock int4 (invalidate_script owner now) (invalidate_user_auth owner now)"
    unfolding consume_ceremony_script_def consume_ceremony_def consume_capability_script_def consume_capability_def
      invalidate_script_def invalidate_user_auth_def
    by (intro performs_bind performs_finish performs_cases performs_updates performs_void)+
  show "performs clock int4 (check_bootstrap_script kind) (check_bootstrap kind)"
    unfolding check_bootstrap_script_def check_bootstrap_def
    by (intro performs_bind performs_finish performs_cases performs_store) (simp add: select_def)
  show "performs clock int4 (complete_recoveries_script subject now) (complete_recoveries subject now)"
    unfolding complete_recoveries_script_def complete_recoveries_def
    by (intro performs_void performs_store updates_same)
qed

text \<open>A transaction commits what its script has done, or nothing.\<close>

definition transacts :: "time \<Rightarrow> bool \<Rightarrow> 'a script \<Rightarrow> 'a pg_op \<Rightarrow> bool" where
  "transacts clock int4 scr f \<longleftrightarrow> (\<forall>s. served clock int4 s \<longrightarrow>
     (\<exists>r d. alone scr (pg_db s) r d \<and> f s = (r, s\<lparr>pg_db := if is_ok r then d else pg_db s\<rparr>)))"

lemma transacts_transaction:
  assumes "performs clock int4 scr m"
  shows "transacts clock int4 scr (transaction m)"
  unfolding transacts_def
proof (intro allI impI)
  fix s assume served: "served clock int4 s"
  with assms obtain r d where m: "m s = (r, s\<lparr>pg_db := d\<rparr>)" and scr: "alone scr (pg_db s) r d" by (rule performsE)
  have "round_trip s = (Served, s)" and "round_trip (s\<lparr>pg_db := d\<rparr>) = (Served, s\<lparr>pg_db := d\<rparr>)"
    using served by (simp_all add: served_def round_trip_def)
  with m have "transaction m s = (r, s\<lparr>pg_db := if is_ok r then d else pg_db s\<rparr>)"
    by (cases r) (simp_all add: transaction_def)
  with scr show "\<exists>r d. alone scr (pg_db s) r d \<and> transaction m s = (r, s\<lparr>pg_db := if is_ok r then d else pg_db s\<rparr>)"
    by blast
qed

text \<open>One statement outside a transaction: it changes nothing when it fails.\<close>

lemma transacts_single:
  assumes "performs clock int4 scr f" and "\<And>d e d'. alone scr d (Inl e) d' \<Longrightarrow> d' = d"
  shows "transacts clock int4 scr f"
  unfolding transacts_def
proof (intro allI impI)
  fix s assume "served clock int4 s"
  with assms(1) obtain r d where m: "f s = (r, s\<lparr>pg_db := d\<rparr>)" and scr: "alone scr (pg_db s) r d" by (rule performsE)
  have "d = pg_db s" if "\<not> is_ok r" using that scr assms(2) by (cases r) auto
  with m scr show "\<exists>r d. alone scr (pg_db s) r d \<and> f s = (r, s\<lparr>pg_db := if is_ok r then d else pg_db s\<rparr>)"
    by (metis (full_types))
qed

lemma send_fails_clean: "alone (send err st) d (Inl e) d' \<Longrightarrow> d' = d"
  by (auto simp: send_def split: sum.splits)

lemma send_then_fails_clean: "alone (then_script (send err st) (\<lambda>x. Finish (Inr (f x)))) d (Inl e) d' \<Longrightarrow> d' = d"
  by (auto simp: send_def split: sum.splits)

lemma performs_advisory:
  "performs clock int4 (Advisory (Finish (Inr ()))) (store_err (exec_tx (select (\<lambda>_. ()))))"
  by (auto simp: performs_def served_def store_err_def op_defs exec_tx_def round_trip_def run_stmt_def select_def)

lemma transacts_store:
  "transacts clock int4 (insert_user_script u now audit) (insert_user u now audit)
   \<and> transacts clock int4 (approve_user_script clock u c i now) (approve_user_with_setup u c i now)
   \<and> transacts clock int4 (rotate_script int4 now reason) (rotate_all_auth_epochs now reason)
   \<and> transacts clock int4 (registration_script new_id w oh credential now audit)
       (complete_registration new_id w oh credential now audit)
   \<and> transacts clock int4 (authentication_script w verification login now audit)
       (complete_authentication w verification login now audit)
   \<and> transacts clock int4 (touch_script hash csrf now idle) (touch_session hash csrf now idle)
   \<and> transacts clock int4 (approve_recovery_script w i now) (approve_recovery w i now)
   \<and> transacts clock int4 (issue_setup_script clock w c i now) (issue_recovery_setup w c i now)
   \<and> transacts clock int4 (break_glass_script clock w c now reason) (break_glass w c now reason)
   \<and> transacts clock int4 (insert_capability_script clock c) (insert_capability c)
   \<and> transacts clock int4 (insert_ceremony_script clock e) (insert_ceremony e)
   \<and> transacts clock int4 (delete_session_script clock hash) (delete_session hash)
   \<and> transacts clock int4 (create_recovery_script w i now) (create_recovery w i now)"
proof (intro conjI)
  show "transacts clock int4 (insert_user_script u now audit) (insert_user u now audit)"
    and "transacts clock int4 (approve_user_script clock u c i now) (approve_user_with_setup u c i now)"
    unfolding insert_user_script_def insert_user_def approve_user_script_def approve_user_with_setup_def
    by (intro transacts_transaction performs_bind performs_parts)+
  show "transacts clock int4 (rotate_script int4 now reason) (rotate_all_auth_epochs now reason)"
    unfolding rotate_script_def rotate_all_auth_epochs_def
    by (intro transacts_transaction performs_bind performs_returning performs_parts performs_updates performs_finish)
  show "transacts clock int4 (registration_script new_id w oh credential now audit)
      (complete_registration new_id w oh credential now audit)"
    unfolding registration_script_def complete_registration_def
    by (intro transacts_transaction performs_bind performs_advisory performs_cases performs_parts)
  show "transacts clock int4 (authentication_script w verification login now audit)
      (complete_authentication w verification login now audit)"
    unfolding authentication_script_def complete_authentication_def
    by (intro transacts_transaction performs_bind performs_cases performs_finish performs_updates performs_parts
        performs_store updates_same refl)
  show "transacts clock int4 (touch_script hash csrf now idle) (touch_session hash csrf now idle)"
    unfolding touch_script_def touch_session_def
    by (intro transacts_transaction performs_bind performs_cases performs_finish performs_store refl)
      (simp add: select_def live_session_same)
  show "transacts clock int4 (approve_recovery_script w i now) (approve_recovery w i now)"
    unfolding approve_recovery_script_def approve_recovery_def
    by (intro transacts_transaction performs_bind performs_cases performs_finish performs_parts performs_store updates_same)
  show "transacts clock int4 (issue_setup_script clock w c i now) (issue_recovery_setup w c i now)"
    unfolding issue_setup_script_def issue_recovery_setup_def
    by (intro transacts_transaction performs_bind performs_cases performs_finish performs_parts performs_store updates_same)
  show "transacts clock int4 (break_glass_script clock w c now reason) (break_glass w c now reason)"
    unfolding break_glass_script_def break_glass_def
    by (intro transacts_transaction performs_bind performs_cases performs_finish performs_parts performs_store updates_same)
  show "transacts clock int4 (insert_capability_script clock c) (insert_capability c)"
    and "transacts clock int4 (insert_ceremony_script clock e) (insert_ceremony e)"
    unfolding insert_capability_script_def capability_script_def insert_capability_def insert_ceremony_script_def
      insert_ceremony_def
    by (intro transacts_single performs_clock performs_store refl; erule send_fails_clean)+
  show "transacts clock int4 (delete_session_script clock hash) (delete_session hash)"
    unfolding delete_session_script_def delete_session_def sessions_update_def
    by (intro transacts_single performs_clock performs_void performs_store updates_same)
      (erule send_then_fails_clean)
  show "transacts clock int4 (create_recovery_script w i now) (create_recovery w i now)"
    unfolding create_recovery_script_def create_recovery_def
    by (intro transacts_single performs_bind performs_send performs_finish refl) (erule send_then_fails_clean)
qed

end
