(* ===== verification/Pg_Script_Relations.thy ===== *)
theory Pg_Script_Relations
  imports Pg_Scripts Pg_Invariants
begin

text \<open>
  What holds of every statement of the store holds of every statement of its scripts: the locale
  \<open>store_relation\<close>, whose laws speak of statements, carries over from the functions of the store to
  their scripts, whatever database a statement finds when it runs.
\<close>

section \<open>The transactions of the store\<close>

text \<open>The scripts with the arguments the types admit, their values forgotten.\<close>

definition void_script :: "'a script \<Rightarrow> unit script" where
  "void_script scr = then_script scr (\<lambda>_. Finish (Inr ()))"

inductive store_script :: "unit script \<Rightarrow> bool" where
  script_insert_user: "user_ok u \<Longrightarrow> store_script (insert_user_script u now audit)"
| script_approve_user: "user_ok u \<Longrightarrow> store_script (approve_user_script clock u c i now)"
| script_rotate: "store_script (void_script (rotate_script int4 now reason))"
| script_registration: "store_script (registration_script new_id w oh credential now audit)"
| script_authentication: "store_script (authentication_script w verification login now audit)"
| script_touch: "store_script (void_script (touch_script hash csrf now idle))"
| script_approve_recovery: "store_script (approve_recovery_script w i now)"
| script_issue_setup: "store_script (issue_setup_script clock w c i now)"
| script_break_glass: "store_script (break_glass_script clock w c now reason)"
| script_insert_capability: "store_script (insert_capability_script clock c)"
| script_insert_ceremony: "store_script (insert_ceremony_script clock e)"
| script_delete_session: "store_script (delete_session_script clock hash)"
| script_create_recovery: "store_script (void_script (create_recovery_script w i now))"

section \<open>Relations that every statement of a script respects\<close>

inductive script_rel :: "(db \<Rightarrow> db \<Rightarrow> bool) \<Rightarrow> 'a script \<Rightarrow> bool" for R where
  rel_finish: "script_rel R (Finish r)"
| rel_advisory: "script_rel R k \<Longrightarrow> script_rel R (Advisory k)"
| rel_stmt: "(\<And>snapshot d k d'. st snapshot d = (k, d') \<Longrightarrow> script_rel R k \<and> R d d') \<Longrightarrow> script_rel R (Stmt st)"

inductive_cases rel_StmtE: "script_rel R (Stmt st)"
inductive_cases rel_AdvisoryE: "script_rel R (Advisory k)"

lemma script_rel_then:
  assumes "script_rel R scr" and "\<And>x. script_rel R (f x)"
  shows "script_rel R (then_script scr f)"
  using assms(1)
proof (induction rule: script_rel.induct)
  case (rel_finish r)
  show ?case by (cases r) (simp_all add: assms(2) script_rel.rel_finish)
next
  case (rel_advisory k)
  then show ?case by (simp add: script_rel.rel_advisory)
next
  case (rel_stmt st)
  show ?case unfolding then_script.simps
  proof (rule script_rel.rel_stmt)
    fix snapshot d k d'
    assume step: "map_prod (\<lambda>k. then_script k f) id (st snapshot d) = (k, d')"
    obtain k0 where k0: "st snapshot d = (k0, d')" "k = then_script k0 f"
      using step by (cases "st snapshot d") simp
    from rel_stmt.IH [OF k0(1)] k0(2) show "script_rel R k \<and> R d d'" by simp
  qed
qed

lemma script_rel_cases:
  "script_rel R a \<Longrightarrow> script_rel R b \<Longrightarrow> script_rel R (if c then a else b)"
  "script_rel R a \<Longrightarrow> (\<And>x. script_rel R (f x)) \<Longrightarrow> script_rel R (case oo of None \<Rightarrow> a | Some x \<Rightarrow> f x)"
  "script_rel R a \<Longrightarrow> (\<And>x xs. script_rel R (p x xs)) \<Longrightarrow> script_rel R (case rs of [] \<Rightarrow> a | x # xs \<Rightarrow> p x xs)"
  "(\<And>x y. script_rel R (v x y)) \<Longrightarrow> script_rel R (case xy of (x, y) \<Rightarrow> v x y)"
  by (auto split: option.split list.split prod.split)

lemma script_rel_mono:
  assumes "script_rel R scr" and "\<And>d d'. R d d' \<Longrightarrow> Q d d'"
  shows "script_rel Q scr"
  using assms(1)
proof (induction rule: script_rel.induct)
  case (rel_stmt st)
  show ?case by (rule script_rel.rel_stmt) (use rel_stmt.IH assms(2) in blast)
qed (blast intro: script_rel.intros)+

lemma script_rel_conj:
  assumes "script_rel R scr" and "script_rel Q scr"
  shows "script_rel (\<lambda>d d'. R d d' \<and> Q d d') scr"
  using assms
proof (induction rule: script_rel.induct)
  case (rel_stmt st)
  show ?case
  proof (rule script_rel.rel_stmt)
    fix snapshot d k d' assume step: "st snapshot d = (k, d')"
    have "script_rel Q k \<and> Q d d'" using rel_stmt.prems by (rule rel_StmtE) (use step in blast)
    with rel_stmt.IH [OF step] show "script_rel (\<lambda>d d'. R d d' \<and> Q d d') k \<and> R d d' \<and> Q d d'" by blast
  qed
qed (blast intro: script_rel.intros elim: rel_AdvisoryE)+

text \<open>A relation on the state of the store, seen on its database.\<close>

definition db_rel :: "(pg \<Rightarrow> pg \<Rightarrow> bool) \<Rightarrow> db \<Rightarrow> db \<Rightarrow> bool" where
  "db_rel R d d' \<longleftrightarrow> (\<forall>s. pg_db s = d \<longrightarrow> R s (s\<lparr>pg_db := d'\<rparr>))"

lemma db_relD:
  "db_rel R d d' \<Longrightarrow> R \<lparr>pg_db = d, pg_clock = clock, pg_net = net, pg_int4_as_i64 = drv\<rparr>
     \<lparr>pg_db = d', pg_clock = clock, pg_net = net, pg_int4_as_i64 = drv\<rparr>"
  unfolding db_rel_def by (drule spec [of _ "\<lparr>pg_db = d, pg_clock = clock, pg_net = net, pg_int4_as_i64 = drv\<rparr>"]) simp

context store_relation begin

lemma db_refl: "db_rel R d d"
  using refl by (auto simp: db_rel_def)

lemma send_rel:
  assumes "\<And>snapshot d x d'. st snapshot d = Inr (x, d') \<Longrightarrow> db_rel R d d'"
  shows "script_rel (db_rel R) (send err st)"
  unfolding send_def
proof (rule rel_stmt)
  fix snapshot d k d'
  assume "(case st snapshot d of Inl e \<Rightarrow> (Finish (Inl (err e)), d) | Inr (x, d') \<Rightarrow> (Finish (Inr x), d')) = (k, d')"
  then show "script_rel (db_rel R) k \<and> db_rel R d d'"
    using assms db_refl by (auto intro: rel_finish split: sum.splits)
qed

lemma db_laws:
  "ins_credential k d = Inr (x, d') \<Longrightarrow> db_rel R d d'"
  "ins_capability c d = Inr (x, d') \<Longrightarrow> db_rel R d d'"
  "ins_ceremony e d = Inr (x, d') \<Longrightarrow> db_rel R d d'"
  "ins_session n d = Inr (x, d') \<Longrightarrow> db_rel R d d'"
  "ins_audit a d = Inr (x, d') \<Longrightarrow> db_rel R d d'"
  "upd_users_epoch P1 now d = Inr (y1, d') \<Longrightarrow> db_rel R d d'"
  "upd_credentials_used P2 data now d = Inr (y2, d') \<Longrightarrow> db_rel R d d'"
  "upd_session_seen sid csrf idle now d = Inr (y5, d') \<Longrightarrow> db_rel R d d'"
  unfolding db_rel_def by (auto dest: ins_rels)

lemma send_stmts:
  "script_rel (db_rel R) (send err (\<lambda>_. ins_credential k))"
  "script_rel (db_rel R) (send err (\<lambda>_. ins_capability c))"
  "script_rel (db_rel R) (send err (\<lambda>_. ins_ceremony e))"
  "script_rel (db_rel R) (send err (\<lambda>_. ins_session n))"
  "script_rel (db_rel R) (send err (\<lambda>_. ins_audit a))"
  "script_rel (db_rel R) (send err (\<lambda>snapshot. upd_users_epoch (A snapshot) now))"
  "script_rel (db_rel R) (send err (\<lambda>snapshot. upd_credentials_used (B snapshot) data now))"
  "script_rel (db_rel R) (send err (\<lambda>_. upd_session_seen sid csrf idle now))"
  by (rule send_rel, erule db_laws)+

lemma send_select: "script_rel (db_rel R) (send err (\<lambda>snapshot. select (f snapshot)))"
  by (rule send_rel) (auto simp: select_def db_refl)

lemma send_user: "user_row_ok r \<Longrightarrow> script_rel (db_rel R) (send err (\<lambda>_. ins_user r))"
  by (rule send_rel) (auto simp: db_rel_def dest: ins_user_rel)

lemma send_recovery: "recovery_row_new q \<Longrightarrow> script_rel (db_rel R) (send err (\<lambda>_. ins_recovery q))"
  by (rule send_rel) (auto simp: db_rel_def dest: ins_recovery_rel)

lemma send_updates:
  "(\<And>d k. B d k \<Longrightarrow> cr_revoked_at k = None) \<Longrightarrow> script_rel (db_rel R) (send err (\<lambda>d. upd_credentials_revoked (B d) now))"
  "(\<And>d c. C d c \<Longrightarrow> ca_consumed_at c = None) \<Longrightarrow> script_rel (db_rel R) (send err (\<lambda>d. upd_capabilities_consumed (C d) now))"
  "(\<And>d e. D d e \<Longrightarrow> ce_consumed_at e = None) \<Longrightarrow> script_rel (db_rel R) (send err (\<lambda>d. upd_ceremonies_consumed (D d) now))"
  "(\<And>d n. E d n \<Longrightarrow> se_revoked_at n = None) \<Longrightarrow> script_rel (db_rel R) (send err (\<lambda>d. upd_sessions_revoked (E d) now))"
  "(\<And>d q. F d q \<Longrightarrow> recovery_pending q) \<Longrightarrow> script_rel (db_rel R) (send err (\<lambda>d. upd_recoveries_approved (F d) now operator))"
  "(\<And>d q. F d q \<Longrightarrow> re_approved_at q \<noteq> None \<and> re_setup_issued_at q = None) \<Longrightarrow>
     script_rel (db_rel R) (send err (\<lambda>d. upd_recoveries_issued (F d) now))"
  "(\<And>d q. F d q \<Longrightarrow> re_approved_at q \<noteq> None \<and> re_completed_at q = None) \<Longrightarrow>
     script_rel (db_rel R) (send err (\<lambda>d. upd_recoveries_completed (F d) now))"
  by (rule send_rel; auto simp: db_rel_def dest: revoked_rel capabilities_rel ceremonies_rel sessions_rel
      approved_rel issued_rel completed_rel)+

lemma update_script_rels:
  "script_rel (db_rel R) (epoch_update A now)"
  "(\<And>s. B s \<Longrightarrow> se_revoked_at s = None) \<Longrightarrow> script_rel (db_rel R) (sessions_update B now)"
  "(\<And>e. C e \<Longrightarrow> ce_consumed_at e = None) \<Longrightarrow> script_rel (db_rel R) (ceremonies_update C now)"
  "(\<And>c. D c \<Longrightarrow> ca_consumed_at c = None) \<Longrightarrow> script_rel (db_rel R) (capabilities_update D now)"
  unfolding update_scripts by (intro send_stmts send_updates; simp add: rechecked_def)+

lemmas script_intros = script_rel_then script_rel_cases send_stmts send_select send_user send_recovery send_updates
  update_script_rels rel_finish rel_advisory

lemma user_script_rel: "user_ok u \<Longrightarrow> script_rel (db_rel R) (user_script u now)"
  unfolding user_script_def by (intro send_user user_to_row_ok)

lemma part_script_rels:
  "script_rel (db_rel R) (audit_script event now)" "script_rel (db_rel R) (capability_script c clock)"
  "script_rel (db_rel R) (consume_ceremony_script w now)"
  "script_rel (db_rel R) (check_bootstrap_script kind)" "script_rel (db_rel R) (consume_capability_script oh now)"
  "script_rel (db_rel R) (credential_script new_id owner credential now)"
  "script_rel (db_rel R) (complete_recoveries_script subject now)" "script_rel (db_rel R) (invalidate_script owner now)"
  unfolding audit_script_def capability_script_def consume_ceremony_script_def
    check_bootstrap_script_def consume_capability_script_def credential_script_def
    complete_recoveries_script_def invalidate_script_def
  by (intro script_intros; simp add: rechecked_def)+

lemma store_script_rel: "store_script scr \<Longrightarrow> script_rel (db_rel R) scr"
proof (induction rule: store_script.induct)
qed (unfold insert_user_script_def approve_user_script_def rotate_script_def registration_script_def
    authentication_script_def touch_script_def approve_recovery_script_def issue_setup_script_def
    break_glass_script_def insert_capability_script_def insert_ceremony_script_def delete_session_script_def
    create_recovery_script_def void_script_def,
    (intro user_script_rel part_script_rels script_intros;
      simp add: rechecked_def recovery_row_new_def recovery_pending_def)+)

end

section \<open>History and schema\<close>

text \<open>A statement moves the database it finds forward, and keeps it well formed.\<close>

definition moves :: "db \<Rightarrow> db \<Rightarrow> bool" where
  "moves d d' \<longleftrightarrow> db_evolves d d' \<and> (db_wf d \<longrightarrow> db_wf d')"

lemma store_script_moves:
  assumes "store_script scr"
  shows "script_rel moves scr"
  using script_rel_conj [OF history.store_script_rel [OF assms] wf.store_script_rel [OF assms]]
  by (rule script_rel_mono)
    (auto simp: moves_def keeps_history_def keeps_wf_def dest!: db_relD [where clock = 0 and net = "[]" and drv = True])

end
