(* ===== verification/Pg_Concurrent.thy ===== *)
theory Pg_Concurrent
  imports Pg_Script_Relations
begin

text \<open>
  Transactions that run at the same time, at \<open>READ COMMITTED\<close>.

  A transaction sees the committed database with its own rows in place of the committed ones
  (\<open>overlay\<close>).  A statement takes its snapshot in one step and writes in a later one, when no other
  transaction has written or inserted, and not yet committed, a row it writes or inserts: row locks are
  held to the end.  Commit puts the transaction's rows into the database; an abort, which can come at any
  time, drops them.

  An insert waits as well when another transaction holds a row with the same value of a unique column;
  when the other one aborts it goes on, and when the other one commits it fails and can only abort.
  Where the model leaves a wait out (rows that are locked but not changed, foreign keys), it has more
  interleavings than PostgreSQL, and what holds of all of them holds of PostgreSQL's.
\<close>

section \<open>The view of a transaction\<close>

definition pick :: "('r \<Rightarrow> 'k) \<Rightarrow> 'r list \<Rightarrow> 'r \<Rightarrow> 'r" where
  "pick key own r = (case List.find (\<lambda>w. key w = key r) own of None \<Rightarrow> r | Some w \<Rightarrow> w)"

definition overlay_rows :: "('r \<Rightarrow> 'k) \<Rightarrow> 'r list \<Rightarrow> 'r list \<Rightarrow> 'r list" where
  "overlay_rows key own rows = map (pick key own) rows @ filter (\<lambda>w. key w \<notin> key ` set rows) own"

definition overlay :: "db \<Rightarrow> db \<Rightarrow> db" where
  "overlay own d =
     \<lparr>db_users = overlay_rows ur_id (db_users own) (db_users d),
      db_credentials = overlay_rows cr_id (db_credentials own) (db_credentials d),
      db_capabilities = overlay_rows ca_id (db_capabilities own) (db_capabilities d),
      db_ceremonies = overlay_rows ce_id (db_ceremonies own) (db_ceremonies d),
      db_sessions = overlay_rows se_id (db_sessions own) (db_sessions d),
      db_recoveries = overlay_rows re_id (db_recoveries own) (db_recoveries d),
      db_audit = db_audit d @ db_audit own\<rparr>"

text \<open>The rows of \<open>d'\<close> that are not those of \<open>d\<close>.\<close>

definition written_rows :: "'r list \<Rightarrow> 'r list \<Rightarrow> 'r list" where
  "written_rows rows rows' = filter (\<lambda>r. r \<notin> set rows) rows'"

definition written :: "db \<Rightarrow> db \<Rightarrow> db" where
  "written d d' =
     \<lparr>db_users = written_rows (db_users d) (db_users d'),
      db_credentials = written_rows (db_credentials d) (db_credentials d'),
      db_capabilities = written_rows (db_capabilities d) (db_capabilities d'),
      db_ceremonies = written_rows (db_ceremonies d) (db_ceremonies d'),
      db_sessions = written_rows (db_sessions d) (db_sessions d'),
      db_recoveries = written_rows (db_recoveries d) (db_recoveries d'),
      db_audit = drop (length (db_audit d)) (db_audit d')\<rparr>"

text \<open>Rows, and the values of unique columns and of the partial unique index.\<close>

datatype lock =
    User_row string | Credential_row uuid | Capability_row uuid | Ceremony_row uuid | Session_row uuid | Recovery_row uuid
  | User_handle uuid | User_email string | Credential_key bytes | Capability_hash bytes | Session_hash bytes
  | Pending_recovery string

definition locks :: "db \<Rightarrow> lock set" where
  "locks own = (User_row \<circ> ur_id) ` set (db_users own) \<union> (Credential_row \<circ> cr_id) ` set (db_credentials own)
     \<union> (Capability_row \<circ> ca_id) ` set (db_capabilities own) \<union> (Ceremony_row \<circ> ce_id) ` set (db_ceremonies own)
     \<union> (Session_row \<circ> se_id) ` set (db_sessions own) \<union> (Recovery_row \<circ> re_id) ` set (db_recoveries own)
     \<union> (User_handle \<circ> ur_webauthn_handle) ` set (db_users own) \<union> (User_email \<circ> ur_email) ` set (db_users own)
     \<union> (Credential_key \<circ> cr_credential_id) ` set (db_credentials own)
     \<union> (Capability_hash \<circ> ca_token_hash) ` set (db_capabilities own)
     \<union> (Session_hash \<circ> se_token_hash) ` set (db_sessions own)
     \<union> (Pending_recovery \<circ> re_user_id) ` set (filter recovery_pending (db_recoveries own))"

section \<open>Concurrent transactions\<close>

record txn =
  tx_origin :: "unit script"
  tx_script :: "unit script"
  tx_snapshot :: "db option"
  tx_own :: db
  tx_advisory :: bool

record server =
  cs_db :: db
  cs_txns :: "nat \<rightharpoonup> txn"
  cs_committed :: "unit script list"

definition server_start :: "db \<Rightarrow> server" where
  "server_start d = \<lparr>cs_db = d, cs_txns = Map.empty, cs_committed = []\<rparr>"

abbreviation set_txn :: "nat \<Rightarrow> txn \<Rightarrow> server \<Rightarrow> server" where
  "set_txn t x s \<equiv> s\<lparr>cs_txns := (cs_txns s)(t \<mapsto> x)\<rparr>"

definition rivals :: "server \<Rightarrow> nat \<Rightarrow> txn set" where
  "rivals s t = {y. \<exists>u. u \<noteq> t \<and> cs_txns s u = Some y}"

inductive server_step :: "server \<Rightarrow> server \<Rightarrow> bool" where
  begins: "store_script scr \<Longrightarrow> cs_txns s t = None \<Longrightarrow>
     server_step s (set_txn t \<lparr>tx_origin = scr, tx_script = scr, tx_snapshot = None, tx_own = db_empty, tx_advisory = False\<rparr> s)"
| takes_snapshot: "cs_txns s t = Some x \<Longrightarrow> tx_script x = Stmt st \<Longrightarrow> tx_snapshot x = None \<Longrightarrow>
     server_step s (set_txn t (x\<lparr>tx_snapshot := Some (overlay (tx_own x) (cs_db s))\<rparr>) s)"
| executes: "cs_txns s t = Some x \<Longrightarrow> tx_script x = Stmt st \<Longrightarrow> tx_snapshot x = Some snapshot \<Longrightarrow>
     st snapshot (overlay (tx_own x) (cs_db s)) = (k, d) \<Longrightarrow>
     (\<forall>y\<in>rivals s t. locks (written (cs_db s) d) \<inter> locks (tx_own y) = {}) \<Longrightarrow>
     server_step s (set_txn t (x\<lparr>tx_script := k, tx_snapshot := None, tx_own := written (cs_db s) d\<rparr>) s)"
| takes_advisory: "cs_txns s t = Some x \<Longrightarrow> tx_script x = Advisory k \<Longrightarrow> (\<forall>y\<in>rivals s t. \<not> tx_advisory y) \<Longrightarrow>
     server_step s (set_txn t (x\<lparr>tx_script := k, tx_advisory := True\<rparr>) s)"
| commits: "cs_txns s t = Some x \<Longrightarrow> tx_script x = Finish (Inr ()) \<Longrightarrow>
     server_step s \<lparr>cs_db = overlay (tx_own x) (cs_db s), cs_txns = (cs_txns s)(t := None),
       cs_committed = tx_origin x # cs_committed s\<rparr>"
| aborts: "cs_txns s t = Some x \<Longrightarrow> server_step s (s\<lparr>cs_txns := (cs_txns s)(t := None)\<rparr>)"

section \<open>Rows of one table\<close>

lemma pick_cases:
  obtains "\<And>w. w \<in> set own \<Longrightarrow> key w \<noteq> key r" and "pick key own r = r"
  | w where "w \<in> set own" and "key w = key r" and "pick key own r = w"
proof (cases "List.find (\<lambda>w. key w = key r) own")
  case None
  with that(1) show ?thesis by (simp add: pick_def find_None_iff)
next
  case (Some w)
  then have "w \<in> set own" and "key w = key r" by (auto simp: find_Some_iff)
  with Some that(2) show ?thesis by (simp add: pick_def)
qed

lemma key_pick [simp]: "key (pick key own r) = key r"
  by (cases rule: pick_cases [of own key r]) simp_all

lemma pick_other: "key r \<notin> key ` set own \<Longrightarrow> pick key own r = r"
  by (cases rule: pick_cases [of own key r]) (simp, metis imageI)

lemma pick_own:
  assumes "distinct (map key own)" and "w \<in> set own" and "key w = key r"
  shows "pick key own r = w"
proof (cases rule: pick_cases [of own key r])
  case 1
  with assms show ?thesis by blast
next
  case (2 v)
  with assms show ?thesis by (metis distinct_map inj_onD)
qed

lemma map_key_overlay: "map key (overlay_rows key own rows) =
    map key rows @ map key (filter (\<lambda>w. key w \<notin> key ` set rows) own)"
  by (simp add: overlay_rows_def comp_def)

lemma distinct_overlay:
  assumes "distinct (map key rows)" and "distinct (map key own)"
  shows "distinct (map key (overlay_rows key own rows))"
proof -
  have "k \<notin> set (map key rows)" if "k \<in> set (map key (filter (\<lambda>w. key w \<notin> key ` set rows) own))" for k
    using that by (simp only: set_map set_filter) (erule imageE, simp)
  then have "set (map key rows) \<inter> set (map key (filter (\<lambda>w. key w \<notin> key ` set rows) own)) = {}" by blast
  with assms show ?thesis unfolding map_key_overlay by (simp add: distinct_map_filter)
qed

lemma overlay_grows_iff:
  assumes "\<And>r. rel r r"
  shows "grows rel rows (overlay_rows key own rows) \<longleftrightarrow> (\<forall>r\<in>set rows. rel r (pick key own r))"
  by (auto simp: grows_def overlay_rows_def list_all2_map2 list_all2_same)

lemma overlay_written_rows:
  assumes "grows rel rows rows'" and "\<And>x y. rel x y \<Longrightarrow> key y = key x" and "distinct (map key rows')"
  shows "overlay_rows key (written_rows rows rows') rows = rows'"
proof -
  let ?n = "length rows" and ?own = "written_rows rows rows'"
  have le: "?n \<le> length rows'" and at: "\<And>i. i < ?n \<Longrightarrow> key (rows' ! i) = key (rows ! i)"
    using assms(1,2) by (auto simp: grows_iff_nth)
  have same: "r' = r''" if "r' \<in> set rows'" "r'' \<in> set rows'" "key r' = key r''" for r' r''
    using assms(3) that by (metis distinct_map inj_onD)
  have picks: "pick key ?own (rows ! i) = rows' ! i" if i: "i < ?n" for i
  proof (cases rule: pick_cases [of ?own key "rows ! i"])
    case 1
    from i le have mem: "rows' ! i \<in> set rows'" by simp
    with 1(1) at [OF i] have "rows' ! i \<in> set rows" by (auto simp: written_rows_def)
    then obtain j where j: "j < ?n" "rows ! j = rows' ! i" by (auto simp: in_set_conv_nth)
    then have "rows' ! j = rows' ! i" using same [OF _ mem, of "rows' ! j"] at [OF j(1)] le by simp
    then have "j = i" using assms(3) i j le by (simp add: distinct_map nth_eq_iff_index_eq)
    with j 1(2) show ?thesis by simp
  next
    case (2 w)
    with i le at [OF i] same [of w "rows' ! i"] show ?thesis by (simp add: written_rows_def)
  qed
  have "map key rows = map key (take ?n rows')" by (rule nth_equalityI) (use at le in simp_all)
  then have keys: "key ` set rows = key ` set (take ?n rows')" by (metis list.set_map)
  have "filter (\<lambda>w. key w \<notin> key ` set rows) ?own = filter (\<lambda>w. key w \<notin> key ` set rows) rows'"
    by (auto simp: written_rows_def intro!: filter_cong)
  also have "\<dots> = filter (\<lambda>w. key w \<notin> key ` set (take ?n rows')) (take ?n rows' @ drop ?n rows')"
    by (simp only: keys append_take_drop_id)
  also have "\<dots> = drop ?n rows'"
  proof -
    have "distinct (map key (take ?n rows' @ drop ?n rows'))" using assms(3) by (simp only: append_take_drop_id)
    then have "set (map key (take ?n rows')) \<inter> set (map key (drop ?n rows')) = {}" by (simp only: map_append distinct_append)
    then have "key w \<notin> key ` set (take ?n rows')" if "w \<in> set (drop ?n rows')" for w using that by fastforce
    then show ?thesis by (simp add: filter_id_conv filter_empty_conv del: append_take_drop_id)
  qed
  finally have new: "filter (\<lambda>w. key w \<notin> key ` set rows) ?own = drop ?n rows'" .
  have "map (pick key ?own) rows = take ?n rows'"
    using picks le by (simp add: list_eq_iff_nth_eq)
  with new show ?thesis by (simp add: overlay_rows_def)
qed

text \<open>What one transaction commits leaves the other's rows to it.\<close>

lemma pick_after_commit:
  assumes "\<And>r. rel r r" and "\<And>r. r \<in> set rows \<Longrightarrow> rel r (pick key own r)"
    and "key ` set own \<inter> key ` set own2 = {}" and "r \<in> set (overlay_rows key own2 rows)"
  shows "rel r (pick key own r)"
proof (cases "key r \<in> key ` set own")
  case True
  then have "key r \<notin> key ` set own2" using assms(3) by blast
  with assms(4) have "r \<in> set rows"
    by (auto simp: overlay_rows_def pick_other)
  with assms(2) show ?thesis .
next
  case False
  with assms(1) show ?thesis by (simp add: pick_other)
qed

lemma overlay_has:
  assumes "distinct (map key own)" and "w \<in> set own"
  shows "w \<in> set (overlay_rows key own rows)"
proof (cases "key w \<in> key ` set rows")
  case True
  then obtain r where "r \<in> set rows" "key r = key w" by auto
  with pick_own [OF assms, of r] show ?thesis by (force simp: overlay_rows_def)
qed (use assms(2) in \<open>simp add: overlay_rows_def\<close>)

lemma overlay_from: "r \<in> set (overlay_rows key own rows) \<Longrightarrow> r \<in> set own \<or> r \<in> set rows"
  by (auto simp: overlay_rows_def) (metis pick_cases)

section \<open>The view of a transaction evolves from the committed database\<close>

definition ids_ok :: "db \<Rightarrow> bool" where
  "ids_ok d \<longleftrightarrow> distinct (map ur_id (db_users d)) \<and> distinct (map cr_id (db_credentials d))
     \<and> distinct (map ca_id (db_capabilities d)) \<and> distinct (map ce_id (db_ceremonies d))
     \<and> distinct (map se_id (db_sessions d)) \<and> distinct (map re_id (db_recoveries d))"

lemma db_wf_ids_ok: "db_wf d \<Longrightarrow> ids_ok d"
  by (simp add: db_wf_def table_wf_defs ids_ok_def)

lemma ids_ok_overlay: "ids_ok d \<Longrightarrow> ids_ok own \<Longrightarrow> ids_ok (overlay own d)"
  by (simp add: ids_ok_def overlay_def distinct_overlay)

lemma ids_ok_written: "ids_ok d' \<Longrightarrow> ids_ok (written d d')"
  by (simp add: ids_ok_def written_def written_rows_def distinct_map_filter)

lemma evolves_key:
  "user_evolves u1 u2 \<Longrightarrow> ur_id u2 = ur_id u1" "credential_evolves k1 k2 \<Longrightarrow> cr_id k2 = cr_id k1"
  "capability_evolves c1 c2 \<Longrightarrow> ca_id c2 = ca_id c1" "ceremony_evolves e1 e2 \<Longrightarrow> ce_id e2 = ce_id e1"
  "session_evolves s1 s2 \<Longrightarrow> se_id s2 = se_id s1" "recovery_evolves q1 q2 \<Longrightarrow> re_id q2 = re_id q1"
  by (simp_all add: row_evolves_defs)

lemma overlay_written:
  assumes "db_evolves d d'" and "ids_ok d'"
  shows "overlay (written d d') d = d'"
proof -
  have "db_audit d @ drop (length (db_audit d)) (db_audit d') = db_audit d'"
    using assms(1) by (auto simp: db_evolves_def prefix_def)
  moreover have "overlay_rows ur_id (written_rows (db_users d) (db_users d')) (db_users d) = db_users d'"
    by (rule overlay_written_rows [where rel = user_evolves, OF _ evolves_key(1)])
      (use assms in \<open>simp_all add: db_evolves_def ids_ok_def\<close>)
  moreover have "overlay_rows cr_id (written_rows (db_credentials d) (db_credentials d')) (db_credentials d) = db_credentials d'"
    by (rule overlay_written_rows [where rel = credential_evolves, OF _ evolves_key(2)])
      (use assms in \<open>simp_all add: db_evolves_def ids_ok_def\<close>)
  moreover have "overlay_rows ca_id (written_rows (db_capabilities d) (db_capabilities d')) (db_capabilities d) = db_capabilities d'"
    by (rule overlay_written_rows [where rel = capability_evolves, OF _ evolves_key(3)])
      (use assms in \<open>simp_all add: db_evolves_def ids_ok_def\<close>)
  moreover have "overlay_rows ce_id (written_rows (db_ceremonies d) (db_ceremonies d')) (db_ceremonies d) = db_ceremonies d'"
    by (rule overlay_written_rows [where rel = ceremony_evolves, OF _ evolves_key(4)])
      (use assms in \<open>simp_all add: db_evolves_def ids_ok_def\<close>)
  moreover have "overlay_rows se_id (written_rows (db_sessions d) (db_sessions d')) (db_sessions d) = db_sessions d'"
    by (rule overlay_written_rows [where rel = session_evolves, OF _ evolves_key(5)])
      (use assms in \<open>simp_all add: db_evolves_def ids_ok_def\<close>)
  moreover have "overlay_rows re_id (written_rows (db_recoveries d) (db_recoveries d')) (db_recoveries d) = db_recoveries d'"
    by (rule overlay_written_rows [where rel = recovery_evolves, OF _ evolves_key(6)])
      (use assms in \<open>simp_all add: db_evolves_def ids_ok_def\<close>)
  ultimately show ?thesis by (simp add: overlay_def written_def)
qed

lemma overlay_evolves_iff:
  "db_evolves d (overlay own d) \<longleftrightarrow>
     (\<forall>r\<in>set (db_users d). user_evolves r (pick ur_id (db_users own) r))
     \<and> (\<forall>r\<in>set (db_credentials d). credential_evolves r (pick cr_id (db_credentials own) r))
     \<and> (\<forall>r\<in>set (db_capabilities d). capability_evolves r (pick ca_id (db_capabilities own) r))
     \<and> (\<forall>r\<in>set (db_ceremonies d). ceremony_evolves r (pick ce_id (db_ceremonies own) r))
     \<and> (\<forall>r\<in>set (db_sessions d). session_evolves r (pick se_id (db_sessions own) r))
     \<and> (\<forall>r\<in>set (db_recoveries d). recovery_evolves r (pick re_id (db_recoveries own) r))"
  by (simp add: db_evolves_def overlay_def overlay_grows_iff)

lemma locks_mem:
  "User_row i \<in> locks own \<longleftrightarrow> i \<in> ur_id ` set (db_users own)"
  "Credential_row w \<in> locks own \<longleftrightarrow> w \<in> cr_id ` set (db_credentials own)"
  "Capability_row w \<in> locks own \<longleftrightarrow> w \<in> ca_id ` set (db_capabilities own)"
  "Ceremony_row w \<in> locks own \<longleftrightarrow> w \<in> ce_id ` set (db_ceremonies own)"
  "Session_row w \<in> locks own \<longleftrightarrow> w \<in> se_id ` set (db_sessions own)"
  "Recovery_row w \<in> locks own \<longleftrightarrow> w \<in> re_id ` set (db_recoveries own)"
  "User_handle w \<in> locks own \<longleftrightarrow> w \<in> ur_webauthn_handle ` set (db_users own)"
  "User_email e \<in> locks own \<longleftrightarrow> e \<in> ur_email ` set (db_users own)"
  "Credential_key b \<in> locks own \<longleftrightarrow> b \<in> cr_credential_id ` set (db_credentials own)"
  "Capability_hash b \<in> locks own \<longleftrightarrow> b \<in> ca_token_hash ` set (db_capabilities own)"
  "Session_hash b \<in> locks own \<longleftrightarrow> b \<in> se_token_hash ` set (db_sessions own)"
  "Pending_recovery i \<in> locks own \<longleftrightarrow> i \<in> re_user_id ` set (filter recovery_pending (db_recoveries own))"
  unfolding locks_def by auto

lemma no_common: "(\<And>x. x \<in> A \<Longrightarrow> x \<in> B \<Longrightarrow> False) \<Longrightarrow> A \<inter> B = {}"
  by blast

lemma locks_disjoint:
  assumes "locks own \<inter> locks own2 = {}"
  shows "ur_id ` set (db_users own) \<inter> ur_id ` set (db_users own2) = {}"
    and "cr_id ` set (db_credentials own) \<inter> cr_id ` set (db_credentials own2) = {}"
    and "ca_id ` set (db_capabilities own) \<inter> ca_id ` set (db_capabilities own2) = {}"
    and "ce_id ` set (db_ceremonies own) \<inter> ce_id ` set (db_ceremonies own2) = {}"
    and "se_id ` set (db_sessions own) \<inter> se_id ` set (db_sessions own2) = {}"
    and "re_id ` set (db_recoveries own) \<inter> re_id ` set (db_recoveries own2) = {}"
    and "ur_webauthn_handle ` set (db_users own) \<inter> ur_webauthn_handle ` set (db_users own2) = {}"
    and "ur_email ` set (db_users own) \<inter> ur_email ` set (db_users own2) = {}"
    and "cr_credential_id ` set (db_credentials own) \<inter> cr_credential_id ` set (db_credentials own2) = {}"
    and "ca_token_hash ` set (db_capabilities own) \<inter> ca_token_hash ` set (db_capabilities own2) = {}"
    and "se_token_hash ` set (db_sessions own) \<inter> se_token_hash ` set (db_sessions own2) = {}"
    and "re_user_id ` set (filter recovery_pending (db_recoveries own)) \<inter> re_user_id ` set (filter recovery_pending (db_recoveries own2)) = {}"
proof -
  have apart: "False" if "x \<in> locks own" "x \<in> locks own2" for x using assms that by blast
  show "ur_id ` set (db_users own) \<inter> ur_id ` set (db_users own2) = {}"
    by (rule no_common) (rule apart; rule locks_mem(1) [THEN iffD2])
  show "cr_id ` set (db_credentials own) \<inter> cr_id ` set (db_credentials own2) = {}"
    by (rule no_common) (rule apart; rule locks_mem(2) [THEN iffD2])
  show "ca_id ` set (db_capabilities own) \<inter> ca_id ` set (db_capabilities own2) = {}"
    by (rule no_common) (rule apart; rule locks_mem(3) [THEN iffD2])
  show "ce_id ` set (db_ceremonies own) \<inter> ce_id ` set (db_ceremonies own2) = {}"
    by (rule no_common) (rule apart; rule locks_mem(4) [THEN iffD2])
  show "se_id ` set (db_sessions own) \<inter> se_id ` set (db_sessions own2) = {}"
    by (rule no_common) (rule apart; rule locks_mem(5) [THEN iffD2])
  show "re_id ` set (db_recoveries own) \<inter> re_id ` set (db_recoveries own2) = {}"
    by (rule no_common) (rule apart; rule locks_mem(6) [THEN iffD2])
  show "ur_webauthn_handle ` set (db_users own) \<inter> ur_webauthn_handle ` set (db_users own2) = {}"
    by (rule no_common) (rule apart; rule locks_mem(7) [THEN iffD2])
  show "ur_email ` set (db_users own) \<inter> ur_email ` set (db_users own2) = {}"
    by (rule no_common) (rule apart; rule locks_mem(8) [THEN iffD2])
  show "cr_credential_id ` set (db_credentials own) \<inter> cr_credential_id ` set (db_credentials own2) = {}"
    by (rule no_common) (rule apart; rule locks_mem(9) [THEN iffD2])
  show "ca_token_hash ` set (db_capabilities own) \<inter> ca_token_hash ` set (db_capabilities own2) = {}"
    by (rule no_common) (rule apart; rule locks_mem(10) [THEN iffD2])
  show "se_token_hash ` set (db_sessions own) \<inter> se_token_hash ` set (db_sessions own2) = {}"
    by (rule no_common) (rule apart; rule locks_mem(11) [THEN iffD2])
  show "re_user_id ` set (filter recovery_pending (db_recoveries own)) \<inter> re_user_id ` set (filter recovery_pending (db_recoveries own2)) = {}"
    by (rule no_common) (rule apart; rule locks_mem(12) [THEN iffD2])
qed

lemma overlay_tables:
  "db_users (overlay own d) = overlay_rows ur_id (db_users own) (db_users d)"
  "db_credentials (overlay own d) = overlay_rows cr_id (db_credentials own) (db_credentials d)"
  "db_capabilities (overlay own d) = overlay_rows ca_id (db_capabilities own) (db_capabilities d)"
  "db_ceremonies (overlay own d) = overlay_rows ce_id (db_ceremonies own) (db_ceremonies d)"
  "db_sessions (overlay own d) = overlay_rows se_id (db_sessions own) (db_sessions d)"
  "db_recoveries (overlay own d) = overlay_rows re_id (db_recoveries own) (db_recoveries d)"
  by (simp_all add: overlay_def)

lemma evolves_after_commit:
  assumes "db_evolves d (overlay own d)" and "locks own \<inter> locks own2 = {}"
  shows "db_evolves (overlay own2 d) (overlay own (overlay own2 d))"
proof -
  note own = assms(1) [unfolded overlay_evolves_iff] and apart = locks_disjoint [OF assms(2)]
  show ?thesis
    unfolding overlay_evolves_iff [of "overlay own2 d"] overlay_tables
  proof (intro conjI ballI)
    show "user_evolves r (pick ur_id (db_users own) r)" if "r \<in> set (overlay_rows ur_id (db_users own2) (db_users d))" for r
      by (rule pick_after_commit [where rel = user_evolves, OF _ _ apart(1) that]) (simp, use own in blast)
    show "credential_evolves r (pick cr_id (db_credentials own) r)"
      if "r \<in> set (overlay_rows cr_id (db_credentials own2) (db_credentials d))" for r
      by (rule pick_after_commit [where rel = credential_evolves, OF _ _ apart(2) that]) (simp, use own in blast)
    show "capability_evolves r (pick ca_id (db_capabilities own) r)"
      if "r \<in> set (overlay_rows ca_id (db_capabilities own2) (db_capabilities d))" for r
      by (rule pick_after_commit [where rel = capability_evolves, OF _ _ apart(3) that]) (simp, use own in blast)
    show "ceremony_evolves r (pick ce_id (db_ceremonies own) r)"
      if "r \<in> set (overlay_rows ce_id (db_ceremonies own2) (db_ceremonies d))" for r
      by (rule pick_after_commit [where rel = ceremony_evolves, OF _ _ apart(4) that]) (simp, use own in blast)
    show "session_evolves r (pick se_id (db_sessions own) r)"
      if "r \<in> set (overlay_rows se_id (db_sessions own2) (db_sessions d))" for r
      by (rule pick_after_commit [where rel = session_evolves, OF _ _ apart(5) that]) (simp, use own in blast)
    show "recovery_evolves r (pick re_id (db_recoveries own) r)"
      if "r \<in> set (overlay_rows re_id (db_recoveries own2) (db_recoveries d))" for r
      by (rule pick_after_commit [where rel = recovery_evolves, OF _ _ apart(6) that]) (simp, use own in blast)
  qed
qed

section \<open>Two transactions keep the schema together\<close>

lemma overlay_keys: "key ` set (overlay_rows key own rows) = key ` set rows \<union> key ` set own"
proof -
  have "key ` set (overlay_rows key own rows) = set (map key (overlay_rows key own rows))" by simp
  also have "\<dots> = key ` set rows \<union> key ` {w \<in> set own. key w \<notin> key ` set rows}"
    unfolding map_key_overlay by simp
  also have "\<dots> = key ` set rows \<union> key ` set own" by blast
  finally show ?thesis .
qed

lemma overlay_untouched:
  assumes "r \<in> set rows" and "key r \<notin> key ` set own"
  shows "r \<in> set (overlay_rows key own rows)"
proof -
  have "pick key own r = r" using assms(2) by (rule pick_other)
  then have "r \<in> pick key own ` set rows" using assms(1) by (metis imageI)
  then show ?thesis by (simp add: overlay_rows_def)
qed

lemma overlay_cases:
  assumes "r \<in> set (overlay_rows key own rows)"
  obtains (own) "r \<in> set own" | (base) "r \<in> set rows" and "key r \<notin> key ` set own"
proof (cases "r \<in> set own")
  case False
  with assms obtain r0 where r0: "r0 \<in> set rows" "r = pick key own r0" by (auto simp: overlay_rows_def)
  show ?thesis
  proof (cases rule: pick_cases [of own key r0])
    case 1
    then have "key r0 \<notin> key ` set own" by (metis imageE)
    with r0 1(2) base show ?thesis by simp
  qed (use r0(2) own in simp)
qed (rule own)

lemma two_overlays:
  assumes "r \<in> set (overlay_rows key own (overlay_rows key own2 rows))"
  obtains (first) "r \<in> set own" | (second) "r \<in> set own2"
    | (neither) "r \<in> set (overlay_rows key own rows)" and "r \<in> set (overlay_rows key own2 rows)"
  using assms
proof (cases rule: overlay_cases)
  case base
  note outer = base
  from base(1) show ?thesis
  proof (cases rule: overlay_cases)
    case base
    from overlay_untouched [OF base(1) outer(2)] outer(1) show ?thesis by (rule neither)
  qed (rule second)
qed (rule first)

lemma two_views:
  assumes "r \<in> set (overlay_rows key own (overlay_rows key own2 rows))"
    and "distinct (map key own)" and "distinct (map key own2)"
  shows "r \<in> set (overlay_rows key own rows) \<or> r \<in> set (overlay_rows key own2 rows)"
  using assms(1)
proof (cases rule: two_overlays)
  case first
  then show ?thesis using overlay_has [OF assms(2)] by blast
next
  case second
  then show ?thesis using overlay_has [OF assms(3)] by blast
qed blast

lemma distinct_two:
  assumes "distinct (map key rows)" and "distinct (map key own)" and "distinct (map key own2)"
    and "distinct (map g (filter Q (overlay_rows key own rows)))"
    and "distinct (map g (filter Q (overlay_rows key own2 rows)))"
    and "g ` set (filter Q own) \<inter> g ` set (filter Q own2) = {}"
  shows "distinct (map g (filter Q (overlay_rows key own (overlay_rows key own2 rows))))"
proof -
  let ?both = "overlay_rows key own (overlay_rows key own2 rows)"
  have inj: "inj_on g (set (filter Q (overlay_rows key own rows)))" "inj_on g (set (filter Q (overlay_rows key own2 rows)))"
    using assms(4,5) by (simp_all add: distinct_map)
  have mine: "r \<in> set (overlay_rows key own rows)" if "r \<in> set own" for r using assms(2) that by (rule overlay_has)
  have other: "r \<in> set (overlay_rows key own2 rows)" if "r \<in> set own2" for r using assms(3) that by (rule overlay_has)
  have "inj_on g (set (filter Q ?both))"
  proof (rule inj_onI)
    fix r1 r2 assume r: "r1 \<in> set (filter Q ?both)" "r2 \<in> set (filter Q ?both)" and eq: "g r1 = g r2"
    then have q: "Q r1" "Q r2" by simp_all
    have clash: "False" if "a \<in> set own" "b \<in> set own2" "Q a" "Q b" "g a = g b" for a b
    proof -
      from that have "a \<in> set (filter Q own)" and "b \<in> set (filter Q own2)" by simp_all
      then have "g a \<in> g ` set (filter Q own)" and "g a \<in> g ` set (filter Q own2)"
        unfolding that(5) by (metis imageI that(5), metis imageI)
      with assms(6) show False by blast
    qed
    from r have b: "r1 \<in> set ?both" "r2 \<in> set ?both" by simp_all
    consider "r1 \<in> set (overlay_rows key own rows)" "r2 \<in> set (overlay_rows key own rows)"
      | "r1 \<in> set (overlay_rows key own2 rows)" "r2 \<in> set (overlay_rows key own2 rows)"
    proof (cases rule: two_overlays [OF b(1)]; cases rule: two_overlays [OF b(2)])
    qed (use clash q eq mine other that in metis)+
    then show "r1 = r2" using inj q eq by cases (auto dest: inj_onD)
  qed
  moreover have "distinct (filter Q ?both)"
    using distinct_overlay [OF distinct_overlay [OF assms(1,3)] assms(2)] by (simp add: distinct_map)
  ultimately show ?thesis by (simp add: distinct_map)
qed

lemma ids_ok_under: "ids_ok (overlay own d) \<Longrightarrow> ids_ok d"
  by (simp add: ids_ok_def overlay_tables map_key_overlay)

lemma wf_after_commit:
  assumes "db_wf (overlay own d)" and "db_wf (overlay own2 d)" and "ids_ok own" and "ids_ok own2"
    and "locks own \<inter> locks own2 = {}"
  shows "db_wf (overlay own (overlay own2 d))"
proof -
  let ?both = "overlay own (overlay own2 d)"
  have base: "ids_ok d" by (rule ids_ok_under [OF db_wf_ids_ok [OF assms(1)]])
  note ids = base [unfolded ids_ok_def] assms(3,4) [unfolded ids_ok_def]
  note apart = locks_disjoint [OF assms(5)]
  note wf1 = assms(1) [unfolded db_wf_def] and wf2 = assms(2) [unfolded db_wf_def]
  have both: "ids_ok ?both" by (intro ids_ok_overlay base assms(3,4))
  have user: "user_exists ?both i" if "user_exists (overlay own d) i \<or> user_exists (overlay own2 d) i" for i
    using that by (auto simp: user_exists_def overlay_tables overlay_keys)
  have opt: "opt_user_exists ?both i" if "opt_user_exists (overlay own d) i \<or> opt_user_exists (overlay own2 d) i" for i
    using that user by (auto simp: opt_user_exists_def split: option.splits)
  note two = distinct_two [where Q = "\<lambda>_. True", simplified]
  have users: "users_wf (db_users ?both)" unfolding users_wf_def
  proof (intro conjI ballI)
    show "distinct (map ur_id (db_users ?both))" using both by (simp add: ids_ok_def)
    show "distinct (map ur_webauthn_handle (db_users ?both))" unfolding overlay_tables
      by (rule two) (use ids wf1 wf2 apart(7) in \<open>simp_all add: users_wf_def overlay_tables\<close>)
    show "distinct (map ur_email (db_users ?both))" unfolding overlay_tables
      by (rule two) (use ids wf1 wf2 apart(8) in \<open>simp_all add: users_wf_def overlay_tables\<close>)
    fix u assume "u \<in> set (db_users ?both)"
    then have "u \<in> set (db_users (overlay own d)) \<or> u \<in> set (db_users (overlay own2 d))"
      unfolding overlay_tables by (rule two_views) (simp_all add: ids)
    then show "ur_role u \<in> set role_names" and "0 < ur_auth_epoch u" and "ur_auth_epoch u \<le> i64_max"
      and "valid_opaque_id (ur_id u)"
      using wf1 wf2 by (auto simp: users_wf_def)
  qed
  have "credentials_wf ?both" unfolding credentials_wf_def
  proof (intro conjI ballI)
    show "distinct (map cr_id (db_credentials ?both))" using both by (simp add: ids_ok_def)
    show "distinct (map cr_credential_id (db_credentials ?both))" unfolding overlay_tables
      by (rule two) (use ids wf1 wf2 apart(9) in \<open>simp_all add: credentials_wf_def overlay_tables\<close>)
    fix k assume "k \<in> set (db_credentials ?both)"
    then have "k \<in> set (db_credentials (overlay own d)) \<or> k \<in> set (db_credentials (overlay own2 d))"
      unfolding overlay_tables by (rule two_views) (simp_all add: ids)
    then show "user_exists ?both (cr_user_id k)" using wf1 wf2 user by (auto simp: credentials_wf_def)
  qed
  moreover have "capabilities_wf ?both" unfolding capabilities_wf_def
  proof (intro conjI ballI)
    show "distinct (map ca_id (db_capabilities ?both))" using both by (simp add: ids_ok_def)
    show "distinct (map ca_token_hash (db_capabilities ?both))" unfolding overlay_tables
      by (rule two) (use ids wf1 wf2 apart(10) in \<open>simp_all add: capabilities_wf_def overlay_tables\<close>)
    fix c assume "c \<in> set (db_capabilities ?both)"
    then have "c \<in> set (db_capabilities (overlay own d)) \<or> c \<in> set (db_capabilities (overlay own2 d))"
      unfolding overlay_tables by (rule two_views) (simp_all add: ids)
    then show "user_exists ?both (ca_user_id c)" and "ca_purpose c \<in> set purpose_names" and "length (ca_token_hash c) = 32"
      using wf1 wf2 user by (auto simp: capabilities_wf_def)
  qed
  moreover have "ceremonies_wf ?both" unfolding ceremonies_wf_def
  proof (intro conjI ballI)
    show "distinct (map ce_id (db_ceremonies ?both))" using both by (simp add: ids_ok_def)
    fix e assume "e \<in> set (db_ceremonies ?both)"
    then have "e \<in> set (db_ceremonies (overlay own d)) \<or> e \<in> set (db_ceremonies (overlay own2 d))"
      unfolding overlay_tables by (rule two_views) (simp_all add: ids)
    then show "opt_user_exists ?both (ce_user_id e)" and "ce_kind e \<in> set kind_names"
      and "case ce_capability_hash e of None \<Rightarrow> True | Some h \<Rightarrow> length h = 32"
      using wf1 wf2 opt unfolding ceremonies_wf_def by blast+
  qed
  moreover have "sessions_wf ?both" unfolding sessions_wf_def
  proof (intro conjI ballI)
    show "distinct (map se_id (db_sessions ?both))" using both by (simp add: ids_ok_def)
    show "distinct (map se_token_hash (db_sessions ?both))" unfolding overlay_tables
      by (rule two) (use ids wf1 wf2 apart(11) in \<open>simp_all add: sessions_wf_def overlay_tables\<close>)
    fix n assume "n \<in> set (db_sessions ?both)"
    then have "n \<in> set (db_sessions (overlay own d)) \<or> n \<in> set (db_sessions (overlay own2 d))"
      unfolding overlay_tables by (rule two_views) (simp_all add: ids)
    then show "user_exists ?both (se_user_id n)" and "length (se_token_hash n) = 32" and "length (se_csrf_hash n) = 32"
      using wf1 wf2 user by (auto simp: sessions_wf_def)
  qed
  moreover have "recoveries_wf ?both" unfolding recoveries_wf_def
  proof (intro conjI ballI)
    show "distinct (map re_id (db_recoveries ?both))" using both by (simp add: ids_ok_def)
    show "distinct (map re_user_id (filter recovery_pending (db_recoveries ?both)))" unfolding overlay_tables
      by (rule distinct_two) (use ids wf1 wf2 apart(12) in \<open>simp_all add: recoveries_wf_def overlay_tables\<close>)
    fix q assume "q \<in> set (db_recoveries ?both)"
    then have "q \<in> set (db_recoveries (overlay own d)) \<or> q \<in> set (db_recoveries (overlay own2 d))"
      unfolding overlay_tables by (rule two_views) (simp_all add: ids)
    then show "user_exists ?both (re_user_id q)" and "opt_user_exists ?both (re_approved_by q)"
      and "re_setup_issued_at q \<noteq> None \<longrightarrow> re_approved_at q \<noteq> None"
      and "re_completed_at q \<noteq> None \<longrightarrow> re_approved_at q \<noteq> None"
      using wf1 wf2 user opt unfolding recoveries_wf_def by blast+
  qed
  moreover have "audit_wf ?both" unfolding audit_wf_def
  proof (intro ballI)
    fix a assume "a \<in> set (db_audit ?both)"
    then have "a \<in> set (db_audit (overlay own d)) \<or> a \<in> set (db_audit (overlay own2 d))"
      by (auto simp: overlay_def)
    then show "opt_user_exists ?both (au_actor_user_id a) \<and> opt_user_exists ?both (au_subject_user_id a)"
      using wf1 wf2 opt unfolding audit_wf_def by blast
  qed
  ultimately show ?thesis using users by (simp add: db_wf_def)
qed

section \<open>The invariant of the server\<close>

definition txn_inv :: "db \<Rightarrow> txn \<Rightarrow> bool" where
  "txn_inv d x \<longleftrightarrow> ids_ok (tx_own x) \<and> db_evolves d (overlay (tx_own x) d) \<and> db_wf (overlay (tx_own x) d)
     \<and> script_rel moves (tx_script x)"

definition apart :: "txn \<Rightarrow> txn \<Rightarrow> bool" where
  "apart x y \<longleftrightarrow> locks (tx_own x) \<inter> locks (tx_own y) = {}"

definition server_inv :: "server \<Rightarrow> bool" where
  "server_inv s \<longleftrightarrow> db_wf (cs_db s) \<and> (\<forall>t x. cs_txns s t = Some x \<longrightarrow> txn_inv (cs_db s) x)
     \<and> (\<forall>t u x y. t \<noteq> u \<longrightarrow> cs_txns s t = Some x \<longrightarrow> cs_txns s u = Some y \<longrightarrow> apart x y)"

lemma apart_sym: "apart x y \<Longrightarrow> apart y x"
  by (auto simp: apart_def)

lemma server_invD:
  assumes "server_inv s"
  shows "db_wf (cs_db s)" and "cs_txns s t = Some x \<Longrightarrow> txn_inv (cs_db s) x"
    and "t \<noteq> u \<Longrightarrow> cs_txns s t = Some x \<Longrightarrow> cs_txns s u = Some y \<Longrightarrow> apart x y"
  using assms by (simp_all add: server_inv_def)

lemma pick_nothing: "pick key [] = (\<lambda>r. r)"
  by (simp add: pick_def fun_eq_iff)

lemma overlay_empty [simp]: "overlay db_empty d = d"
  by (simp add: overlay_def db_empty_def overlay_rows_def pick_nothing)

lemma empty_txn: "ids_ok db_empty" "locks db_empty = {}"
  by (simp_all add: ids_ok_def db_empty_def locks_def)

lemma txn_inv_executes:
  assumes "txn_inv c x" and "tx_script x = Stmt st" and "st snapshot (overlay (tx_own x) c) = (k, d)"
  shows "txn_inv c (x\<lparr>tx_script := k, tx_snapshot := None, tx_own := written c d\<rparr>)"
    and "overlay (written c d) c = d" and "db_evolves (overlay (tx_own x) c) d"
proof -
  have "script_rel moves (Stmt st)" using assms(1,2) by (simp add: txn_inv_def)
  then have step: "script_rel moves k" "moves (overlay (tx_own x) c) d"
    using assms(3) by (auto elim: rel_StmtE)
  then have view: "db_evolves (overlay (tx_own x) c) d" and wf: "db_wf d"
    using assms(1) by (simp_all add: moves_def txn_inv_def)
  have ev: "db_evolves c d" using assms(1) view by (auto simp: txn_inv_def intro: db_evolves_trans)
  note ids = db_wf_ids_ok [OF wf]
  show restored: "overlay (written c d) c = d" by (rule overlay_written [OF ev ids])
  show "db_evolves (overlay (tx_own x) c) d" by (rule view)
  show "txn_inv c (x\<lparr>tx_script := k, tx_snapshot := None, tx_own := written c d\<rparr>)"
    using ev step(1) restored wf ids by (simp add: txn_inv_def ids_ok_written)
qed

lemma server_inv_set:
  assumes "server_inv s" and "txn_inv (cs_db s) x" and "\<And>u y. u \<noteq> t \<Longrightarrow> cs_txns s u = Some y \<Longrightarrow> apart x y"
  shows "server_inv (set_txn t x s)"
  unfolding server_inv_def
proof (intro conjI allI impI)
  note inv = server_invD [OF assms(1)]
  show "db_wf (cs_db (set_txn t x s))" using inv(1) by simp
  show "txn_inv (cs_db (set_txn t x s)) y" if "cs_txns (set_txn t x s) u = Some y" for u y
    using that inv(2) assms(2) by (auto split: if_splits)
  show "apart y z" if ne: "u \<noteq> v" and uv: "cs_txns (set_txn t x s) u = Some y" "cs_txns (set_txn t x s) v = Some z" for u v y z
  proof -
    consider "u = t" "v \<noteq> t" | "v = t" "u \<noteq> t" | "u \<noteq> t" "v \<noteq> t" using ne by blast
    then show ?thesis
    proof cases
      case 1
      with uv assms(3) [of v z] show ?thesis by simp
    next
      case 2
      with uv assms(3) [of u y] show ?thesis by (simp add: apart_sym)
    next
      case 3
      with ne uv inv(3) show ?thesis by simp
    qed
  qed
qed

lemma server_inv_drop:
  assumes "server_inv s" and "db_wf d" and "\<And>u y. u \<noteq> t \<Longrightarrow> cs_txns s u = Some y \<Longrightarrow> txn_inv d y"
  shows "server_inv \<lparr>cs_db = d, cs_txns = (cs_txns s)(t := None), cs_committed = finished\<rparr>"
  unfolding server_inv_def
proof (intro conjI allI impI)
  let ?s = "\<lparr>cs_db = d, cs_txns = (cs_txns s)(t := None), cs_committed = finished\<rparr>"
  show "db_wf (cs_db ?s)" using assms(2) by simp
  show "txn_inv (cs_db ?s) y" if "cs_txns ?s u = Some y" for u y
    using that assms(3) by (auto split: if_splits)
  show "apart y z" if "u \<noteq> v" "cs_txns ?s u = Some y" "cs_txns ?s v = Some z" for u v y z
    using that server_invD(3) [OF assms(1)] by (auto split: if_splits)
qed

lemma server_inv_commit:
  assumes "server_inv s" and "cs_txns s t = Some x"
  shows "server_inv \<lparr>cs_db = overlay (tx_own x) (cs_db s), cs_txns = (cs_txns s)(t := None), cs_committed = finished\<rparr>"
    and "db_evolves (cs_db s) (overlay (tx_own x) (cs_db s))"
proof -
  note inv = server_invD [OF assms(1)]
  have x: "txn_inv (cs_db s) x" by (rule inv(2) [OF assms(2)])
  then show "db_evolves (cs_db s) (overlay (tx_own x) (cs_db s))" by (simp add: txn_inv_def)
  show "server_inv \<lparr>cs_db = overlay (tx_own x) (cs_db s), cs_txns = (cs_txns s)(t := None), cs_committed = finished\<rparr>"
  proof (rule server_inv_drop [OF assms(1)])
    show "db_wf (overlay (tx_own x) (cs_db s))" using x by (simp add: txn_inv_def)
    fix u y assume u: "u \<noteq> t" "cs_txns s u = Some y"
    from inv(3) [OF u(1) u(2) assms(2)] inv(2) [OF u(2)] show "txn_inv (overlay (tx_own x) (cs_db s)) y"
      using x by (simp add: txn_inv_def apart_def evolves_after_commit wf_after_commit)
  qed
qed

lemma server_step_inv:
  assumes "server_step s s'" and "server_inv s"
  shows "server_inv s' \<and> db_evolves (cs_db s) (cs_db s')"
proof -
  note inv = server_invD [OF assms(2)]
  have others: "apart x y" if "cs_txns s t = Some x" "u \<noteq> t" "cs_txns s u = Some y" for t x u y
    using inv(3) [OF that(2) that(3,1)] by (rule apart_sym)
  from assms(1) show ?thesis
  proof (cases rule: server_step.cases)
    case (begins scr t)
    have "server_inv s'" unfolding begins(1)
      by (rule server_inv_set [OF assms(2)]) (simp_all add: txn_inv_def empty_txn apart_def store_script_moves begins(2) inv(1))
    then show ?thesis by (simp add: begins(1))
  next
    case (takes_snapshot t x st)
    have "server_inv s'" unfolding takes_snapshot(1)
      by (rule server_inv_set [OF assms(2)])
        (use inv(2) [OF takes_snapshot(2)] others [OF takes_snapshot(2)] in \<open>simp_all add: txn_inv_def apart_def\<close>)
    then show ?thesis by (simp add: takes_snapshot(1))
  next
    case (executes t x st snapshot k d)
    have "server_inv s'" unfolding executes(1)
    proof (rule server_inv_set [OF assms(2)])
      show "txn_inv (cs_db s) (x\<lparr>tx_script := k, tx_snapshot := None, tx_own := written (cs_db s) d\<rparr>)"
        by (rule txn_inv_executes(1) [OF inv(2) [OF executes(2)] executes(3,5)])
      show "apart (x\<lparr>tx_script := k, tx_snapshot := None, tx_own := written (cs_db s) d\<rparr>) y"
        if "u \<noteq> t" "cs_txns s u = Some y" for u y
        using that executes(6) by (auto simp: apart_def rivals_def)
    qed
    then show ?thesis by (simp add: executes(1))
  next
    case (takes_advisory t x k)
    have "server_inv s'" unfolding takes_advisory(1)
      by (rule server_inv_set [OF assms(2)])
        (use inv(2) [OF takes_advisory(2)] others [OF takes_advisory(2)] takes_advisory(3)
          in \<open>auto simp: txn_inv_def apart_def elim: rel_AdvisoryE\<close>)
    then show ?thesis by (simp add: takes_advisory(1))
  next
    case (commits t x)
    from server_inv_commit [OF assms(2) commits(2)] commits(1) show ?thesis by simp
  next
    case (aborts t x)
    have "server_inv \<lparr>cs_db = cs_db s, cs_txns = (cs_txns s)(t := None), cs_committed = cs_committed s\<rparr>"
      by (rule server_inv_drop [OF assms(2) inv(1)]) (rule inv(2))
    moreover have "s' = \<lparr>cs_db = cs_db s, cs_txns = (cs_txns s)(t := None), cs_committed = cs_committed s\<rparr>"
      by (simp add: aborts(1))
    ultimately show ?thesis by simp
  qed
qed

lemma server_steps_inv:
  assumes "server_step\<^sup>*\<^sup>* s s'" and "server_inv s"
  shows "server_inv s' \<and> db_evolves (cs_db s) (cs_db s')"
  using assms(1)
proof (induction rule: rtranclp_induct)
  case (step y z)
  with server_step_inv [OF step.hyps(2)] show ?case by (blast intro: db_evolves_trans)
qed (simp add: assms(2))

lemma server_start_inv: "db_wf d \<Longrightarrow> server_inv (server_start d)"
  by (simp add: server_inv_def server_start_def)

end
