(* ===== verification/Pg_Exclusion.thy ===== *)
theory Pg_Exclusion
  imports Pg_Concurrent Pg_Properties
begin

text \<open>
  What the store promises when its transactions interleave: the committed database only moves forward,
  sessions of an epoch that has passed are dead, even those of a login that was under way, and of all
  transactions that complete one ceremony at most one commits.
\<close>

section \<open>Scripts that use something up\<close>

text \<open>A script that cannot end well before a statement of its own has made \<open>gone\<close> true.\<close>

inductive spends :: "(db \<Rightarrow> bool) \<Rightarrow> 'a script \<Rightarrow> bool" for gone where
  spends_error: "spends gone (Finish (Inl e))"
| spends_advisory: "spends gone k \<Longrightarrow> spends gone (Advisory k)"
| spends_stmt: "(\<And>snapshot d k d'. db_wf d \<Longrightarrow> st snapshot d = (k, d') \<Longrightarrow>
     spends gone k \<or> \<not> gone d \<and> gone d') \<Longrightarrow> spends gone (Stmt st)"

inductive_cases spends_FinishE: "spends gone (Finish (Inr x))"
inductive_cases spends_AdvisoryE: "spends gone (Advisory k)"
inductive_cases spends_StmtE: "spends gone (Stmt st)"

lemma spends_then: "spends gone scr \<Longrightarrow> spends gone (then_script scr f)"
proof (induction rule: spends.induct)
  case (spends_stmt st)
  show ?case unfolding then_script.simps
  proof (rule spends.spends_stmt)
    fix snapshot d k d'
    assume wf: "db_wf d" and step: "map_prod (\<lambda>k. then_script k f) id (st snapshot d) = (k, d')"
    obtain k0 where k0: "st snapshot d = (k0, d')" "k = then_script k0 f"
      using step by (cases "st snapshot d") simp
    from spends_stmt.IH [OF wf k0(1)] k0(2) show "spends gone k \<or> \<not> gone d \<and> gone d'" by blast
  qed
qed (simp_all add: spends.intros)

lemma spends_later:
  assumes "script_rel R scr" and "\<And>x. spends gone (f x)"
  shows "spends gone (then_script scr f)"
  using assms(1)
proof (induction rule: script_rel.induct)
  case (rel_finish r)
  show ?case by (cases r) (simp_all add: assms(2) spends_error)
next
  case (rel_stmt st)
  show ?case unfolding then_script.simps
  proof (rule spends_stmt)
    fix snapshot d k d'
    assume step: "map_prod (\<lambda>k. then_script k f) id (st snapshot d) = (k, d')"
    obtain k0 where k0: "st snapshot d = (k0, d')" "k = then_script k0 f"
      using step by (cases "st snapshot d") simp
    from rel_stmt.IH [OF k0(1)] k0(2) show "spends gone k \<or> \<not> gone d \<and> gone d'" by simp
  qed
qed (simp add: spends_advisory)

section \<open>Who may use it up\<close>

definition exclusion_inv :: "(db \<Rightarrow> bool) \<Rightarrow> unit script set \<Rightarrow> server \<Rightarrow> bool" where
  "exclusion_inv gone spenders s \<longleftrightarrow>
     (\<forall>t x. cs_txns s t = Some x \<longrightarrow> tx_origin x \<in> spenders \<longrightarrow>
        spends gone (tx_script x) \<or> \<not> gone (cs_db s) \<and> gone (overlay (tx_own x) (cs_db s)))"

definition completions :: "unit script set \<Rightarrow> server \<Rightarrow> nat" where
  "completions spenders s = length (filter (\<lambda>scr. scr \<in> spenders) (cs_committed s))"

text \<open>
  Something that is used up once: it stays gone, it is gone for a transaction alone only by rows of its
  own, two transactions with such rows lock a common value, and the scripts \<open>spenders\<close> use it up.
\<close>

locale one_time =
  fixes gone :: "db \<Rightarrow> bool" and spenders :: "unit script set"
  assumes gone_evolves: "db_evolves d d' \<Longrightarrow> gone d \<Longrightarrow> gone d'"
    and gone_own: "gone (overlay own d) \<Longrightarrow> \<not> gone d \<Longrightarrow> gone own"
    and own_gone: "gone own \<Longrightarrow> ids_ok own \<Longrightarrow> gone (overlay own d)"
    and own_locks: "gone own \<Longrightarrow> gone own2 \<Longrightarrow> locks own \<inter> locks own2 \<noteq> {}"
    and spenders_spend: "scr \<in> spenders \<Longrightarrow> spends gone scr"
begin

lemma one_holder:
  assumes "apart x y" and "\<not> gone d" and "gone (overlay (tx_own x) d)" and "gone (overlay (tx_own y) d)"
  shows False
  using own_locks [OF gone_own [OF assms(3,2)] gone_own [OF assms(4,2)]] assms(1) by (simp add: apart_def)

lemma exclusion_set:
  assumes "exclusion_inv gone spenders s" and "tx_origin x \<in> spenders \<Longrightarrow>
    spends gone (tx_script x) \<or> \<not> gone (cs_db s) \<and> gone (overlay (tx_own x) (cs_db s))"
  shows "exclusion_inv gone spenders (set_txn t x s)"
  using assms by (simp add: exclusion_inv_def)

lemma exclusion_commit:
  assumes "server_inv s" and "exclusion_inv gone spenders s" and "cs_txns s t = Some x" and "tx_script x = Finish (Inr ())"
    and s': "s' = \<lparr>cs_db = overlay (tx_own x) (cs_db s), cs_txns = (cs_txns s)(t := None), cs_committed = finished\<rparr>"
  shows "exclusion_inv gone spenders s'"
    and "tx_origin x \<in> spenders \<Longrightarrow> \<not> gone (cs_db s) \<and> gone (cs_db s')"
proof -
  note inv = server_invD [OF assms(1)]
  have unfinished: "\<not> spends gone (Finish (Inr ()) :: unit script)" by (auto elim: spends_FinishE)
  show "\<not> gone (cs_db s) \<and> gone (cs_db s')" if "tx_origin x \<in> spenders"
    using assms(2-4) that unfinished unfolding exclusion_inv_def s' by (metis server.select_convs(1))
  show "exclusion_inv gone spenders s'"
    unfolding exclusion_inv_def
  proof (intro allI impI)
    fix u y
    assume "cs_txns s' u = Some y" and origin: "tx_origin y \<in> spenders"
    then have u: "u \<noteq> t" "cs_txns s u = Some y" by (auto simp: s' split: if_splits)
    have apart: "apart y x" by (rule inv(3) [OF u(1) u(2) assms(3)])
    have own: "ids_ok (tx_own y)" using inv(2) [OF u(2)] by (simp add: txn_inv_def)
    show "spends gone (tx_script y) \<or> \<not> gone (cs_db s') \<and> gone (overlay (tx_own y) (cs_db s'))"
    proof (cases "spends gone (tx_script y)")
      case False
      then have holds: "\<not> gone (cs_db s)" "gone (overlay (tx_own y) (cs_db s))"
        using assms(2) u(2) origin by (auto simp: exclusion_inv_def)
      have "gone (overlay (tx_own y) (cs_db s'))" by (rule own_gone [OF gone_own [OF holds(2,1)] own])
      moreover have "\<not> gone (cs_db s')" using one_holder [OF apart holds] by (auto simp: s')
      ultimately show ?thesis by blast
    qed simp
  qed
qed

lemma exclusion_executes:
  assumes "server_inv s" and "exclusion_inv gone spenders s" and "cs_txns s t = Some x" and "tx_script x = Stmt st"
    and "st snapshot (overlay (tx_own x) (cs_db s)) = (k, d)" and "tx_origin x \<in> spenders"
  shows "spends gone k \<or> \<not> gone (cs_db s) \<and> gone (overlay (written (cs_db s) d) (cs_db s))"
proof -
  have x: "txn_inv (cs_db s) x" by (rule server_invD(2) [OF assms(1,3)])
  note exec = txn_inv_executes [OF x assms(4,5)]
  have wf: "db_wf (overlay (tx_own x) (cs_db s))" and view: "db_evolves (cs_db s) (overlay (tx_own x) (cs_db s))"
    using x by (simp_all add: txn_inv_def)
  from assms(2,3,6) consider "spends gone (Stmt st)"
    | "\<not> gone (cs_db s)" "gone (overlay (tx_own x) (cs_db s))"
    using assms(4) unfolding exclusion_inv_def by metis
  then show ?thesis
  proof cases
    case 1
    then have "spends gone k \<or> \<not> gone (overlay (tx_own x) (cs_db s)) \<and> gone d"
      by (rule spends_StmtE) (use wf assms(5) in blast)
    with gone_evolves [OF view] exec(2) show ?thesis by auto
  next
    case 2
    with gone_evolves [OF exec(3)] exec(2) show ?thesis by simp
  qed
qed

lemma exclusion_step:
  assumes "server_step s s'" and "server_inv s" and "exclusion_inv gone spenders s"
    and "completions spenders s \<le> (if gone (cs_db s) then 1 else 0)"
  shows "exclusion_inv gone spenders s' \<and> completions spenders s' \<le> (if gone (cs_db s') then 1 else 0)
    \<and> (gone (cs_db s) \<longrightarrow> completions spenders s' = completions spenders s)"
  using assms(1)
proof (cases rule: server_step.cases)
  case (begins scr t)
  have "exclusion_inv gone spenders s'" unfolding begins(1)
    by (rule exclusion_set [OF assms(3)]) (simp add: spenders_spend)
  then show ?thesis using assms(4) by (simp add: begins(1) completions_def)
next
  case (takes_snapshot t x st)
  have "exclusion_inv gone spenders s'" unfolding takes_snapshot(1)
    by (rule exclusion_set [OF assms(3)]) (use assms(3) takes_snapshot(2) in \<open>auto simp: exclusion_inv_def\<close>)
  then show ?thesis using assms(4) by (simp add: takes_snapshot(1) completions_def)
next
  case (executes t x st snapshot k d)
  have "exclusion_inv gone spenders s'" unfolding executes(1)
    by (rule exclusion_set [OF assms(3)])
      (use exclusion_executes [OF assms(2,3) executes(2,3,5)] in simp)
  then show ?thesis using assms(4) by (simp add: executes(1) completions_def)
next
  case (takes_advisory t x k)
  have "exclusion_inv gone spenders s'" unfolding takes_advisory(1)
    by (rule exclusion_set [OF assms(3)])
      (use assms(3) takes_advisory(2,3) in \<open>fastforce simp: exclusion_inv_def elim: spends_AdvisoryE\<close>)
  then show ?thesis using assms(4) by (simp add: takes_advisory(1) completions_def)
next
  case (commits t x)
  note commit = exclusion_commit [OF assms(2,3) commits(2,3,1)]
  have ev: "db_evolves (cs_db s) (cs_db s')" unfolding commits(1)
    using server_inv_commit(2) [OF assms(2) commits(2)] by simp
  show ?thesis
  proof (cases "tx_origin x \<in> spenders")
    case True
    with commit(2) commit(1) assms(4) show ?thesis by (simp add: commits(1) completions_def)
  next
    case False
    then have "completions spenders s' = completions spenders s" by (simp add: commits(1) completions_def)
    with commit(1) assms(4) gone_evolves [OF ev] show ?thesis by (auto split: if_splits)
  qed
next
  case (aborts t x)
  have "exclusion_inv gone spenders s'" using assms(3) by (auto simp: aborts(1) exclusion_inv_def split: if_splits)
  then show ?thesis using assms(4) by (simp add: aborts(1) completions_def)
qed

lemma exclusion_steps:
  assumes "server_step\<^sup>*\<^sup>* (server_start d) s" and "db_wf d"
  shows "server_inv s \<and> exclusion_inv gone spenders s \<and> completions spenders s \<le> (if gone (cs_db s) then 1 else 0)
    \<and> (gone d \<longrightarrow> completions spenders s = 0 \<and> gone (cs_db s))"
  using assms(1)
proof (induction rule: rtranclp_induct)
  case base
  show ?case using server_start_inv [OF assms(2)]
    by (simp add: exclusion_inv_def completions_def server_start_def)
next
  case (step s s')
  then have "server_inv s' \<and> db_evolves (cs_db s) (cs_db s')" using server_step_inv [OF step.hyps(2)] by blast
  with step.IH exclusion_step [OF step.hyps(2)] gone_evolves [of "cs_db s" "cs_db s'"] show ?case by auto
qed

lemma at_most_once:
  assumes "server_step\<^sup>*\<^sup>* (server_start d) s" and "db_wf d"
  shows "completions spenders s \<le> 1
    \<and> (if gone d then completions spenders s = 0 else completions spenders s = 1 \<longrightarrow> gone (cs_db s))"
proof -
  have steps: "completions spenders s \<le> (if gone (cs_db s) then 1 else 0)"
    "gone d \<Longrightarrow> completions spenders s = 0"
    using exclusion_steps [OF assms] by simp_all
  then show ?thesis by (cases "gone (cs_db s)") simp_all
qed

end

section \<open>Ceremonies\<close>

definition ceremony_spent :: "uuid \<Rightarrow> db \<Rightarrow> bool" where
  "ceremony_spent w d \<longleftrightarrow> (\<exists>c\<in>set (db_ceremonies d). ce_id c = w \<and> ce_consumed_at c \<noteq> None)"

definition ceremony_scripts :: "uuid \<Rightarrow> unit script set" where
  "ceremony_scripts w = {registration_script i w oh credential now audit | i oh credential now audit. True}
     \<union> {authentication_script w verification login now audit | verification login now audit. True}"

lemma spends_ceremony:
  assumes "\<And>c. P c \<Longrightarrow> ce_id c = w \<and> ce_consumed_at c = None" and "spends (ceremony_spent w) (f [])"
  shows "spends (ceremony_spent w) (then_script (ceremonies_update P now) f)"
  unfolding ceremonies_update_def send_def then_script.simps
proof (rule spends_stmt)
  fix snapshot d k d'
  let ?Q = "rechecked ce_id (db_ceremonies snapshot) P"
  let ?consume = "\<lambda>c. c\<lparr>ce_consumed_at := Some now\<rparr>"
  assume wf: "db_wf d" and "map_prod (\<lambda>k. then_script k f) id
    (case upd_ceremonies_consumed ?Q now d of Inl e \<Rightarrow> (Finish (Inl Store), d) | Inr (x, d') \<Rightarrow> (Finish (Inr x), d')) = (k, d')"
  then have k: "k = f (filter ?Q (db_ceremonies d))"
    and d': "d' = d\<lparr>db_ceremonies := update_where ?Q ?consume (db_ceremonies d)\<rparr>"
    by (simp_all add: upd_ceremonies_consumed_def)
  show "spends (ceremony_spent w) k \<or> \<not> ceremony_spent w d \<and> ceremony_spent w d'"
  proof (cases "filter ?Q (db_ceremonies d)")
    case Nil
    with k assms(2) show ?thesis by simp
  next
    case (Cons c cs)
    then have "c \<in> set (filter ?Q (db_ceremonies d))" by simp
    then have c: "c \<in> set (db_ceremonies d)" "?Q c" by simp_all
    then have open': "ce_id c = w" "ce_consumed_at c = None" using assms(1) by (simp_all add: rechecked_def)
    have "inj_on ce_id (set (db_ceremonies d))" using wf by (simp add: db_wf_def ceremonies_wf_def distinct_map)
    then have "\<not> ceremony_spent w d" using c(1) open' by (auto simp: ceremony_spent_def dest: inj_onD)
    moreover have "?consume c \<in> set (db_ceremonies d')" using c by (auto simp: d' set_update_where)
    then have "ceremony_spent w d'" using open' unfolding ceremony_spent_def by (intro bexI [of _ "?consume c"]) simp_all
    ultimately show ?thesis by blast
  qed
qed

lemma ceremony_scripts_spend: "scr \<in> ceremony_scripts w \<Longrightarrow> spends (ceremony_spent w) scr"
proof -
  have consume: "spends (ceremony_spent w) (consume_ceremony_script w now)" for now
    unfolding consume_ceremony_script_def by (rule spends_ceremony) (simp_all add: spends_error)
  have "spends (ceremony_spent w) (registration_script i w oh credential now audit)" for i oh credential now audit
    unfolding registration_script_def then_script.simps by (simp add: spends_advisory spends_then consume)
  moreover have "spends (ceremony_spent w) (authentication_script w verification login now audit)"
    for verification login now audit
    unfolding authentication_script_def by (rule spends_ceremony) (simp_all add: spends_error)
  ultimately show "scr \<in> ceremony_scripts w \<Longrightarrow> spends (ceremony_spent w) scr" by (auto simp: ceremony_scripts_def)
qed

lemma ceremony_spent_evolves: "db_evolves d d' \<Longrightarrow> ceremony_spent w d \<Longrightarrow> ceremony_spent w d'"
  unfolding ceremony_spent_def db_evolves_def
  by (auto dest!: grows_member [where rel = ceremony_evolves] simp: ceremony_evolves_def sticks_def) (metis option.distinct(1))

lemma ceremony_spent_locks: "ceremony_spent w own \<Longrightarrow> Ceremony_row w \<in> locks own"
  by (auto simp: ceremony_spent_def locks_mem)

interpretation ceremony: one_time "ceremony_spent w" "ceremony_scripts w" for w
proof unfold_locales
  fix own d own2 :: db
  show "ceremony_spent w own" if "ceremony_spent w (overlay own d)" "\<not> ceremony_spent w d"
    using that overlay_from unfolding ceremony_spent_def overlay_tables by metis
  show "ceremony_spent w (overlay own d)" if "ceremony_spent w own" "ids_ok own"
    using that overlay_has [of ce_id "db_ceremonies own"] unfolding ceremony_spent_def overlay_tables ids_ok_def by metis
  show "locks own \<inter> locks own2 \<noteq> {}" if "ceremony_spent w own" "ceremony_spent w own2"
    using that ceremony_spent_locks by blast
qed (fact ceremony_spent_evolves, fact ceremony_scripts_spend)

section \<open>Capabilities\<close>

definition capability_spent :: "bytes \<Rightarrow> db \<Rightarrow> bool" where
  "capability_spent h d \<longleftrightarrow> (\<exists>c\<in>set (db_capabilities d). ca_token_hash c = h \<and> ca_consumed_at c \<noteq> None)"

definition capability_scripts :: "secret_hash \<Rightarrow> unit script set" where
  "capability_scripts h = {registration_script i w (Some h) credential now audit | i w credential now audit. True}"

lemma spends_capability:
  assumes "\<And>c. P c \<Longrightarrow> ca_token_hash c = h \<and> ca_consumed_at c = None" and "spends (capability_spent h) (f [])"
  shows "spends (capability_spent h) (then_script (capabilities_update P now) f)"
  unfolding capabilities_update_def send_def then_script.simps
proof (rule spends_stmt)
  fix snapshot d k d'
  let ?Q = "rechecked ca_id (db_capabilities snapshot) P"
  let ?consume = "\<lambda>c. c\<lparr>ca_consumed_at := Some now\<rparr>"
  assume wf: "db_wf d" and "map_prod (\<lambda>k. then_script k f) id
    (case upd_capabilities_consumed ?Q now d of Inl e \<Rightarrow> (Finish (Inl Store), d) | Inr (x, d') \<Rightarrow> (Finish (Inr x), d')) = (k, d')"
  then have k: "k = f (filter ?Q (db_capabilities d))"
    and d': "d' = d\<lparr>db_capabilities := update_where ?Q ?consume (db_capabilities d)\<rparr>"
    by (simp_all add: upd_capabilities_consumed_def)
  show "spends (capability_spent h) k \<or> \<not> capability_spent h d \<and> capability_spent h d'"
  proof (cases "filter ?Q (db_capabilities d)")
    case Nil
    with k assms(2) show ?thesis by simp
  next
    case (Cons c cs)
    then have "c \<in> set (filter ?Q (db_capabilities d))" by simp
    then have c: "c \<in> set (db_capabilities d)" "?Q c" by simp_all
    then have open': "ca_token_hash c = h" "ca_consumed_at c = None" using assms(1) by (simp_all add: rechecked_def)
    have "inj_on ca_token_hash (set (db_capabilities d))" using wf by (simp add: db_wf_def capabilities_wf_def distinct_map)
    then have "\<not> capability_spent h d" using c(1) open' by (auto simp: capability_spent_def dest: inj_onD)
    moreover have "?consume c \<in> set (db_capabilities d')" using c by (auto simp: d' set_update_where)
    then have "capability_spent h d'" using open' unfolding capability_spent_def by (intro bexI [of _ "?consume c"]) simp_all
    ultimately show ?thesis by blast
  qed
qed

lemma capability_scripts_spend: "scr \<in> capability_scripts h \<Longrightarrow> spends (capability_spent (as_bytes h)) scr"
proof -
  have consume: "spends (capability_spent (as_bytes h)) (consume_capability_script (Some h) now)" for now
    unfolding consume_capability_script_def option.case by (rule spends_capability) (simp_all add: spends_error)
  have "spends (capability_spent (as_bytes h)) (registration_script i w (Some h) credential now audit)"
    for i w credential now audit
    unfolding registration_script_def then_script.simps sum.case
    by (rule spends_advisory, rule spends_later [OF env.part_script_rels(3)], split prod.split, intro allI impI,
        rule spends_later [OF env.part_script_rels(4)], rule spends_then [OF consume])
  then show "scr \<in> capability_scripts h \<Longrightarrow> spends (capability_spent (as_bytes h)) scr" by (auto simp: capability_scripts_def)
qed

lemma capability_spent_evolves: "db_evolves d d' \<Longrightarrow> capability_spent h d \<Longrightarrow> capability_spent h d'"
  unfolding capability_spent_def db_evolves_def
  by (auto dest!: grows_member [where rel = capability_evolves] simp: capability_evolves_def sticks_def) (metis option.distinct(1))

lemma capability_spent_locks: "capability_spent h own \<Longrightarrow> Capability_hash h \<in> locks own"
  by (auto simp: capability_spent_def locks_mem)

interpretation capability: one_time "capability_spent (as_bytes h)" "capability_scripts h" for h
proof unfold_locales
  fix own d own2 :: db
  show "capability_spent (as_bytes h) own" if "capability_spent (as_bytes h) (overlay own d)" "\<not> capability_spent (as_bytes h) d"
    using that overlay_from unfolding capability_spent_def overlay_tables by metis
  show "capability_spent (as_bytes h) (overlay own d)" if "capability_spent (as_bytes h) own" "ids_ok own"
    using that overlay_has [of ca_id "db_capabilities own"] unfolding capability_spent_def overlay_tables ids_ok_def by metis
  show "locks own \<inter> locks own2 \<noteq> {}" if "capability_spent (as_bytes h) own" "capability_spent (as_bytes h) own2"
    using that capability_spent_locks by blast
qed (fact capability_spent_evolves, fact capability_scripts_spend)

section \<open>A transaction alone\<close>

text \<open>A script that ends well when it is run alone commits on the server what it leaves.\<close>

lemma alone_finishes:
  assumes "alone scr d (Inr ()) d'" and "cs_txns s = [t \<mapsto> x]" and "tx_script x = scr" and "tx_snapshot x = None"
    and "overlay (tx_own x) (cs_db s) = d" and "server_inv s"
  shows "\<exists>y. server_step\<^sup>*\<^sup>* s (set_txn t y s) \<and> tx_script y = Finish (Inr ()) \<and> tx_origin y = tx_origin x
    \<and> overlay (tx_own y) (cs_db s) = d'"
  using assms
proof (induction scr d "Inr () :: auth_error + unit" d' arbitrary: s x rule: alone.induct)
  case (alone_finish d)
  have "set_txn t x s = s" by (cases s) (use alone_finish(1) in simp)
  then have "server_step\<^sup>*\<^sup>* s (set_txn t x s)" by (simp only: rtranclp.rtrancl_refl)
  with alone_finish show ?case by blast
next
  case (alone_stmt st d k d1 d')
  let ?x1 = "x\<lparr>tx_snapshot := Some d\<rparr>"
  let ?x2 = "?x1\<lparr>tx_script := k, tx_snapshot := None, tx_own := written (cs_db s) d1\<rparr>"
  let ?s2 = "set_txn t ?x2 (set_txn t ?x1 s)"
  have s1: "server_step s (set_txn t ?x1 s)"
    using takes_snapshot [of s t x st] alone_stmt.prems by simp
  have inv1: "server_inv (set_txn t ?x1 s)" using server_step_inv [OF s1] alone_stmt.prems by blast
  have s2: "server_step (set_txn t ?x1 s) ?s2"
    using executes [of "set_txn t ?x1 s" t ?x1 st d k d1] alone_stmt.prems alone_stmt.hyps(1) by (simp add: rivals_def)
  have inv2: "server_inv ?s2" using server_step_inv [OF s2 inv1] by blast
  have "txn_inv (cs_db s) x" using server_invD alone_stmt.prems by auto
  from txn_inv_executes(2) [OF this, of st d k d1] alone_stmt.prems alone_stmt.hyps(1)
  have "overlay (written (cs_db s) d1) (cs_db s) = d1" by simp
  then obtain y where y: "server_step\<^sup>*\<^sup>* ?s2 (set_txn t y ?s2)"
      "tx_script y = Finish (Inr ())" "tx_origin y = tx_origin x" "overlay (tx_own y) (cs_db s) = d'"
    using alone_stmt.hyps(3) [of ?s2 ?x2] alone_stmt.prems inv2 by auto
  from s1 s2 y(1) have "server_step\<^sup>*\<^sup>* s (set_txn t y s)" by (simp add: converse_rtranclp_into_rtranclp)
  with y(2-4) show ?case by blast
next
  case (alone_advisory k d d')
  let ?x1 = "x\<lparr>tx_script := k, tx_advisory := True\<rparr>"
  have s1: "server_step s (set_txn t ?x1 s)"
    using takes_advisory [of s t x k] alone_advisory.prems by (simp add: rivals_def)
  have "server_inv (set_txn t ?x1 s)" using server_step_inv [OF s1] alone_advisory.prems by blast
  then obtain y where y: "server_step\<^sup>*\<^sup>* (set_txn t ?x1 s) (set_txn t y (set_txn t ?x1 s))"
      "tx_script y = Finish (Inr ())" "tx_origin y = tx_origin x" "overlay (tx_own y) (cs_db s) = d'"
    using alone_advisory.hyps(2) [of "set_txn t ?x1 s" ?x1] alone_advisory.prems by auto
  from s1 y(1) have "server_step\<^sup>*\<^sup>* s (set_txn t y s)" by (simp add: converse_rtranclp_into_rtranclp)
  with y(2-4) show ?case by blast
qed

text \<open>A call that succeeds alone, from its first statement to the state before its commit and beyond.\<close>

lemma transacts_runs:
  assumes "transacts clock int4 scr f" and "served clock int4 s" and "f s = (Inr (), s')"
    and "store_script scr" and "db_wf (pg_db s)"
  obtains t where "server_step\<^sup>*\<^sup>* (server_start (pg_db s)) t"
    and "server_step t \<lparr>cs_db = pg_db s', cs_txns = Map.empty, cs_committed = [scr]\<rparr>"
    and "cs_db t = pg_db s" and "cs_committed t = []"
proof -
  from assms(1-3) have alone: "alone scr (pg_db s) (Inr ()) (pg_db s')"
    unfolding transacts_def by fastforce
  let ?x = "\<lparr>tx_origin = scr, tx_script = scr, tx_snapshot = None, tx_own = db_empty, tx_advisory = False\<rparr>"
  let ?s = "set_txn 0 ?x (server_start (pg_db s))"
  have begun: "server_step (server_start (pg_db s)) ?s"
    using assms(4) by (intro begins) (simp_all add: server_start_def)
  have inv: "server_inv ?s"
    using server_step_inv [OF begun server_start_inv [OF assms(5)]] by blast
  have "\<exists>y. server_step\<^sup>*\<^sup>* ?s (set_txn 0 y ?s) \<and> tx_script y = Finish (Inr ()) \<and> tx_origin y = tx_origin ?x
      \<and> overlay (tx_own y) (cs_db ?s) = pg_db s'"
    by (rule alone_finishes [OF alone, of ?s 0 ?x]) (simp_all add: server_start_def inv [unfolded server_start_def, simplified])
  then obtain y where y: "server_step\<^sup>*\<^sup>* ?s (set_txn 0 y ?s)" "tx_script y = Finish (Inr ())"
      "tx_origin y = scr" "overlay (tx_own y) (pg_db s) = pg_db s'" by (auto simp: server_start_def)
  let ?t = "set_txn 0 y ?s"
  have "server_step\<^sup>*\<^sup>* (server_start (pg_db s)) ?t" using begun y(1) by (rule converse_rtranclp_into_rtranclp)
  moreover have "server_step ?t \<lparr>cs_db = pg_db s', cs_txns = Map.empty, cs_committed = [scr]\<rparr>"
    using commits [of ?t 0 y] y(2-4) by (simp add: server_start_def)
  ultimately show ?thesis by (rule that) (simp_all add: server_start_def)
qed

lemma demo_commits:
  assumes "transacts 100 False scr f" and "\<exists>s1. f demo_pg = (Inr (), s1)" and "store_script scr"
  shows "\<exists>s. server_step\<^sup>*\<^sup>* (server_start demo_db) s \<and> cs_committed s = [scr]"
proof -
  obtain s1 where "f demo_pg = (Inr (), s1)" using assms(2) by blast
  moreover have "served 100 False demo_pg" and "pg_db demo_pg = demo_db" by (simp_all add: served_def demo_pg_def)
  ultimately obtain t where "server_step\<^sup>*\<^sup>* (server_start demo_db) t"
      "server_step t \<lparr>cs_db = pg_db s1, cs_txns = Map.empty, cs_committed = [scr]\<rparr>"
    using transacts_runs [OF assms(1) _ _ assms(3), of demo_pg s1] demo_pg_wf by metis
  then have "server_step\<^sup>*\<^sup>* (server_start demo_db) \<lparr>cs_db = pg_db s1, cs_txns = Map.empty, cs_committed = [scr]\<rparr>"
    by (rule rtranclp.rtrancl_into_rtrancl)
  moreover have "cs_committed \<lparr>cs_db = pg_db s1, cs_txns = Map.empty, cs_committed = [scr]\<rparr> = [scr]" by simp
  ultimately show ?thesis by blast
qed

section \<open>Properties\<close>

text \<open>
  C23: The schema holds whatever interleaves.  Every committed database, and every database a statement
  of a running transaction sees, keeps all keys, unique columns, references and checks, and the state
  machine of recoveries, when statements of any transactions of the store interleave and abort at any
  point.
\<close>

theorem concurrent_db_wf:
  assumes "db_wf d" and "server_step\<^sup>*\<^sup>* (server_start d) s"
  shows "db_wf (cs_db s) \<and> (\<forall>t x. cs_txns s t = Some x \<longrightarrow> db_wf (overlay (tx_own x) (cs_db s)))"
proof -
  have "server_inv s" using server_steps_inv [OF assms(2) server_start_inv [OF assms(1)]] by blast
  then show ?thesis by (simp add: server_inv_def txn_inv_def)
qed

theorem concurrent_db_wf_witness:
  "\<exists>s. server_step\<^sup>*\<^sup>* (server_start demo_db) s \<and> cs_committed s \<noteq> [] \<and> db_wf (cs_db s)"
proof -
  have "transacts 100 False (registration_script 12 22 (Some (SecretHash (demo_hash 3)))
      \<lparr>vc_credential_id = [4, 5], vc_public_data = JNull\<rparr> 100 demo_audit) (demo_register 12)"
    unfolding demo_register_def using transacts_store by blast
  from demo_commits [OF this demo_register_ok script_registration]
  obtain s where s: "server_step\<^sup>*\<^sup>* (server_start demo_db) s" "cs_committed s \<noteq> []" by auto
  have "db_wf demo_db" using demo_pg_wf by (simp add: demo_pg_def)
  from concurrent_db_wf [OF this s(1)] s show ?thesis by blast
qed

text \<open>
  C24: A ceremony is completed at most once, whatever interleaves.  Of all transactions that complete
  one ceremony, registrations and logins, at most one commits, and none when it was consumed to begin
  with; statements of any transactions of the store run in between, transactions abort at any point,
  and statements wait only for the rows they write.
\<close>

theorem concurrent_ceremony_once:
  assumes "db_wf d" and "server_step\<^sup>*\<^sup>* (server_start d) s"
  shows "completions (ceremony_scripts w) s \<le> 1
    \<and> (if ceremony_spent w d then completions (ceremony_scripts w) s = 0
       else completions (ceremony_scripts w) s = 1 \<longrightarrow> ceremony_spent w (cs_db s))"
  by (rule ceremony.at_most_once [OF assms(2,1)])

theorem concurrent_ceremony_once_witness:
  "\<exists>s. server_step\<^sup>*\<^sup>* (server_start demo_db) s \<and> completions (ceremony_scripts 21) s = 1
     \<and> \<not> ceremony_spent 21 demo_db \<and> ceremony_spent 21 (cs_db s)"
proof -
  let ?v = "\<lparr>av_credential_id = [1, 2, 3], av_updated_public_data = JNull\<rparr>"
  let ?scr = "authentication_script 21 ?v demo_record 100 demo_audit"
  have "transacts 100 False ?scr demo_complete" unfolding demo_complete_def using transacts_store by blast
  from demo_commits [OF this demo_complete_ok script_authentication]
  obtain s where s: "server_step\<^sup>*\<^sup>* (server_start demo_db) s" "cs_committed s = [?scr]" by blast
  have "?scr \<in> ceremony_scripts 21" unfolding ceremony_scripts_def by blast
  then have "completions (ceremony_scripts 21) s = 1" using s(2) by (simp add: completions_def)
  moreover have "db_wf demo_db" using demo_pg_wf by (simp add: demo_pg_def)
  ultimately show ?thesis using concurrent_ceremony_once [OF _ s(1), of 21] s(1) by (auto split: if_splits)
qed

text \<open>
  C25: A token registers at most one passkey, whatever interleaves.  Of all registrations with the hash
  of one setup or recovery token at most one commits, whatever ceremonies they complete, and none when
  the capability was consumed to begin with.
\<close>

theorem concurrent_capability_once:
  assumes "db_wf d" and "server_step\<^sup>*\<^sup>* (server_start d) s"
  shows "completions (capability_scripts h) s \<le> 1
    \<and> (if capability_spent (as_bytes h) d then completions (capability_scripts h) s = 0
       else completions (capability_scripts h) s = 1 \<longrightarrow> capability_spent (as_bytes h) (cs_db s))"
  by (rule capability.at_most_once [OF assms(2,1)])

theorem concurrent_capability_once_witness:
  "\<exists>s. server_step\<^sup>*\<^sup>* (server_start demo_db) s \<and> completions (capability_scripts (SecretHash (demo_hash 3))) s = 1
     \<and> capability_spent (demo_hash 3) (cs_db s)"
proof -
  let ?h = "SecretHash (demo_hash 3)"
  let ?scr = "registration_script 12 22 (Some ?h) \<lparr>vc_credential_id = [4, 5], vc_public_data = JNull\<rparr> 100 demo_audit"
  have "transacts 100 False ?scr (demo_register 12)" unfolding demo_register_def using transacts_store by blast
  from demo_commits [OF this demo_register_ok script_registration]
  obtain s where s: "server_step\<^sup>*\<^sup>* (server_start demo_db) s" "cs_committed s = [?scr]" by blast
  have "?scr \<in> capability_scripts ?h" unfolding capability_scripts_def by blast
  then have "completions (capability_scripts ?h) s = 1" using s(2) by (simp add: completions_def)
  moreover have "db_wf demo_db" using demo_pg_wf by (simp add: demo_pg_def)
  ultimately show ?thesis using concurrent_capability_once [OF _ s(1), of ?h] s(1) by (auto split: if_splits)
qed

text \<open>
  C28: What has passed stays past, whatever interleaves.  Over any interleaving of the transactions the
  committed database only moves forward: rows stay, what is consumed, revoked, approved or completed
  stays so, epochs do not decrease, the audit log is appended to.  And a session of an epoch before the
  one its user has reached in the committed database is never live again, also when the login that
  inserts it was under way and commits later.
\<close>

theorem concurrent_history:
  assumes "db_wf d" and "server_step\<^sup>*\<^sup>* (server_start d) s" and "server_step\<^sup>*\<^sup>* s s'"
  shows "db_evolves (cs_db s) (cs_db s')
    \<and> (\<forall>v\<in>set (db_users (cs_db s)). \<forall>n\<in>set (db_sessions (cs_db s')).
         se_user_id n = ur_id v \<and> se_auth_epoch n < ur_auth_epoch v \<longrightarrow>
         (\<forall>u\<in>set (db_users (cs_db s')). \<forall>now. \<not> session_live now n u))"
proof -
  have "server_inv s" using server_steps_inv [OF assms(2) server_start_inv [OF assms(1)]] by blast
  from server_steps_inv [OF assms(3) this]
  have inv: "server_inv s'" and ev: "db_evolves (cs_db s) (cs_db s')" by simp_all
  have "\<not> session_live now n u"
    if v: "v \<in> set (db_users (cs_db s))" and n: "se_user_id n = ur_id v" "se_auth_epoch n < ur_auth_epoch v"
      and u: "u \<in> set (db_users (cs_db s'))" for v n u now
  proof
    assume live: "session_live now n u"
    have "grows user_evolves (db_users (cs_db s)) (db_users (cs_db s'))" using ev unfolding db_evolves_def by (rule conjunct1)
    from grows_member [OF this v] obtain v' where v': "v' \<in> set (db_users (cs_db s'))" "user_evolves v v'" ..
    have "inj_on ur_id (set (db_users (cs_db s')))"
      using server_invD(1) [OF inv] by (simp add: db_wf_def users_wf_def distinct_map)
    moreover have "ur_id v' = ur_id u" using live n(1) v'(2) by (simp add: session_live_def user_evolves_def)
    ultimately have "v' = u" using v'(1) u by (meson inj_onD)
    with live n(2) v'(2) show False by (simp add: session_live_def user_evolves_def)
  qed
  with ev show ?thesis by blast
qed

theorem concurrent_history_witness:
  "\<exists>s. server_step\<^sup>*\<^sup>* (server_start demo_db) s \<and> cs_committed s = [approve_recovery_script 51 (UserId ''operator'') 100]
     \<and> db_evolves demo_db (cs_db s)"
proof -
  let ?scr = "approve_recovery_script 51 (UserId ''operator'') 100"
  have "transacts 100 False ?scr (approve_recovery 51 (UserId ''operator'') 100)" using transacts_store by blast
  from demo_commits [OF this demo_approve_ok script_approve_recovery]
  obtain s where s: "server_step\<^sup>*\<^sup>* (server_start demo_db) s" "cs_committed s = [?scr]" by blast
  have "db_wf demo_db" using demo_pg_wf by (simp add: demo_pg_def)
  from concurrent_history [OF this rtranclp.rtrancl_refl s(1)] s show ?thesis by (auto simp: server_start_def)
qed

end
