(* ===== verification/Pg_Bootstrap.thy ===== *)
theory Pg_Bootstrap
  imports Pg_Exclusion
begin

text \<open>
  The advisory lock of \<open>complete_registration\<close>.  A registration takes the lock before anything else,
  and only registrations insert passkeys; so what the check of a bootstrap finds, that no operator has
  a passkey, still holds when the bootstrap commits, whatever interleaves.
\<close>

section \<open>Passkeys are inserted under the lock\<close>

definition same_credentials :: "db \<Rightarrow> db \<Rightarrow> bool" where
  "same_credentials d d' \<longleftrightarrow> map cr_id (db_credentials d') = map cr_id (db_credentials d)"

inductive locked :: "bool \<Rightarrow> 'a script \<Rightarrow> bool" where
  locked_finish: "locked b (Finish r)"
| locked_advisory: "locked True k \<Longrightarrow> locked b (Advisory k)"
| locked_stmt: "(\<And>snapshot d k d'. st snapshot d = (k, d') \<Longrightarrow> locked b k \<and> (b \<or> same_credentials d d')) \<Longrightarrow>
     locked b (Stmt st)"

inductive_cases locked_StmtE: "locked b (Stmt st)"
inductive_cases locked_AdvisoryE: "locked b (Advisory k)"

lemma locked_holding: "script_rel R scr \<Longrightarrow> locked True scr"
  by (induction rule: script_rel.induct) (blast intro: locked.intros)+

lemma locked_same: "script_rel same_credentials scr \<Longrightarrow> locked b scr"
proof (induction rule: script_rel.induct)
  case (rel_advisory k)
  show ?case by (rule locked_advisory) (rule locked_holding [OF rel_advisory.hyps])
next
  case (rel_stmt st)
  show ?case by (rule locked_stmt) (use rel_stmt.IH in blast)
qed (rule locked_finish)

lemma same_send:
  assumes "\<And>snapshot d x d'. st snapshot d = Inr (x, d') \<Longrightarrow> same_credentials d d'"
  shows "script_rel same_credentials (send err st)"
  unfolding send_def
proof (rule rel_stmt)
  fix snapshot d k d'
  assume "(case st snapshot d of Inl e \<Rightarrow> (Finish (Inl (err e)), d) | Inr (x, d') \<Rightarrow> (Finish (Inr x), d')) = (k, d')"
  then show "script_rel same_credentials k \<and> same_credentials d d'"
    using assms by (auto simp: same_credentials_def intro: rel_finish split: sum.splits)
qed

lemma same_stmts:
  "script_rel same_credentials (send err (\<lambda>_. ins_user u))"
  "script_rel same_credentials (send err (\<lambda>_. ins_capability c))"
  "script_rel same_credentials (send err (\<lambda>_. ins_ceremony e))"
  "script_rel same_credentials (send err (\<lambda>_. ins_session n))"
  "script_rel same_credentials (send err (\<lambda>_. ins_recovery q))"
  "script_rel same_credentials (send err (\<lambda>_. ins_audit a))"
  "script_rel same_credentials (send err (\<lambda>d. upd_users_epoch (A d) now))"
  "script_rel same_credentials (send err (\<lambda>d. upd_credentials_used (B d) data now))"
  "script_rel same_credentials (send err (\<lambda>d. upd_credentials_revoked (B d) now))"
  "script_rel same_credentials (send err (\<lambda>d. upd_capabilities_consumed (C d) now))"
  "script_rel same_credentials (send err (\<lambda>d. upd_ceremonies_consumed (D d) now))"
  "script_rel same_credentials (send err (\<lambda>d. upd_sessions_revoked (E d) now))"
  "script_rel same_credentials (send err (\<lambda>_. upd_session_seen sid csrf idle now))"
  "script_rel same_credentials (send err (\<lambda>d. upd_recoveries_approved (F d) now operator))"
  "script_rel same_credentials (send err (\<lambda>d. upd_recoveries_issued (F d) now))"
  "script_rel same_credentials (send err (\<lambda>d. upd_recoveries_completed (F d) now))"
  "script_rel same_credentials (send err (\<lambda>d. select (f d)))"
  by (rule same_send; auto simp: same_credentials_def stmt_defs select_def Let_def map_update_where split: if_splits)+

lemma same_updates:
  "script_rel same_credentials (epoch_update A now)" "script_rel same_credentials (sessions_update B now)"
  "script_rel same_credentials (ceremonies_update C now)" "script_rel same_credentials (capabilities_update D now)"
  unfolding update_scripts by (rule same_stmts)+

lemmas same_intros = script_rel_then script_rel_cases same_stmts same_updates rel_finish rel_advisory

lemma same_parts:
  "script_rel same_credentials (audit_script event now)" "script_rel same_credentials (capability_script c clock)"
  "script_rel same_credentials (user_script u now)" "script_rel same_credentials (invalidate_script owner now)"
  unfolding audit_script_def capability_script_def user_script_def invalidate_script_def
  by (intro same_intros)+

lemma store_script_locked: "store_script scr \<Longrightarrow> locked False scr"
proof (induction rule: store_script.induct)
  case (script_registration new_id w oh credential now audit)
  from env.store_script_rel [OF store_script.script_registration [of new_id w oh credential now audit]]
  show ?case
    unfolding registration_script_def then_script.simps
    by (auto elim!: rel_AdvisoryE intro: locked_advisory locked_holding)
qed (rule locked_same, (unfold insert_user_script_def approve_user_script_def rotate_script_def
    authentication_script_def touch_script_def approve_recovery_script_def issue_setup_script_def
    break_glass_script_def insert_capability_script_def insert_ceremony_script_def delete_session_script_def
    create_recovery_script_def void_script_def)?, (intro same_parts same_intros)[1])+

section \<open>The check of a bootstrap\<close>

definition other_kind :: "uuid \<Rightarrow> db \<Rightarrow> bool" where
  "other_kind w d \<longleftrightarrow> (\<exists>c\<in>set (db_ceremonies d). ce_id c = w \<and> ce_kind c \<noteq> ''operator_bootstrap'')"

text \<open>
  What is left of a registration before its check: when the ceremony is a bootstrap, it cannot end well
  without the lock and a statement whose snapshot has no passkey of an operator, and until then it
  writes neither users nor passkeys.
\<close>

inductive guarded :: "uuid \<Rightarrow> bool \<Rightarrow> 'a script \<Rightarrow> bool" for w where
  guarded_error: "guarded w b (Finish (Inl e))"
| guarded_advisory: "guarded w True k \<Longrightarrow> guarded w b (Advisory k)"
| guarded_stmt: "(\<And>snapshot d k d'. \<not> other_kind w d \<Longrightarrow> st snapshot d = (k, d') \<Longrightarrow>
     guarded w b k \<and> db_users d' = db_users d \<and> db_credentials d' = db_credentials d
     \<or> b \<and> operator_credentials snapshot = []) \<Longrightarrow> guarded w b (Stmt st)"

inductive_cases guarded_FinishE: "guarded w b (Finish (Inr x))"
inductive_cases guarded_AdvisoryE: "guarded w b (Advisory k)"
inductive_cases guarded_StmtE: "guarded w b (Stmt st)"

lemma check_guarded: "guarded w True (then_script (check_bootstrap_script ''operator_bootstrap'') f)"
  unfolding check_bootstrap_script_def send_def then_script.simps
  by (auto intro!: guarded_stmt guarded_error simp: select_def)

lemma registration_guarded: "guarded w b (registration_script i w oh credential now audit)"
  unfolding registration_script_def consume_ceremony_script_def ceremonies_update_def send_def then_script.simps sum.case
proof (rule guarded_advisory, rule guarded_stmt, goal_cases)
  case (1 snapshot d k d')
  let ?Q = "rechecked ce_id (db_ceremonies snapshot) (\<lambda>c. ce_id c = w \<and> ce_consumed_at c = None \<and> now < ce_expires_at c)"
  show ?case
  proof (cases "filter ?Q (db_ceremonies d)")
    case Nil
    with 1(2) show ?thesis by (auto simp: upd_ceremonies_consumed_def intro: guarded_error)
  next
    case (Cons c cs)
    then have "c \<in> set (filter ?Q (db_ceremonies d))" by simp
    then have "ce_kind c = ''operator_bootstrap''" using 1(1) by (auto simp: other_kind_def rechecked_def)
    with 1(2) Cons show ?thesis
      by (auto simp: upd_ceremonies_consumed_def intro: guarded_error check_guarded split: option.splits)
  qed
qed

section \<open>What the lock preserves\<close>

lemma overlay_no_rows [simp]: "overlay_rows key [] rows = rows"
  by (simp add: overlay_rows_def pick_nothing)

lemma written_no_rows [simp]: "written_rows rows rows = []"
  by (simp add: written_rows_def filter_empty_conv)

lemma operator_credentials_tables:
  "db_users d' = db_users d \<Longrightarrow> db_credentials d' = db_credentials d \<Longrightarrow> operator_credentials d' = operator_credentials d"
  by (simp add: operator_credentials_def)

lemma other_kind_evolves: "db_evolves d d' \<Longrightarrow> other_kind w d \<Longrightarrow> other_kind w d'"
  unfolding other_kind_def db_evolves_def
  by (auto dest!: grows_member [where rel = ceremony_evolves] simp: ceremony_evolves_def) metis

lemma other_kind_commit:
  assumes "other_kind w (overlay own d)" and "db_evolves d (overlay own2 d)" and "ids_ok own"
    and "db_evolves (overlay own2 d) (overlay own (overlay own2 d))"
  shows "other_kind w (overlay own (overlay own2 d))"
proof (cases "other_kind w d")
  case True
  from other_kind_evolves [OF assms(4) other_kind_evolves [OF assms(2) True]] show ?thesis .
next
  case False
  with assms(1) obtain c where "c \<in> set (db_ceremonies own)" and c: "ce_id c = w" "ce_kind c \<noteq> ''operator_bootstrap''"
    using overlay_from unfolding other_kind_def overlay_tables by metis
  then have "c \<in> set (db_ceremonies (overlay own (overlay own2 d)))"
    unfolding overlay_tables using assms(3) overlay_has [of ce_id "db_ceremonies own" c] by (simp add: ids_ok_def)
  with c show ?thesis by (auto simp: other_kind_def)
qed

text \<open>Without a new passkey no operator comes to have one.\<close>

lemma no_operator_credential:
  assumes "operator_credentials d = []" and "db_wf d" and "db_wf (overlay own d)" and "db_evolves d (overlay own d)"
    and "cr_id ` set (db_credentials own) \<subseteq> cr_id ` set (db_credentials d)"
  shows "operator_credentials (overlay own d) = []"
proof (rule ccontr)
  let ?d = "overlay own d"
  assume "operator_credentials ?d \<noteq> []"
  then obtain k where "k \<in> set (operator_credentials ?d)" by (meson hd_in_set)
  then obtain u where k: "k \<in> set (db_credentials ?d)" "cr_revoked_at k = None"
    and u: "u \<in> set (db_users ?d)" "ur_id u = cr_user_id k" "ur_role u = ''operator''"
    by (auto simp: operator_credentials_def list_ex_iff)
  have "cr_id k \<in> cr_id ` set (db_credentials ?d)" using k(1) by (rule imageI)
  then have "cr_id k \<in> cr_id ` set (db_credentials d)" using assms(5) by (simp only: overlay_tables overlay_keys) blast
  then obtain k0 where k0: "k0 \<in> set (db_credentials d)" "cr_id k0 = cr_id k" by (metis imageE)
  have grows: "grows credential_evolves (db_credentials d) (db_credentials ?d)" "grows user_evolves (db_users d) (db_users ?d)"
    using assms(4) unfolding db_evolves_def by blast+
  from grows_member [OF grows(1) k0(1)] obtain k1 where k1: "k1 \<in> set (db_credentials ?d)" "credential_evolves k0 k1" ..
  have "inj_on cr_id (set (db_credentials ?d))" using assms(3) by (simp add: db_wf_def credentials_wf_def distinct_map)
  moreover have "cr_id k1 = cr_id k" using k1(2) k0(2) by (simp add: credential_evolves_def)
  ultimately have "k1 = k" using k1(1) k(1) by (rule inj_onD)
  with k1(2) k(2) have old: "cr_revoked_at k0 = None" "cr_user_id k0 = cr_user_id k"
    by (auto simp: credential_evolves_def sticks_def)
  have "user_exists d (cr_user_id k0)" using assms(2) k0(1) by (simp add: db_wf_def credentials_wf_def)
  then obtain u0 where u0: "u0 \<in> set (db_users d)" "ur_id u0 = cr_user_id k0" unfolding user_exists_def by (metis imageE)
  from grows_member [OF grows(2) u0(1)] obtain u1 where u1: "u1 \<in> set (db_users ?d)" "user_evolves u0 u1" ..
  have "inj_on ur_id (set (db_users ?d))" using assms(3) by (simp add: db_wf_def users_wf_def distinct_map)
  moreover have "ur_id u1 = ur_id u" using u1(2) u0(2) old(2) u(2) by (simp add: user_evolves_def)
  ultimately have "u1 = u" using u1(1) u(1) by (rule inj_onD)
  with u1(2) u(3) have "ur_role u0 = ''operator''" by (simp add: user_evolves_def)
  then have "k0 \<in> set (operator_credentials d)"
    using k0(1) old(1) u0 by (auto simp: operator_credentials_def list_ex_iff)
  with assms(1) show False by simp
qed

section \<open>The invariant of the lock\<close>

definition registrations :: "uuid \<Rightarrow> unit script set" where
  "registrations w = {registration_script i w oh credential now audit | i oh credential now audit. True}"

text \<open>Where a transaction stands with the lock, and a registration with its check.\<close>

definition lock_phase :: "db \<Rightarrow> txn \<Rightarrow> bool" where
  "lock_phase d x \<longleftrightarrow> locked (tx_advisory x) (tx_script x)
     \<and> (tx_advisory x \<or> cr_id ` set (db_credentials (tx_own x)) \<subseteq> cr_id ` set (db_credentials d))
     \<and> (tx_snapshot x \<noteq> None \<longrightarrow> (\<exists>st. tx_script x = Stmt st))"

definition before_check :: "uuid \<Rightarrow> db \<Rightarrow> txn \<Rightarrow> bool" where
  "before_check w d x \<longleftrightarrow> guarded w (tx_advisory x) (tx_script x) \<and> db_users (tx_own x) = [] \<and> db_credentials (tx_own x) = []
     \<and> (\<forall>snapshot. tx_snapshot x = Some snapshot \<longrightarrow> tx_advisory x \<longrightarrow> operator_credentials snapshot = [] \<longrightarrow>
          operator_credentials d = [])"

definition check_phase :: "uuid \<Rightarrow> db \<Rightarrow> txn \<Rightarrow> bool" where
  "check_phase w d x \<longleftrightarrow> other_kind w (overlay (tx_own x) d) \<or> before_check w d x
     \<or> tx_advisory x \<and> operator_credentials d = []"

definition lock_inv :: "uuid \<Rightarrow> server \<Rightarrow> bool" where
  "lock_inv w s \<longleftrightarrow>
     (\<forall>t x. cs_txns s t = Some x \<longrightarrow> lock_phase (cs_db s) x \<and> (tx_origin x \<in> registrations w \<longrightarrow> check_phase w (cs_db s) x))
     \<and> (\<forall>t u x y. t \<noteq> u \<longrightarrow> cs_txns s t = Some x \<longrightarrow> cs_txns s u = Some y \<longrightarrow> \<not> (tx_advisory x \<and> tx_advisory y))"

lemma lock_invD:
  assumes "lock_inv w s"
  shows "cs_txns s t = Some x \<Longrightarrow> lock_phase (cs_db s) x"
    and "cs_txns s t = Some x \<Longrightarrow> tx_origin x \<in> registrations w \<Longrightarrow> check_phase w (cs_db s) x"
    and "t \<noteq> u \<Longrightarrow> cs_txns s t = Some x \<Longrightarrow> cs_txns s u = Some y \<Longrightarrow> \<not> (tx_advisory x \<and> tx_advisory y)"
  using assms unfolding lock_inv_def by blast+

lemma lock_inv_set:
  assumes "lock_inv w s" and "lock_phase (cs_db s) x" and "tx_origin x \<in> registrations w \<Longrightarrow> check_phase w (cs_db s) x"
    and "\<And>u y. u \<noteq> t \<Longrightarrow> cs_txns s u = Some y \<Longrightarrow> \<not> (tx_advisory x \<and> tx_advisory y)"
  shows "lock_inv w (set_txn t x s)"
proof -
  note inv = lock_invD [OF assms(1)]
  have one: "lock_phase (cs_db s) y \<and> (tx_origin y \<in> registrations w \<longrightarrow> check_phase w (cs_db s) y)"
    if "cs_txns (set_txn t x s) u = Some y" for u y
  proof (cases "u = t")
    case True
    with that assms(2,3) show ?thesis by simp
  next
    case False
    with that inv(1,2) [of u y] show ?thesis by simp
  qed
  have two: "\<not> (tx_advisory y \<and> tx_advisory z)"
    if ne: "u \<noteq> v" and uv: "cs_txns (set_txn t x s) u = Some y" "cs_txns (set_txn t x s) v = Some z" for u v y z
  proof -
    consider "u = t" "v \<noteq> t" | "v = t" "u \<noteq> t" | "u \<noteq> t" "v \<noteq> t" using ne by blast
    then show ?thesis
    proof cases
      case 1
      with uv assms(4) [of v z] show ?thesis by simp
    next
      case 2
      with uv assms(4) [of u y] show ?thesis by auto
    next
      case 3
      with ne uv inv(3) [of u v y z] show ?thesis by simp
    qed
  qed
  have db: "cs_db (set_txn t x s) = cs_db s" by simp
  show ?thesis unfolding lock_inv_def db using one two by blast
qed

lemma lock_inv_drop:
  assumes "lock_inv w s" and "\<And>u y. u \<noteq> t \<Longrightarrow> cs_txns s u = Some y \<Longrightarrow>
    lock_phase d y \<and> (tx_origin y \<in> registrations w \<longrightarrow> check_phase w d y)"
  shows "lock_inv w \<lparr>cs_db = d, cs_txns = (cs_txns s)(t := None), cs_committed = finished\<rparr>"
proof -
  let ?s = "\<lparr>cs_db = d, cs_txns = (cs_txns s)(t := None), cs_committed = finished\<rparr>"
  have old: "u \<noteq> t" "cs_txns s u = Some y" if "cs_txns ?s u = Some y" for u y
    using that by (auto split: if_splits)
  have one: "lock_phase d y \<and> (tx_origin y \<in> registrations w \<longrightarrow> check_phase w d y)"
    if "cs_txns ?s u = Some y" for u y
    by (rule assms(2) [OF old [OF that]])
  have two: "\<not> (tx_advisory y \<and> tx_advisory z)"
    if "u \<noteq> v" "cs_txns ?s u = Some y" "cs_txns ?s v = Some z" for u v y z
    by (rule lock_invD(3) [OF assms(1) that(1) old(2) [OF that(2)] old(2) [OF that(3)]])
  have db: "cs_db ?s = d" by simp
  show ?thesis unfolding lock_inv_def db using one two by blast
qed

lemma lock_inv_executes:
  assumes "server_inv s" and "lock_inv w s" and "cs_txns s t = Some x" and "tx_script x = Stmt st"
    and "tx_snapshot x = Some snapshot" and "st snapshot (overlay (tx_own x) (cs_db s)) = (k, d)"
    and y: "y = x\<lparr>tx_script := k, tx_snapshot := None, tx_own := written (cs_db s) d\<rparr>"
  shows "lock_phase (cs_db s) y" and "tx_origin x \<in> registrations w \<Longrightarrow> check_phase w (cs_db s) y"
proof -
  let ?c = "cs_db s" and ?view = "overlay (tx_own x) (cs_db s)"
  note exec = txn_inv_executes [OF server_invD(2) [OF assms(1,3)] assms(4,6)]
  have phase: "locked (tx_advisory x) (Stmt st)"
      "tx_advisory x \<or> cr_id ` set (db_credentials (tx_own x)) \<subseteq> cr_id ` set (db_credentials ?c)"
    using lock_invD(1) [OF assms(2,3)] assms(4) by (simp_all add: lock_phase_def)
  from phase(1) have stmt: "locked (tx_advisory x) k" "tx_advisory x \<or> same_credentials ?view d"
    by (rule locked_StmtE, use assms(6) in blast)+
  have "cr_id ` set (db_credentials (written ?c d)) \<subseteq> cr_id ` set (db_credentials ?c)" if free: "\<not> tx_advisory x"
  proof -
    have "cr_id ` set (db_credentials (written ?c d)) \<subseteq> cr_id ` set (db_credentials d)"
      by (auto simp: written_def written_rows_def)
    also have "\<dots> = cr_id ` set (db_credentials ?view)"
      using stmt(2) free unfolding same_credentials_def by (metis list.set_map)
    also have "\<dots> \<subseteq> cr_id ` set (db_credentials ?c)"
      using phase(2) free by (simp only: overlay_tables overlay_keys) blast
    finally show ?thesis .
  qed
  then show "lock_phase (cs_db s) y" using stmt(1) by (auto simp: lock_phase_def y)
  assume "tx_origin x \<in> registrations w"
  then have "check_phase w ?c x" by (rule lock_invD(2) [OF assms(2,3)])
  then consider "other_kind w ?view" | "\<not> other_kind w ?view" "before_check w ?c x"
    | "tx_advisory x" "operator_credentials ?c = []"
    unfolding check_phase_def by blast
  then show "check_phase w ?c y"
  proof cases
    case 1
    with other_kind_evolves [OF exec(3)] exec(2) show ?thesis by (simp add: check_phase_def y)
  next
    case 2
    then have empty: "db_users (tx_own x) = []" "db_credentials (tx_own x) = []"
      and guard: "guarded w (tx_advisory x) (Stmt st)"
      and seen: "tx_advisory x \<Longrightarrow> operator_credentials snapshot = [] \<Longrightarrow> operator_credentials ?c = []"
      using assms(4,5) by (simp_all add: before_check_def)
    from guard have "guarded w (tx_advisory x) k \<and> db_users d = db_users ?view \<and> db_credentials d = db_credentials ?view
        \<or> tx_advisory x \<and> operator_credentials snapshot = []"
      by (rule guarded_StmtE) (use 2(1) assms(6) in blast)
    then show ?thesis
    proof
      assume "guarded w (tx_advisory x) k \<and> db_users d = db_users ?view \<and> db_credentials d = db_credentials ?view"
      then have "before_check w ?c y" using empty by (simp add: before_check_def y written_def overlay_tables)
      then show ?thesis by (simp add: check_phase_def)
    qed (use seen in \<open>simp add: check_phase_def y\<close>)
  qed (simp add: check_phase_def y)
qed

lemma lock_inv_commits:
  assumes "server_inv s" and "lock_inv w s" and "cs_txns s t = Some x"
    and s': "s' = \<lparr>cs_db = overlay (tx_own x) (cs_db s), cs_txns = (cs_txns s)(t := None), cs_committed = finished\<rparr>"
  shows "lock_inv w s'"
proof -
  let ?c = "cs_db s" and ?c' = "overlay (tx_own x) (cs_db s)"
  note inv = server_invD [OF assms(1)] and lock = lock_invD [OF assms(2)]
  have x: "txn_inv ?c x" by (rule inv(2) [OF assms(3)])
  then have ev: "db_evolves ?c ?c'" and wf: "db_wf ?c'" by (simp_all add: txn_inv_def)
  have grown: "cr_id ` set (db_credentials ?c) \<subseteq> cr_id ` set (db_credentials ?c')"
    by (simp only: overlay_tables overlay_keys) blast
  have "lock_phase ?c' y \<and> (tx_origin y \<in> registrations w \<longrightarrow> check_phase w ?c' y)"
    if u: "u \<noteq> t" "cs_txns s u = Some y" for u y
  proof (intro conjI impI)
    show "lock_phase ?c' y" using lock(1) [OF u(2)] subset_trans [OF _ grown] unfolding lock_phase_def by blast
    have still: "operator_credentials ?c' = []" if "tx_advisory y" "operator_credentials ?c = []"
    proof (rule no_operator_credential [OF that(2) inv(1) wf ev])
      show "cr_id ` set (db_credentials (tx_own x)) \<subseteq> cr_id ` set (db_credentials ?c)"
        using lock(1) [OF assms(3)] lock(3) [OF u(1) u(2) assms(3)] that(1) by (simp add: lock_phase_def)
    qed
    have y: "txn_inv ?c y" by (rule inv(2) [OF u(2)])
    have apart: "locks (tx_own y) \<inter> locks (tx_own x) = {}" using inv(3) [OF u(1) u(2) assms(3)] by (simp add: apart_def)
    assume "tx_origin y \<in> registrations w"
    from lock(2) [OF u(2) this] consider "other_kind w (overlay (tx_own y) ?c)" | "before_check w ?c y"
      | "tx_advisory y" "operator_credentials ?c = []"
      unfolding check_phase_def by blast
    then show "check_phase w ?c' y"
    proof cases
      case 1
      have "other_kind w (overlay (tx_own y) ?c')"
        by (rule other_kind_commit [OF 1 ev]) (use y apart in \<open>simp_all add: txn_inv_def evolves_after_commit\<close>)
      then show ?thesis by (simp add: check_phase_def)
    next
      case 2
      then have "before_check w ?c' y" using still by (auto simp: before_check_def)
      then show ?thesis by (simp add: check_phase_def)
    qed (simp add: check_phase_def still)
  qed
  then show ?thesis unfolding s' by (rule lock_inv_drop [OF assms(2)])
qed

lemma lock_inv_step:
  assumes "server_step s s'" and "server_inv s" and "lock_inv w s"
  shows "lock_inv w s'"
proof -
  note lock = lock_invD [OF assms(3)]
  from assms(1) show ?thesis
  proof (cases rule: server_step.cases)
    case (begins scr t)
    show ?thesis unfolding begins(1)
    proof (rule lock_inv_set [OF assms(3)])
      let ?x = "\<lparr>tx_origin = scr, tx_script = scr, tx_snapshot = None, tx_own = db_empty, tx_advisory = False\<rparr>"
      show "lock_phase (cs_db s) ?x"
        using store_script_locked [OF begins(2)] by (simp add: lock_phase_def db_empty_def)
      assume "tx_origin ?x \<in> registrations w"
      then have "guarded w False scr" by (auto simp: registrations_def registration_guarded)
      then show "check_phase w (cs_db s) ?x" by (simp add: check_phase_def before_check_def db_empty_def)
    qed simp
  next
    case (takes_snapshot t x st)
    let ?x = "x\<lparr>tx_snapshot := Some (overlay (tx_own x) (cs_db s))\<rparr>"
    show ?thesis unfolding takes_snapshot(1)
    proof (rule lock_inv_set [OF assms(3)])
      show "lock_phase (cs_db s) ?x" using lock(1) [OF takes_snapshot(2)] takes_snapshot(3) by (simp add: lock_phase_def)
      have view: "operator_credentials (overlay (tx_own x) (cs_db s)) = operator_credentials (cs_db s)" if "before_check w (cs_db s) x"
        by (rule operator_credentials_tables) (use that in \<open>simp_all add: before_check_def overlay_tables\<close>)
      show "\<not> (tx_advisory ?x \<and> tx_advisory y)" if "u \<noteq> t" "cs_txns s u = Some y" for u y
        using lock(3) [OF that takes_snapshot(2)] by auto
      assume "tx_origin ?x \<in> registrations w"
      then have "check_phase w (cs_db s) x" using lock(2) [OF takes_snapshot(2)] by simp
      with view show "check_phase w (cs_db s) ?x" by (auto simp: check_phase_def before_check_def)
    qed
  next
    case (executes t x st snapshot k d)
    show ?thesis unfolding executes(1)
    proof (rule lock_inv_set [OF assms(3)])
      show "\<not> (tx_advisory (x\<lparr>tx_script := k, tx_snapshot := None, tx_own := written (cs_db s) d\<rparr>) \<and> tx_advisory y)"
        if "u \<noteq> t" "cs_txns s u = Some y" for u y
        using lock(3) [OF that executes(2)] by auto
    qed (use lock_inv_executes [OF assms(2,3) executes(2-5) refl] in simp_all)
  next
    case (takes_advisory t x k)
    let ?x = "x\<lparr>tx_script := k, tx_advisory := True\<rparr>"
    have phase: "lock_phase (cs_db s) x" by (rule lock(1) [OF takes_advisory(2)])
    then have none: "tx_snapshot x = None" using takes_advisory(3) by (cases "tx_snapshot x") (simp_all add: lock_phase_def)
    show ?thesis unfolding takes_advisory(1)
    proof (rule lock_inv_set [OF assms(3)])
      have "locked True k" using phase takes_advisory(3) by (auto simp: lock_phase_def elim: locked_AdvisoryE)
      then show "lock_phase (cs_db s) ?x" using none by (simp add: lock_phase_def)
      show "\<not> (tx_advisory ?x \<and> tx_advisory y)" if "u \<noteq> t" "cs_txns s u = Some y" for u y
        using takes_advisory(4) that by (auto simp: rivals_def)
      assume "tx_origin ?x \<in> registrations w"
      then have "check_phase w (cs_db s) x" using lock(2) [OF takes_advisory(2)] by simp
      then show "check_phase w (cs_db s) ?x"
        using none takes_advisory(3) by (auto simp: check_phase_def before_check_def elim: guarded_AdvisoryE)
    qed
  next
    case (commits t x)
    show ?thesis by (rule lock_inv_commits [OF assms(2,3) commits(2,1)])
  next
    case (aborts t x)
    have "lock_inv w \<lparr>cs_db = cs_db s, cs_txns = (cs_txns s)(t := None), cs_committed = cs_committed s\<rparr>"
      by (rule lock_inv_drop [OF assms(3)]) (use lock(1,2) in blast)
    moreover have "s' = \<lparr>cs_db = cs_db s, cs_txns = (cs_txns s)(t := None), cs_committed = cs_committed s\<rparr>"
      by (simp add: aborts(1))
    ultimately show ?thesis by simp
  qed
qed

lemma lock_inv_steps:
  assumes "server_step\<^sup>*\<^sup>* (server_start d) s" and "db_wf d"
  shows "server_inv s \<and> lock_inv w s"
  using assms(1)
proof (induction rule: rtranclp_induct)
  case base
  show ?case using server_start_inv [OF assms(2)] by (simp add: lock_inv_def server_start_def)
next
  case (step s s')
  with server_step_inv [OF step.hyps(2)] lock_inv_step [OF step.hyps(2)] show ?case by blast
qed

section \<open>Properties\<close>

text \<open>
  C26: The operator bootstrap stays guarded, whatever interleaves.  When a registration whose ceremony
  is an operator bootstrap commits, no operator has an unrevoked passkey in the database it commits
  into: none that was there when it checked, and none committed since, because it holds the advisory
  lock from before its check to its commit and every insertion of a passkey needs that lock.
\<close>

theorem concurrent_bootstrap_guarded:
  assumes "db_wf d" and "server_step\<^sup>*\<^sup>* (server_start d) s" and "server_step s s'"
    and "cs_committed s' = registration_script i w oh credential now audit # cs_committed s"
    and "e \<in> set (db_ceremonies (cs_db s'))" and "ce_id e = w" and "ce_kind e = ''operator_bootstrap''"
  shows "operator_credentials (cs_db s) = []"
  using assms(3)
proof (cases rule: server_step.cases)
  case (commits t x)
  have inv: "server_inv s" "lock_inv w s" using lock_inv_steps [OF assms(2,1)] by blast+
  have "tx_origin x = registration_script i w oh credential now audit" using commits(1) assms(4) by simp
  then have "tx_origin x \<in> registrations w" unfolding registrations_def by blast
  then have "check_phase w (cs_db s) x" by (rule lock_invD(2) [OF inv(2) commits(2)])
  moreover have "\<not> other_kind w (overlay (tx_own x) (cs_db s))"
  proof -
    have "db_wf (cs_db s')" using server_step_inv [OF assms(3) inv(1)] server_invD(1) by blast
    then have "inj_on ce_id (set (db_ceremonies (cs_db s')))" by (simp add: db_wf_def ceremonies_wf_def distinct_map)
    then have "\<not> other_kind w (cs_db s')" using assms(5-7) by (auto simp: other_kind_def dest: inj_onD)
    then show ?thesis by (simp add: commits(1))
  qed
  moreover have "\<not> before_check w (cs_db s) x"
    unfolding before_check_def commits(3) by (blast elim: guarded_FinishE)
  ultimately show ?thesis by (simp add: check_phase_def)
qed (use assms(4) in simp_all)

theorem concurrent_bootstrap_guarded_witness:
  "\<exists>s s'. server_step\<^sup>*\<^sup>* (server_start (pg_db fresh_pg)) s \<and> server_step s s'
     \<and> cs_committed s' = [registration_script 12 22 None \<lparr>vc_credential_id = [4, 5], vc_public_data = JNull\<rparr> 100 demo_audit]
     \<and> operator_credentials (cs_db s) = []"
proof -
  let ?k = "\<lparr>vc_credential_id = [4, 5], vc_public_data = JNull\<rparr>"
  let ?scr = "registration_script 12 22 None ?k 100 demo_audit"
  have scr: "transacts 100 False ?scr (complete_registration 12 22 None ?k 100 demo_audit)" using transacts_store by blast
  have served: "served 100 False fresh_pg" by (simp add: served_def fresh_pg_def demo_pg_def)
  have wf: "db_wf (pg_db fresh_pg)"
    by (simp add: fresh_pg_def demo_pg_def db_wf_def table_wf_defs demo_db_def demo_rows role_names_def purpose_names_def
        kind_names_def i64_max_def user_exists_def opt_user_exists_def id_char_def is_ascii_alphanumeric_def
        is_ascii_alphabetic_def is_ascii_digit_def recovery_pending_def)
  obtain s1 where run: "complete_registration 12 22 None ?k 100 demo_audit fresh_pg = (Inr (), s1)"
    using fresh_register_ok by blast
  let ?t = "\<lparr>cs_db = pg_db s1, cs_txns = Map.empty, cs_committed = [?scr]\<rparr>"
  from transacts_runs [OF scr served run script_registration wf]
  obtain s where s: "server_step\<^sup>*\<^sup>* (server_start (pg_db fresh_pg)) s" "server_step s ?t" "cs_committed s = []" by metis
  have "server_step\<^sup>*\<^sup>* (server_start (pg_db fresh_pg)) ?t" using s(1,2) by (rule rtranclp.rtrancl_into_rtrancl)
  from server_steps_inv [OF this server_start_inv [OF wf]] have ev: "db_evolves (pg_db fresh_pg) (pg_db s1)"
    unfolding server_start_def server.select_convs by (rule conjunct2)
  have "\<exists>e\<in>set (db_ceremonies (pg_db s1)). ce_id e = 22 \<and> ce_kind e = ''operator_bootstrap''"
  proof -
    let ?e = "demo_registration\<lparr>ce_kind := ''operator_bootstrap'', ce_capability_hash := None\<rparr>"
    have "?e \<in> set (db_ceremonies (pg_db fresh_pg))" by (simp add: fresh_pg_def)
    moreover have "grows ceremony_evolves (db_ceremonies (pg_db fresh_pg)) (db_ceremonies (pg_db s1))"
      using ev unfolding db_evolves_def by blast
    ultimately obtain e where "e \<in> set (db_ceremonies (pg_db s1))" "ceremony_evolves ?e e"
      using grows_member [of ceremony_evolves _ _ ?e] by blast
    then show ?thesis by (auto simp: ceremony_evolves_def demo_registration_def)
  qed
  then obtain e where e: "e \<in> set (db_ceremonies (cs_db ?t))" "ce_id e = 22" "ce_kind e = ''operator_bootstrap''" by auto
  have "cs_committed ?t = ?scr # cs_committed s" by (simp add: s(3))
  from concurrent_bootstrap_guarded [OF wf s(1,2) this e]
  show ?thesis using s by (intro exI [of _ s] exI [of _ ?t] conjI) simp_all
qed

end
