(* ===== verification/Spec2Isabelle.thy ===== *)
theory Spec2Isabelle
  imports Wire Application Pg_Bootstrap
begin

text \<open>
  \<^bold>\<open>Verification of rs-console\<close>

  rs-console is the control plane of a small VPN platform.  It decides which WireGuard peers exist and
  hands signed-off peer lists to gateways, and it lets people log in with passkeys, lets operators
  approve accounts and recoveries, and keeps an audit trail.  It is a Rust workspace of four crates:

  \<^item> \<open>policy\<close>: the peers of the VPN and their overlay addresses (\<open>vpn.rs\<close>), and the contract with the
    gateways: manifests, digests, reports, deliveries, acknowledgements (\<open>contract.rs\<close>);
  \<^item> \<open>api\<close>: the synchronisation of gateways on top of that contract (\<open>lib.rs\<close>);
  \<^item> \<open>auth\<close>: accounts, passkey ceremonies, capabilities (setup and recovery tokens), sessions and
    recovery, over two traits, a store and a ceremony engine (\<open>lib.rs\<close>);
  \<^item> \<open>server\<close>: the PostgreSQL store (\<open>repository.rs\<close> and \<open>migrations/\<close>), the WebAuthn engine
    (\<open>webauthn.rs\<close>), the HTTP API with a public and a private listener (\<open>http.rs\<close>), and the
    commands (\<open>main.rs\<close>).

  The two halves, VPN and people, share \<open>UserId\<close> only.

  \<^bold>\<open>Theories\<close>

  Shared: \<open>Prelude\<close> (machine types, results, Rust strings, decimal printing), \<open>Effects\<close> (fallible
  operations on a state, and the locale \<open>step_relation\<close> of what every operation does to it),
  \<open>Ordered_Map\<close> (\<open>BTreeMap\<close>; locale \<open>ordered_map\<close>, interpretation \<open>bt\<close>), \<open>Serde\<close> (what serde derives
  for JSON).

  VPN and gateways:
  \<^item> \<open>Vpn\<close>: \<open>policy/src/vpn.rs\<close>, \<open>policy/src/error.rs\<close>.  \<open>vpn_policy\<close> is \<open>VpnPolicy\<close>; \<open>enroll\<close>,
    \<open>set_games\<close>, \<open>rotate_key\<close>, \<open>revoke\<close> are its methods; \<open>policy_step\<close> is a call.  The lemmas give the
    invariant \<open>policy_inv\<close>, what a call does on every branch, and what a generation names.
  \<^item> \<open>Timestamp\<close>, \<open>Canonical_Json\<close>, \<open>Contract\<close>: \<open>policy/src/contract.rs\<close>: \<open>valid_utc_timestamp\<close> is
    equivalent to a calendar specification, \<open>write_canonical_json\<close> is total and injective up to member
    order, manifests are complete, digests and acknowledgements bind what they are about.
  \<^item> \<open>Wire\<close>: the \<open>Serialize\<close> and \<open>Deserialize\<close> implementations of both files.  What the constructors make
    is read back as itself; decoding checks the identifiers, keys, addresses, generations and digests of
    a message and nothing between them (no schema version, no digest against its manifest), which is
    left to who receives it; and the exchange with a gateway converges over the wire.
  \<^item> \<open>Gateway_Sync\<close>: \<open>api/src/lib.rs\<close>.  \<open>poll\<close> and \<open>acknowledge\<close> are generic in the store as in the
    code; the locale \<open>gateway_state_store\<close> is the contract of the store, \<open>InMemoryGatewayStateStore\<close>
    interprets it (\<open>ims\<close>); \<open>sync_step\<close> interleaves the halves of concurrent calls.

  People:
  \<^item> \<open>Auth_Model\<close>: the data of \<open>auth/src/lib.rs\<close>.
  \<^item> \<open>Pg_Schema\<close>: tables, constraints and statements, from \<open>0001_human_auth.sql\<close>; \<open>Pg_Store\<close>: every
    function of \<open>repository.rs\<close> as the statements it sends, in a transaction where the code opens one.
    \<open>Pg_Relations\<close> proves once, for any relation its statements respect, that the relation holds of
    every function (locale \<open>store_relation\<close>, which extends \<open>statement_relation\<close>); \<open>Pg_Invariants\<close>
    interprets it four times: the schema is kept, the database only moves forward, the network schedule
    is used up, the rest of the state is untouched.  \<open>Pg_Facts\<close> has atomicity, one-time use, sessions
    and the bootstrap; \<open>Pg_Cutoff\<close> has what invalidation ends for good; \<open>Pg_Properties\<close> states the
    properties.
  \<^item> \<open>Pg_Scripts\<close>: the same transactions statement by statement (\<open>script\<close>), tied to the
    functions of \<open>Pg_Store\<close> when nothing runs in between (\<open>transacts_store\<close>); \<open>Pg_Script_Relations\<close> carries what the statements respect
    to the scripts.  \<open>Pg_Concurrent\<close> is a server that interleaves statements at \<open>READ COMMITTED\<close>
    (\<open>server_step\<close>: a view per transaction, locks on rows and on values of unique columns, the advisory
    lock, commits, aborts at any time).  Of every interleaving hold, in \<open>Pg_Exclusion\<close>: the schema,
    history and the end of old sessions, and that a ceremony or capability is spent by one transaction
    only (locale \<open>one_time\<close>, interpretations \<open>ceremony\<close> and \<open>capability\<close>); in \<open>Pg_Bootstrap\<close>: an operator
    bootstrap commits only while no operator has a passkey.
  \<^item> \<open>Auth_Service\<close>: \<open>AuthService\<close>, with the traits as records \<open>auth_store\<close> and \<open>ceremony_engine\<close>; the
    locale \<open>auth_store_steps\<close> (interpretation \<open>run\<close>) carries what holds of runs of the store to the
    service.  \<open>Auth_Sessions\<close>: the abstract session machine, the locale \<open>session_store\<close> and its
    interpretation \<open>pgs\<close>, a simulation of the machine by the session rows.  \<open>Auth_Properties\<close>: the
    refinement, logins, logout, setup, the first operator.
  \<^item> \<open>Webauthn_Engine\<close>: \<open>webauthn.rs\<close>; what the library is asked, and what a login requires of it.
  \<^item> \<open>Http\<close>: \<open>http.rs\<close>; guards, all handlers, CORS configuration and the two routers.  \<open>Http_Properties\<close>:
    the routes are separate, nothing happens before the guards are passed, cookies, setup tokens.
    \<open>Http_Requests\<close>: the bodies and what is extracted from a request; how a body is written does not
    matter, and only \<open>POST\<close> does anything (interpretation \<open>refresh\<close> of \<open>statement_relation\<close>).
  \<^item> \<open>Cli\<close>: the commands of \<open>main.rs\<close>, \<open>serve\<close> up to the routers it answers with.  \<open>Application\<close>: requests
    and commands in any order (\<open>app_step\<close>) are runs of the store, so its invariants are invariants of the
    program.

  \<^bold>\<open>How the model corresponds to the code\<close>

  A Rust struct is a record, an enum a datatype, \<open>Result\<close> a sum with the error on the left, a panic a
  value (\<open>Panic\<close>, or \<open>None\<close> where nothing else can go wrong).  A \<open>String\<close> is the list of its bytes.
  \<open>u8\<close>, \<open>u64\<close> and UUIDs are words; \<open>i64\<close> columns are integers with the overflow checked where it can
  happen (the authentication epoch); instants are integer microseconds.  What a call draws at random or
  reads from the clock is an argument, in the order the code draws it.

  The database is the record \<open>db\<close> of its tables; a statement checks the constraints of the schema.  The
  state \<open>pg\<close> adds the clock of the server, the network and whether the driver decodes \<open>int4\<close> as \<open>i64\<close>.
  \<open>pg_net\<close> lists what happens to the next round trips: served, refused, or served with the answer lost;
  it can be any list, and what follows it is served, so every finite pattern of failures is covered.  A
  failed transaction is rolled back, and a commit whose answer is lost has happened.

  \<^bold>\<open>Parameters\<close>

  Code that is not in the repository is an argument, and what is relied on is a hypothesis with a
  witness: base64 (\<open>b64_decode\<close>, \<open>crypto\<close>), SHA-256 (\<open>codec\<close>, \<open>crypto\<close>; no collision-freedom is
  assumed, statements speak of hashed texts or of equal hashes), quoting a JSON string (\<open>quote_ok\<close>),
  \<open>url\<close> and \<open>webauthn-rs\<close> (\<open>url_lib\<close>, \<open>webauthn_lib\<close>, without any hypothesis), the headers of a request
  (\<open>header_map\<close>), whether axum could read path and body (\<open>raw_request\<close>), the parsers of JSON texts and
  identifiers and what axum answers to a text it cannot extract (\<open>axum\<close>, without any hypothesis), what tower-http's CORS layer answers itself (\<open>st_cors\<close>, without any hypothesis), reading
  files, connecting and binding (\<open>io\<close>).  There is no fuel: every loop of the code is over a finite list,
  and every definition here is total.

  \<^bold>\<open>Findings\<close>

  \<open>rotate_all_auth_epochs\<close> decodes the \<open>int4\<close> column of \<open>RETURNING 1\<close> as \<open>i64\<close>.  A driver that insists
  on the type fails the call as soon as there is a user, and the rotation does not happen
  (\<open>rotation_fails_on_strict_driver\<close>).  What it would invalidate under a more lenient driver is not
  stated.
  \<open>GET /v1/session\<close> replaces the CSRF token without looking at \<open>Origin\<close>, although the README says that
  browser mutations require it.  The origin of the browser is checked as a URL and then expected to be a
  header value, so an origin in development that is one and not the other panics the server
  (\<open>serve_panics\<close>).

  \<^bold>\<open>Not modelled\<close>

  \<^item> Concurrency beyond \<open>Pg_Concurrent\<close>, \<open>Pg_Exclusion\<close> and \<open>Pg_Bootstrap\<close>: the other properties of the
    store are about functions that run from their first statement to their commit, interleaved with each
    other in any order but not inside.  The concurrent server does not wait for rows that are locked and
    not changed, nor for foreign keys, so it allows more interleavings than PostgreSQL; a deadlock that
    PostgreSQL breaks is one of its aborts.
  \<^item> Parsing of JSON text (the model starts from its tree; numbers are integers).
  \<^item> The headers the CORS layer adds to a response, the accept loop, shutdown signals, logging, clap's
    parsing of the command line.
  \<^item> \<open>Debug\<close> and \<open>Hash\<close> implementations; constant-time comparison of hashes is equality.
  \<^item> Packaging, CI and the tests.
\<close>

end
